(* ===== verification/Rio_Prelude.thy ===== *)
theory Rio_Prelude
  imports Main "HOL-Library.Word"
begin

text \<open>
  Shared vocabulary of the development: the machine integers of the runtime, Rust's checked,
  saturating and wrapping arithmetic on them, the result of running runtime code against the
  storage (success, error or panic), the combinators in which every operation of the pallets is
  written, and the laws by which facts about the parts of an operation compose.
\<close>

section \<open>Machine integers\<close>

type_synonym u8 = "8 word"
type_synonym u32 = "32 word"
type_synonym u64 = "64 word"
type_synonym u128 = "128 word"
type_synonym h256 = "256 word"

text \<open>The associated types as \<^verbatim>\<open>runtime/src/types.rs\<close> fixes them.\<close>

type_synonym account_id = "256 word"
type_synonym balance = u128
type_synonym asset_id = u32
type_synonym moment = u64
type_synonym block_number = u32

definition checked_add :: "'n::len word \<Rightarrow> 'n word \<Rightarrow> 'n word option" where
  "checked_add a b = (if unat a + unat b < 2 ^ LENGTH('n) then Some (a + b) else None)"

definition checked_sub :: "'n::len word \<Rightarrow> 'n word \<Rightarrow> 'n word option" where
  "checked_sub a b = (if b \<le> a then Some (a - b) else None)"

definition checked_mul :: "'n::len word \<Rightarrow> 'n word \<Rightarrow> 'n word option" where
  "checked_mul a b = (if unat a * unat b < 2 ^ LENGTH('n) then Some (a * b) else None)"

definition max_value :: "'n::len word" where
  "max_value = - 1"

definition saturating_add :: "'n::len word \<Rightarrow> 'n word \<Rightarrow> 'n word" where
  "saturating_add a b = (case checked_add a b of Some c \<Rightarrow> c | None \<Rightarrow> max_value)"

definition saturating_sub :: "'n::len word \<Rightarrow> 'n word \<Rightarrow> 'n word" where
  "saturating_sub a b = (case checked_sub a b of Some c \<Rightarrow> c | None \<Rightarrow> 0)"

definition saturating_mul :: "'n::len word \<Rightarrow> 'n word \<Rightarrow> 'n word" where
  "saturating_mul a b = (case checked_mul a b of Some c \<Rightarrow> c | None \<Rightarrow> max_value)"

section \<open>Running code against the storage\<close>

text \<open>
  A run ends with a value, with an error, or with a panic. The storage writes made before an
  error stay in the storage: the pallets write directly into it, and an \<open>Err\<close> does not undo
  them. A panic aborts the whole block, so no storage follows it. The text of an error raised by
  the framework (a bad origin) is not part of this repository; the errors the pallets raise
  carry the text of the source.
\<close>

datatype InvalidTransaction = Payment | Custom u8

datatype error = BadOrigin | Msg string | Invalid InvalidTransaction

datatype ('s, 'a) res = Ok 'a 's | Err error 's | Panic

type_synonym ('s, 'a) op = "'s \<Rightarrow> ('s, 'a) res"

definition return :: "'a \<Rightarrow> ('s, 'a) op" where
  "return a = (\<lambda>s. Ok a s)"

definition throw :: "error \<Rightarrow> ('s, 'a) op" where
  "throw e = (\<lambda>s. Err e s)"

definition panic :: "('s, 'a) op" where
  "panic = (\<lambda>s. Panic)"

definition and_then :: "('s, 'a) op \<Rightarrow> ('a \<Rightarrow> ('s, 'b) op) \<Rightarrow> ('s, 'b) op" where
  "and_then m f = (\<lambda>s. case m s of Ok a t \<Rightarrow> f a t | Err e t \<Rightarrow> Err e t | Panic \<Rightarrow> Panic)"

primrec steps :: "('s, unit) op list \<Rightarrow> ('s, unit) op" where
  "steps [] = return ()"
| "steps (m # ms) = and_then m (\<lambda>_. steps ms)"

primrec for_each :: "'x list \<Rightarrow> ('x \<Rightarrow> ('s, unit) op) \<Rightarrow> ('s, unit) op" where
  "for_each [] f = return ()"
| "for_each (x # xs) f = and_then (f x) (\<lambda>_. for_each xs f)"

definition reads :: "('s \<Rightarrow> 'x) \<Rightarrow> ('x \<Rightarrow> ('s, 'a) op) \<Rightarrow> ('s, 'a) op" where
  "reads g f = (\<lambda>s. f (g s) s)"

definition modify :: "('s \<Rightarrow> 's) \<Rightarrow> ('s, unit) op" where
  "modify f = (\<lambda>s. Ok () (f s))"

definition ensure :: "bool \<Rightarrow> string \<Rightarrow> ('s, unit) op" where
  "ensure b msg = (if b then return () else throw (Msg msg))"

definition ok_or :: "'a option \<Rightarrow> string \<Rightarrow> ('s, 'a) op" where
  "ok_or x msg = (case x of Some a \<Rightarrow> return a | None \<Rightarrow> throw (Msg msg))"

definition unwrap :: "'a option \<Rightarrow> ('s, 'a) op" where
  "unwrap x = (case x of Some a \<Rightarrow> return a | None \<Rightarrow> panic)"

definition whenever :: "bool \<Rightarrow> ('s, unit) op \<Rightarrow> ('s, unit) op" where
  "whenever b m = (if b then m else return ())"

definition or_else :: "('s, 'a) op \<Rightarrow> (error \<Rightarrow> ('s, 'a) op) \<Rightarrow> ('s, 'a) op" where
  "or_else m h = (\<lambda>s. case m s of Ok a t \<Rightarrow> Ok a t | Err e t \<Rightarrow> h e t | Panic \<Rightarrow> Panic)"

text \<open>\<open>or_else(|err| { undo?; Err(err) })\<close>, the pattern the pallets use to revert.\<close>

definition on_err :: "('s, 'a) op \<Rightarrow> ('s, unit) op \<Rightarrow> ('s, 'a) op" where
  "on_err m undo = or_else m (\<lambda>e. and_then undo (\<lambda>_. throw e))"

definition unwrap_or_default :: "('s, unit) op \<Rightarrow> ('s, unit) op" where
  "unwrap_or_default m = or_else m (\<lambda>_. return ())"

definition map_err :: "('s, 'a) op \<Rightarrow> (error \<Rightarrow> error) \<Rightarrow> ('s, 'a) op" where
  "map_err m f = or_else m (\<lambda>e. throw (f e))"

definition expect :: "('s, 'a) op \<Rightarrow> ('s, 'a) op" where
  "expect m = or_else m (\<lambda>_. panic)"

text \<open>Division on unsigned integers panics when the divisor is zero.\<close>

definition udiv :: "'n::len word \<Rightarrow> 'n word \<Rightarrow> ('s, 'n word) op" where
  "udiv a b = (if b = 0 then panic else return (a div b))"

text \<open>\<open>u128::try_into::<u64>().ok().unwrap()\<close>.\<close>

definition try_into_u64 :: "u128 \<Rightarrow> u64 option" where
  "try_into_u64 x = (if unat x < 2 ^ 64 then Some (ucast x) else None)"

datatype origin = Root | Signed account_id | NoOrigin

definition ensure_root :: "origin \<Rightarrow> ('s, unit) op" where
  "ensure_root og = (if og = Root then return () else throw BadOrigin)"

definition ensure_signed :: "origin \<Rightarrow> ('s, account_id) op" where
  "ensure_signed og = (case og of Signed who \<Rightarrow> return who | _ \<Rightarrow> throw BadOrigin)"

text \<open>What a run leaves behind, and the facts about runs that compose.\<close>

definition final :: "('s, 'a) res \<Rightarrow> 's option" where
  "final r = (case r of Ok _ t \<Rightarrow> Some t | Err _ t \<Rightarrow> Some t | Panic \<Rightarrow> None)"

definition effects :: "('s \<Rightarrow> 's \<Rightarrow> bool) \<Rightarrow> ('s, 'a) op \<Rightarrow> bool" where
  "effects R m \<longleftrightarrow> (\<forall>s t. final (m s) = Some t \<longrightarrow> R s t)"

definition no_panic :: "('s, 'a) op \<Rightarrow> bool" where
  "no_panic m \<longleftrightarrow> (\<forall>s. m s \<noteq> Panic)"

text \<open>
  The weakest precondition of a run: \<open>Q\<close> after success, \<open>E\<close> after an error. A panic leaves no
  storage, so it meets every postcondition; that a call does not panic is stated separately.
\<close>

definition wp :: "('s, 'a) op \<Rightarrow> ('a \<Rightarrow> 's \<Rightarrow> bool) \<Rightarrow> ('s \<Rightarrow> bool) \<Rightarrow> 's \<Rightarrow> bool" where
  "wp m Q E s = (case m s of Ok a t \<Rightarrow> Q a t | Err _ t \<Rightarrow> E t | Panic \<Rightarrow> True)"

section \<open>Automation\<close>

named_theorems op_defs \<open>combinators applied to a state\<close>
named_theorems op_iffs \<open>when a combinator ends with success, error or panic\<close>

lemma return_apply [op_defs, simp]: "return a s = Ok a s"
  by (simp add: return_def)

lemma throw_apply [op_defs, simp]: "throw e s = Err e s"
  by (simp add: throw_def)

lemma panic_apply [op_defs, simp]: "panic s = Panic"
  by (simp add: panic_def)

lemma modify_apply [op_defs, simp]: "modify f s = Ok () (f s)"
  by (simp add: modify_def)

lemma reads_apply [op_defs, simp]: "reads g f s = f (g s) s"
  by (simp add: reads_def)

lemma and_then_apply [op_defs]:
  "and_then m f s = (case m s of Ok a t \<Rightarrow> f a t | Err e t \<Rightarrow> Err e t | Panic \<Rightarrow> Panic)"
  by (simp add: and_then_def)

lemma and_then_Ok [simp]: "m s = Ok a t \<Longrightarrow> and_then m f s = f a t"
  and and_then_Err [simp]: "m s = Err e t \<Longrightarrow> and_then m f s = Err e t"
  and and_then_Panic [simp]: "m s = Panic \<Longrightarrow> and_then m f s = Panic"
  by (simp_all add: and_then_def)

lemma or_else_apply [op_defs]:
  "or_else m h s = (case m s of Ok a t \<Rightarrow> Ok a t | Err e t \<Rightarrow> h e t | Panic \<Rightarrow> Panic)"
  by (simp add: or_else_def)

lemma on_err_apply [op_defs]:
  "on_err m undo s = (case m s of Ok a t \<Rightarrow> Ok a t
     | Err e t \<Rightarrow> (case undo t of Ok _ u \<Rightarrow> Err e u | Err e' u \<Rightarrow> Err e' u | Panic \<Rightarrow> Panic)
     | Panic \<Rightarrow> Panic)"
  by (auto simp: on_err_def or_else_def and_then_def split: res.splits)

lemma ensure_apply [op_defs, simp]:
  "ensure b msg s = (if b then Ok () s else Err (Msg msg) s)"
  by (simp add: ensure_def)

lemma ok_or_apply [op_defs, simp]:
  "ok_or x msg s = (case x of Some a \<Rightarrow> Ok a s | None \<Rightarrow> Err (Msg msg) s)"
  by (simp add: ok_or_def split: option.splits)

lemma unwrap_apply [op_defs, simp]:
  "unwrap x s = (case x of Some a \<Rightarrow> Ok a s | None \<Rightarrow> Panic)"
  by (simp add: unwrap_def split: option.splits)

lemma whenever_apply [op_defs, simp]: "whenever b m s = (if b then m s else Ok () s)"
  by (simp add: whenever_def)

lemma udiv_apply [op_defs, simp]: "udiv a b s = (if b = 0 then Panic else Ok (a div b) s)"
  by (simp add: udiv_def)

lemma unwrap_or_default_apply [op_defs]:
  "unwrap_or_default m s = (case m s of Ok _ t \<Rightarrow> Ok () t | Err _ t \<Rightarrow> Ok () t | Panic \<Rightarrow> Panic)"
  by (simp add: unwrap_or_default_def or_else_def split: res.splits)

lemma expect_apply [op_defs]:
  "expect m s = (case m s of Ok a t \<Rightarrow> Ok a t | Err _ _ \<Rightarrow> Panic | Panic \<Rightarrow> Panic)"
  by (simp add: expect_def or_else_def split: res.splits)

lemma map_err_apply [op_defs]:
  "map_err m f s = (case m s of Ok a t \<Rightarrow> Ok a t | Err e t \<Rightarrow> Err (f e) t | Panic \<Rightarrow> Panic)"
  by (simp add: map_err_def or_else_def split: res.splits)

lemma ensure_root_apply [op_defs, simp]:
  "ensure_root og s = (if og = Root then Ok () s else Err BadOrigin s)"
  by (simp add: ensure_root_def)

lemma ensure_signed_apply [op_defs, simp]:
  "ensure_signed og s = (case og of Signed who \<Rightarrow> Ok who s | _ \<Rightarrow> Err BadOrigin s)"
  by (simp add: ensure_signed_def split: origin.splits)

lemma and_then_eq_Ok [op_iffs]:
  "and_then m f s = Ok b u \<longleftrightarrow> (\<exists>a t. m s = Ok a t \<and> f a t = Ok b u)"
  by (auto simp: and_then_def split: res.splits)

lemma and_then_eq_Err [op_iffs]:
  "and_then m f s = Err e u \<longleftrightarrow>
     m s = Err e u \<or> (\<exists>a t. m s = Ok a t \<and> f a t = Err e u)"
  by (auto simp: and_then_def split: res.splits)

lemma and_then_eq_Panic [op_iffs]:
  "and_then m f s = Panic \<longleftrightarrow> m s = Panic \<or> (\<exists>a t. m s = Ok a t \<and> f a t = Panic)"
  by (auto simp: and_then_def split: res.splits)

lemma final_simps [simp]:
  "final (Ok a t) = Some t" "final (Err e t) = Some t" "final Panic = None"
  by (simp_all add: final_def)

lemma final_and_then:
  "final (and_then m f s) = Some u \<longleftrightarrow>
     (\<exists>e. m s = Err e u) \<or> (\<exists>a t. m s = Ok a t \<and> final (f a t) = Some u)"
  by (auto simp: and_then_def split: res.splits)

lemma effectsI: "(\<And>s t. final (m s) = Some t \<Longrightarrow> R s t) \<Longrightarrow> effects R m"
  by (simp add: effects_def)

lemma effectsD: "effects R m \<Longrightarrow> final (m s) = Some t \<Longrightarrow> R s t"
  by (simp add: effects_def)

lemma effects_Ok: "effects R m \<Longrightarrow> m s = Ok a t \<Longrightarrow> R s t"
  and effects_Err: "effects R m \<Longrightarrow> m s = Err e t \<Longrightarrow> R s t"
  by (simp_all add: effects_def)

subsection \<open>Weakest preconditions\<close>

named_theorems wp_simps \<open>weakest preconditions of the combinators\<close>

lemma wp_return [wp_simps]: "wp (return a) Q E s = Q a s"
  by (auto simp: wp_def split: option.splits origin.splits)

lemma wp_throw [wp_simps]: "wp (throw e) Q E s = E s"
  by (auto simp: wp_def split: option.splits origin.splits)

lemma wp_panic [wp_simps]: "wp panic Q E s"
  by (auto simp: wp_def split: option.splits origin.splits)

lemma wp_modify [wp_simps]: "wp (modify f) Q E s = Q () (f s)"
  by (auto simp: wp_def split: option.splits origin.splits)

lemma wp_reads [wp_simps]: "wp (reads g h) Q E s = wp (h (g s)) Q E s"
  by (auto simp: wp_def split: option.splits origin.splits)

lemma wp_ensure [wp_simps]: "wp (ensure b msg) Q E s = (if b then Q () s else E s)"
  by (auto simp: wp_def split: option.splits origin.splits)

lemma wp_ok_or [wp_simps]: "wp (ok_or x msg) Q E s = (case x of Some a \<Rightarrow> Q a s | None \<Rightarrow> E s)"
  by (auto simp: wp_def split: option.splits origin.splits)

lemma wp_unwrap [wp_simps]: "wp (unwrap x) Q E s = (case x of Some a \<Rightarrow> Q a s | None \<Rightarrow> True)"
  by (auto simp: wp_def split: option.splits origin.splits)

lemma wp_udiv [wp_simps]: "wp (udiv c d) Q E s = (d \<noteq> 0 \<longrightarrow> Q (c div d) s)"
  by (auto simp: wp_def split: option.splits origin.splits)

lemma wp_whenever [wp_simps]: "wp (whenever b m) Q E s = (if b then wp m Q E s else Q () s)"
  by (auto simp: wp_def split: option.splits origin.splits)

lemma wp_ensure_root [wp_simps]: "wp (ensure_root og) Q E s = (if og = Root then Q () s else E s)"
  by (auto simp: wp_def split: option.splits origin.splits)

lemma wp_ensure_signed [wp_simps]: "wp (ensure_signed og) Q E s = (case og of Signed who \<Rightarrow> Q who s | _ \<Rightarrow> E s)"
  by (auto simp: wp_def split: option.splits origin.splits)

lemma wp_and_then [wp_simps]: "wp (and_then m f) Q E s = wp m (\<lambda>a. wp (f a) Q E) E s"
  by (cases "m s") (simp_all add: wp_def)

lemma wp_or_else [wp_simps]: "wp (or_else m h) Q E s = (case m s of Err e t \<Rightarrow> wp (h e) Q E t | _ \<Rightarrow> wp m Q E s)"
  by (cases "m s") (simp_all add: wp_def or_else_apply)

lemma wp_on_err [wp_simps]: "wp (on_err m undo) Q E s = wp m Q (wp undo (\<lambda>_. E) E) s"
  by (cases "m s") (auto simp: wp_def on_err_apply split: res.splits)

lemma wp_unwrap_or_default [wp_simps]: "wp (unwrap_or_default m) Q E s = wp m (\<lambda>_. Q ()) (Q ()) s"
  by (cases "m s") (simp_all add: wp_def unwrap_or_default_apply)

lemma wp_steps [wp_simps]:
  "wp (steps []) Q E s = Q () s"
  "wp (steps (m # ms)) Q E s = wp m (\<lambda>_. wp (steps ms) Q E) E s"
  by (simp_all add: wp_simps)

lemma wp_effects:
  assumes "effects R m" and "\<And>a t. R s t \<Longrightarrow> Q a t" and "\<And>t. R s t \<Longrightarrow> E t"
  shows "wp m Q E s"
  using assms effects_Ok [OF assms(1), of s] effects_Err [OF assms(1), of s]
  by (cases "m s") (auto simp: wp_def)

lemma wp_final: "wp m (\<lambda>_. P) P s \<longleftrightarrow> (\<forall>t. final (m s) = Some t \<longrightarrow> P t)"
  by (cases "m s") (simp_all add: wp_def)

lemma wp_mono:
  assumes "wp m Q E s" and "\<And>a t. Q a t \<Longrightarrow> Q' a t" and "\<And>t. E t \<Longrightarrow> E' t"
  shows "wp m Q' E' s"
  using assms by (cases "m s") (simp_all add: wp_def)

subsection \<open>Composition of effects\<close>

text \<open>
  A reflexive and transitive relation between the storage before and after composes along every
  combinator. Its instances are the invariants of the pallets (\<open>\<lambda>s t. I s \<longrightarrow> I t\<close>), the
  frame conditions (\<open>\<lambda>s t. f t = f s\<close>) and the monotone quantities.
\<close>

locale effect_order =
  fixes R :: "'s \<Rightarrow> 's \<Rightarrow> bool"
  assumes refl: "R s s"
    and trans: "R s t \<Longrightarrow> R t u \<Longrightarrow> R s u"
begin

lemma effects_return: "effects R (return a)"
  and effects_throw: "effects R (throw e)"
  and effects_panic: "effects R panic"
  by (auto simp: effects_def refl)

lemma effects_and_then: "effects R m \<Longrightarrow> (\<And>a. effects R (f a)) \<Longrightarrow> effects R (and_then m f)"
  by (auto simp: effects_def final_and_then) (metis final_simps(1) final_simps(2) trans)+

lemma effects_steps: "(\<And>m. m \<in> set ms \<Longrightarrow> effects R m) \<Longrightarrow> effects R (steps ms)"
  by (induction ms) (auto intro: effects_return effects_and_then)

lemma effects_steps_Nil: "effects R (steps [])"
  and effects_steps_Cons: "effects R m \<Longrightarrow> effects R (steps ms) \<Longrightarrow> effects R (steps (m # ms))"
  by (auto intro: effects_return effects_and_then)

lemma effects_for_each: "(\<And>x. x \<in> set xs \<Longrightarrow> effects R (f x)) \<Longrightarrow> effects R (for_each xs f)"
  by (induction xs) (auto intro: effects_return effects_and_then)

lemma effects_reads: "(\<And>x. effects R (f x)) \<Longrightarrow> effects R (reads g f)"
  by (auto simp: effects_def)

lemma effects_ensure: "effects R (ensure b msg)"
  and effects_ok_or: "effects R (ok_or x msg)"
  and effects_unwrap: "effects R (unwrap x)"
  and effects_udiv: "effects R (udiv c d)"
  and effects_ensure_root: "effects R (ensure_root og)"
  and effects_ensure_signed: "effects R (ensure_signed og)"
  by (auto simp: effects_def refl split: if_splits option.splits origin.splits)

lemma effects_whenever: "(b \<Longrightarrow> effects R m) \<Longrightarrow> effects R (whenever b m)"
  by (auto simp: effects_def refl)

lemma effects_or_else:
  assumes "effects R m" and "\<And>e. effects R (h e)"
  shows "effects R (or_else m h)"
proof (rule effectsI)
  fix s t assume "final (or_else m h s) = Some t"
  then show "R s t"
    using assms by (cases "m s") (auto simp: or_else_def intro: trans dest: effects_Ok effects_Err effectsD)
qed

lemma effects_on_err: "effects R m \<Longrightarrow> effects R undo \<Longrightarrow> effects R (on_err m undo)"
  unfolding on_err_def by (intro effects_or_else effects_and_then effects_throw)

lemma effects_unwrap_or_default: "effects R m \<Longrightarrow> effects R (unwrap_or_default m)"
  and effects_expect: "effects R m' \<Longrightarrow> effects R (expect m')"
  and effects_map_err: "effects R m' \<Longrightarrow> effects R (map_err m' g)"
  unfolding unwrap_or_default_def expect_def map_err_def
  by (auto intro: effects_or_else effects_return effects_panic effects_throw)

lemma effects_if: "(b \<Longrightarrow> effects R m) \<Longrightarrow> (\<not> b \<Longrightarrow> effects R n) \<Longrightarrow> effects R (if b then m else n)"
  by simp

lemma effects_case_option:
  "(x = None \<Longrightarrow> effects R m) \<Longrightarrow> (\<And>y. x = Some y \<Longrightarrow> effects R (n y)) \<Longrightarrow>
   effects R (case x of None \<Rightarrow> m | Some y \<Rightarrow> n y)"
  by (cases x) simp_all

lemma effects_Let: "(\<And>x. effects R (f x)) \<Longrightarrow> effects R (Let y f)"
  by simp

lemma effects_case_prod: "(\<And>a b. effects R (f a b)) \<Longrightarrow> effects R (case x of (a, b) \<Rightarrow> f a b)"
  by (cases x) simp

lemmas effects_intros =
  effects_return effects_throw effects_panic effects_and_then effects_steps_Nil effects_steps_Cons
  effects_for_each effects_reads effects_ensure effects_ok_or effects_unwrap effects_udiv
  effects_ensure_root effects_ensure_signed effects_whenever effects_or_else effects_on_err
  effects_unwrap_or_default effects_expect effects_map_err effects_if effects_case_option effects_Let
  effects_case_prod

end

section \<open>Words as natural numbers\<close>

lemma checked_sub_Some:
  "checked_sub a b = Some c \<longleftrightarrow> b \<le> a \<and> c = a - b"
  by (auto simp: checked_sub_def)

lemma checked_sub_None: "checked_sub a b = None \<longleftrightarrow> a < b"
  by (auto simp: checked_sub_def)

lemma checked_add_Some:
  "checked_add (a :: 'n::len word) b = Some c \<longleftrightarrow> unat a + unat b < 2 ^ LENGTH('n) \<and> c = a + b"
  by (auto simp: checked_add_def)

lemma unat_plus: "unat (a :: 'n::len word) + unat b < 2 ^ LENGTH('n) \<Longrightarrow> unat (a + b) = unat a + unat b"
  by (simp add: unat_add_lem [symmetric])

lemma unat_minus: "(b :: 'n::len word) \<le> a \<Longrightarrow> unat (a - b) = unat a - unat b"
  by (rule unat_sub)

lemma unat_times: "unat (a :: 'n::len word) * unat b < 2 ^ LENGTH('n) \<Longrightarrow> unat (a * b) = unat a * unat b"
  by (simp add: unat_mult_lem [symmetric])

lemma unat_bound: "unat (a :: 'n::len word) < 2 ^ LENGTH('n)"
  by simp

lemma unat_u128_less: "unat (a :: u128) < 2 ^ 128"
  using unat_bound [of a] by simp

lemma unat_max_value: "unat (max_value :: 'n::len word) = 2 ^ LENGTH('n) - 1"
  by (simp add: max_value_def unsigned_minus_1_eq_mask mask_eq_exp_minus_1)

lemma word_less_succ:
  assumes "(a :: 'n::len word) \<noteq> max_value"
  shows "a < a + 1"
proof -
  have "unat a \<noteq> 2 ^ LENGTH('n) - 1"
    using assms unat_max_value [where 'n = 'n] by (metis word_unat_eq_iff)
  then have "unat a + 1 < 2 ^ LENGTH('n)"
    using unat_bound [of a] by linarith
  then show ?thesis
    using unat_plus [of a 1] by (simp add: word_less_nat_alt)
qed

lemma unat_saturating_add:
  "unat (saturating_add (a :: 'n::len word) b) = min (unat a + unat b) (2 ^ LENGTH('n) - 1)"
  using unat_bound [of a]
  by (auto simp: saturating_add_def checked_add_def unat_plus unat_max_value)

lemma unat_le_max: "unat (a :: 'n::len word) \<le> 2 ^ LENGTH('n) - 1"
  using unat_bound [of a] by linarith

lemma saturating_add_ge: "a \<le> saturating_add a b" "b \<le> saturating_add a b"
  using unat_le_max [of a] unat_le_max [of b]
  by (simp_all add: word_le_nat_alt unat_saturating_add)

lemma unat_saturating_sub: "unat (saturating_sub (a :: 'n::len word) b) = unat a - unat b"
  by (auto simp: saturating_sub_def checked_sub_def unat_minus word_le_nat_alt)

section \<open>Sums over all accounts\<close>

lemma sum_update:
  fixes f :: "'a::finite \<Rightarrow> 'b::comm_monoid_add"
  shows "sum (f(x := v)) UNIV + f x = sum f UNIV + v"
proof -
  have "sum (f(x := v)) UNIV = v + sum f (UNIV - {x})"
    by (subst sum.remove [of UNIV x]) (auto intro!: sum.cong)
  moreover have "sum f UNIV = f x + sum f (UNIV - {x})"
    by (subst sum.remove [of UNIV x]) auto
  ultimately show ?thesis by (simp add: ac_simps)
qed

lemma sum_ge_member: "f (x :: 'a::finite) \<le> (sum f UNIV :: nat)"
  by (simp add: member_le_sum)

lemma sum_ge_two:
  fixes f :: "'a::finite \<Rightarrow> nat"
  assumes "x \<noteq> y"
  shows "f x + f y \<le> sum f UNIV"
proof -
  have "sum f {x, y} \<le> sum f UNIV"
    by (rule sum_mono2) auto
  then show ?thesis using assms by simp
qed

end
