(* ===== verification/Assets.thy ===== *)
theory Assets
  imports Rio_Prelude
begin

text \<open>
  The pallet \<^verbatim>\<open>modules/rio-assets\<close> without its \<open>Currency\<close> view: permissions, restrictions,
  the storage shared by every other pallet, the internal transfers, mints and burns, the
  dispatchable calls with their hooks, and the genesis build. The invariant \<open>supply_ok\<close> ties
  the total issuance of every asset to the balances of its holders.
\<close>

section \<open>Attributes and permissions\<close>

datatype 'acc Owner = OwnerNone | Address 'acc

record 'acc PermissionsV1 =
  perm_update :: "'acc Owner"
  perm_mint :: "'acc Owner"
  perm_burn :: "'acc Owner"

datatype 'acc PermissionVersions = V1 "'acc PermissionsV1"

datatype PermissionType = Burn | Mint | Update

type_synonym 'acc PermissionLatest = "'acc PermissionsV1"

record AssetOptions =
  initial_issuance :: balance
  permissions :: "account_id PermissionLatest"

definition default_permissions :: "'acc PermissionsV1" where
  "default_permissions = \<lparr>perm_update = OwnerNone, perm_mint = OwnerNone, perm_burn = OwnerNone\<rparr>"

definition default_versions :: "'acc PermissionVersions" where
  "default_versions = V1 default_permissions"

fun into_latest :: "'acc PermissionVersions \<Rightarrow> 'acc PermissionLatest" where
  "into_latest (V1 v1) = v1"

definition into_versions :: "'acc PermissionLatest \<Rightarrow> 'acc PermissionVersions" where
  "into_versions p = V1 p"

datatype Restriction = Transferable

text \<open>
  The binary form of versioned permissions: the number of the version, then the permissions of that
  version. How the codec writes and reads the two is derived outside this code and a parameter.
\<close>

datatype PermissionVersionNumber = NumberV1

fun encode_versions ::
  "(PermissionVersionNumber \<Rightarrow> u8 list) \<Rightarrow> ('acc PermissionsV1 \<Rightarrow> u8 list) \<Rightarrow> 'acc PermissionVersions \<Rightarrow> u8 list" where
  "encode_versions enc_number enc_v1 (V1 payload) = enc_number NumberV1 @ enc_v1 payload"

definition decode_versions ::
  "(u8 list \<Rightarrow> (PermissionVersionNumber \<times> u8 list) option) \<Rightarrow> (u8 list \<Rightarrow> ('acc PermissionsV1 \<times> u8 list) option) \<Rightarrow>
   u8 list \<Rightarrow> ('acc PermissionVersions \<times> u8 list) option" where
  "decode_versions dec_number dec_v1 bs = (case dec_number bs of
       None \<Rightarrow> None
     | Some (NumberV1, rest) \<Rightarrow> map_option (\<lambda>(p, r). (V1 p, r)) (dec_v1 rest))"

section \<open>Storage\<close>

datatype AssetsEvent =
    Created asset_id account_id AssetOptions
  | Transferred asset_id account_id account_id balance
  | PermissionUpdated asset_id "account_id PermissionLatest"
  | Minted asset_id account_id balance
  | Burned asset_id account_id balance

text \<open>
  The storage: the items of this pallet, the values it and its clients read from the framework
  (block number, timestamp, extrinsic index, the sudo key), and the storage \<open>pallet\<close> of the
  client that runs on top. A map whose items have a default is a total function, a map whose
  keys are tested for existence a partial one.
\<close>

record 'p world =
  TotalIssuance :: "asset_id \<Rightarrow> balance"
  FreeBalance :: "asset_id \<Rightarrow> account_id \<Rightarrow> balance"
  ReservedBalance :: "asset_id \<Rightarrow> account_id \<Rightarrow> balance"
  Permissions :: "asset_id \<Rightarrow> account_id PermissionVersions"
  Restrictions :: "asset_id \<Rightarrow> Restriction \<Rightarrow> unit option"
  Symbols :: "asset_id \<Rightarrow> u8 list option"
  FromId :: "asset_id option"
  ToId :: "asset_id option"
  AssetsEvents :: "AssetsEvent list"
  RootKey :: account_id
  BlockNumber :: block_number
  Timestamp :: moment
  ExtrinsicIndex :: "u32 option"
  pallet :: 'p

definition deposit_event :: "AssetsEvent \<Rightarrow> ('p world, unit) op" where
  "deposit_event e = modify (\<lambda>w. w\<lparr>AssetsEvents := AssetsEvents w @ [e]\<rparr>)"

text \<open>A client pallet reads and writes its own storage.\<close>

abbreviation reads_pallet :: "('p \<Rightarrow> 'x) \<Rightarrow> ('x \<Rightarrow> ('p world, 'a) op) \<Rightarrow> ('p world, 'a) op" where
  "reads_pallet g f \<equiv> reads (\<lambda>w. g (pallet w)) f"

definition mutate :: "('p \<Rightarrow> 'p) \<Rightarrow> ('p world, unit) op" where
  "mutate f = modify (\<lambda>w. w\<lparr>pallet := f (pallet w)\<rparr>)"

definition genesis_world :: "account_id \<Rightarrow> 'p \<Rightarrow> 'p world" where
  "genesis_world key p =
     \<lparr>TotalIssuance = \<lambda>_. 0, FreeBalance = \<lambda>_ _. 0, ReservedBalance = \<lambda>_ _. 0,
      Permissions = \<lambda>_. default_versions, Restrictions = \<lambda>_ _. None, Symbols = \<lambda>_. None,
      FromId = None, ToId = None, AssetsEvents = [], RootKey = key, BlockNumber = 0,
      Timestamp = 0, ExtrinsicIndex = None, pallet = p\<rparr>"

section \<open>Hooks\<close>

record 'p hooks =
  before_asset_create :: "asset_id \<Rightarrow> ('p world, unit) op"
  on_asset_create :: "asset_id \<Rightarrow> ('p world, unit) op"
  before_asset_transfer :: "asset_id \<Rightarrow> account_id \<Rightarrow> account_id \<Rightarrow> balance \<Rightarrow> ('p world, unit) op"
  on_asset_transfer :: "asset_id \<Rightarrow> account_id \<Rightarrow> account_id \<Rightarrow> balance \<Rightarrow> ('p world, unit) op"
  before_asset_mint :: "asset_id \<Rightarrow> account_id \<Rightarrow> balance \<Rightarrow> ('p world, unit) op"
  on_asset_mint :: "asset_id \<Rightarrow> account_id \<Rightarrow> balance \<Rightarrow> ('p world, unit) op"
  before_asset_burn :: "asset_id \<Rightarrow> account_id \<Rightarrow> balance \<Rightarrow> ('p world, unit) op"
  on_asset_burn :: "asset_id \<Rightarrow> account_id \<Rightarrow> balance \<Rightarrow> ('p world, unit) op"

definition unit_hooks :: "'p hooks" where
  "unit_hooks =
     \<lparr>before_asset_create = \<lambda>_. return (), on_asset_create = \<lambda>_. return (),
      before_asset_transfer = \<lambda>_ _ _ _. return (), on_asset_transfer = \<lambda>_ _ _ _. return (),
      before_asset_mint = \<lambda>_ _ _. return (), on_asset_mint = \<lambda>_ _ _. return (),
      before_asset_burn = \<lambda>_ _ _. return (), on_asset_burn = \<lambda>_ _ _. return ()\<rparr>"

section \<open>Internal operations\<close>

definition asset_exists :: "'p world \<Rightarrow> asset_id \<Rightarrow> bool" where
  "asset_exists w i \<longleftrightarrow> Symbols w i \<noteq> None"

definition should_not_exist :: "asset_id \<Rightarrow> ('p world, unit) op" where
  "should_not_exist i = reads (\<lambda>w. Symbols w i) (\<lambda>x. ensure (x = None) ''AssetId is exist.'')"

definition should_exist :: "asset_id \<Rightarrow> ('p world, unit) op" where
  "should_exist i = reads (\<lambda>w. Symbols w i) (\<lambda>x. ensure (x \<noteq> None) ''AssetId is not exist.'')"

definition free_balance :: "'p world \<Rightarrow> asset_id \<Rightarrow> account_id \<Rightarrow> balance" where
  "free_balance w i who = FreeBalance w i who"

definition reserved_balance :: "'p world \<Rightarrow> asset_id \<Rightarrow> account_id \<Rightarrow> balance" where
  "reserved_balance w i who = ReservedBalance w i who"

definition total_balance :: "'p world \<Rightarrow> asset_id \<Rightarrow> account_id \<Rightarrow> balance" where
  "total_balance w i who = free_balance w i who"

definition set_free_balance :: "asset_id \<Rightarrow> account_id \<Rightarrow> balance \<Rightarrow> ('p world, unit) op" where
  "set_free_balance i who b =
     modify (\<lambda>w. w\<lparr>FreeBalance := (FreeBalance w)(i := (FreeBalance w i)(who := b))\<rparr>)"

definition set_reserved_balance :: "asset_id \<Rightarrow> account_id \<Rightarrow> balance \<Rightarrow> ('p world, unit) op" where
  "set_reserved_balance i who b =
     modify (\<lambda>w. w\<lparr>ReservedBalance := (ReservedBalance w)(i := (ReservedBalance w i)(who := b))\<rparr>)"

definition set_total_issuance :: "asset_id \<Rightarrow> balance \<Rightarrow> ('p world, unit) op" where
  "set_total_issuance i b = modify (\<lambda>w. w\<lparr>TotalIssuance := (TotalIssuance w)(i := b)\<rparr>)"

definition create_asset ::
  "asset_id \<Rightarrow> u8 list \<Rightarrow> account_id option \<Rightarrow> AssetOptions \<Rightarrow> ('p world, unit) op" where
  "create_asset i symbol from_account options =
     (let account = (case from_account of Some a \<Rightarrow> a | None \<Rightarrow> 0);
          perms = into_versions (permissions options)
      in steps
        [should_not_exist i,
         set_total_issuance i (initial_issuance options),
         set_free_balance i account (initial_issuance options),
         modify (\<lambda>w. w\<lparr>Permissions := (Permissions w)(i := perms)\<rparr>),
         modify (\<lambda>w. w\<lparr>Symbols := (Symbols w)(i := Some symbol)\<rparr>),
         deposit_event (Created i account options)])"

datatype WithdrawReason = TransactionPayment | Transfer | Reserve | Fee | Tip

definition can_do :: "asset_id \<Rightarrow> Restriction \<Rightarrow> ('p world, unit) op" where
  "can_do i restriction = reads (\<lambda>w. Restrictions w i restriction)
     (\<lambda>x. ensure (x = None) ''The asset is restricted for this action.'')"

definition ensure_can_withdraw ::
  "asset_id \<Rightarrow> account_id \<Rightarrow> balance \<Rightarrow> WithdrawReason list \<Rightarrow> balance \<Rightarrow> ('p world, unit) op" where
  "ensure_can_withdraw i who amount reasons new_balance =
     whenever (Transfer \<in> set reasons) (can_do i Transferable)"

definition make_transfer ::
  "asset_id \<Rightarrow> account_id \<Rightarrow> account_id \<Rightarrow> balance \<Rightarrow> ('p world, unit) op" where
  "make_transfer i from to amount =
     and_then (should_exist i) (\<lambda>_.
     reads (\<lambda>w. free_balance w i from) (\<lambda>bal.
     and_then (ok_or (checked_sub bal amount) ''balance too low to send amount'') (\<lambda>new_balance.
     steps
       [ensure_can_withdraw i from amount [Transfer] new_balance,
        whenever (from \<noteq> to)
          (steps
            [reads (\<lambda>w. FreeBalance w i from) (\<lambda>b. set_free_balance i from (b - amount)),
             reads (\<lambda>w. FreeBalance w i to) (\<lambda>b. set_free_balance i to (b + amount))])])))"

definition make_transfer_with_event ::
  "asset_id \<Rightarrow> account_id \<Rightarrow> account_id \<Rightarrow> balance \<Rightarrow> ('p world, unit) op" where
  "make_transfer_with_event i from to amount = steps
     [make_transfer i from to amount,
      whenever (from \<noteq> to) (deposit_event (Transferred i from to amount))]"

fun permission_owner :: "PermissionType \<Rightarrow> 'acc PermissionLatest \<Rightarrow> 'acc Owner" where
  "permission_owner Burn p = perm_burn p"
| "permission_owner Mint p = perm_mint p"
| "permission_owner Update p = perm_update p"

definition check_permission :: "'p world \<Rightarrow> asset_id \<Rightarrow> account_id \<Rightarrow> PermissionType \<Rightarrow> bool" where
  "check_permission w i who what =
     (case permission_owner what (into_latest (Permissions w i)) of
        Address account \<Rightarrow> account = who
      | OwnerNone \<Rightarrow> False)"

definition mint_free :: "asset_id \<Rightarrow> account_id \<Rightarrow> account_id \<Rightarrow> balance \<Rightarrow> ('p world, unit) op" where
  "mint_free i who to amount =
     and_then (should_exist i) (\<lambda>_.
     reads (\<lambda>w. check_permission w i who Mint) (\<lambda>allowed.
     if allowed then
       reads (\<lambda>w. free_balance w i to) (\<lambda>original_free_balance.
       reads (\<lambda>w. TotalIssuance w i) (\<lambda>current_total_issuance.
       and_then (ok_or (checked_add current_total_issuance amount)
                   ''total_issuance got overflow after minting.'') (\<lambda>new_total_issuance.
       and_then (ok_or (checked_add original_free_balance amount)
                   ''free balance got overflow after minting.'') (\<lambda>value.
       steps [set_total_issuance i new_total_issuance, set_free_balance i to value]))))
     else throw (Msg ''The origin does not have permission to mint an asset.'')))"

definition burn_free :: "asset_id \<Rightarrow> account_id \<Rightarrow> account_id \<Rightarrow> balance \<Rightarrow> ('p world, unit) op" where
  "burn_free i who to amount =
     and_then (should_exist i) (\<lambda>_.
     reads (\<lambda>w. check_permission w i who Burn) (\<lambda>allowed.
     if allowed then
       reads (\<lambda>w. free_balance w i to) (\<lambda>original_free_balance.
       reads (\<lambda>w. TotalIssuance w i) (\<lambda>current_total_issuance.
       and_then (ok_or (checked_sub current_total_issuance amount)
                   ''total_issuance got underflow after burning'') (\<lambda>new_total_issuance.
       and_then (ok_or (checked_sub original_free_balance amount)
                   ''free_balance got underflow after burning'') (\<lambda>value.
       steps [set_total_issuance i new_total_issuance, set_free_balance i to value]))))
     else throw (Msg ''The origin does not have permission to burn an asset.'')))"

definition reserve :: "asset_id \<Rightarrow> account_id \<Rightarrow> balance \<Rightarrow> ('p world, unit) op" where
  "reserve i who amount =
     reads (\<lambda>w. reserved_balance w i who) (\<lambda>original_reserve_balance.
     reads (\<lambda>w. free_balance w i who) (\<lambda>original_free_balance.
     if original_free_balance < amount then throw (Msg ''not enough free funds'')
     else steps
       [set_reserved_balance i who (original_reserve_balance + amount),
        set_free_balance i who (original_free_balance - amount)]))"

definition unreserve :: "asset_id \<Rightarrow> account_id \<Rightarrow> balance \<Rightarrow> ('p world, balance) op" where
  "unreserve i who amount =
     reads (\<lambda>w. reserved_balance w i who) (\<lambda>b.
     let actual = min b amount in
     reads (\<lambda>w. free_balance w i who) (\<lambda>original_free_balance.
     and_then
       (steps
         [set_free_balance i who (original_free_balance + actual),
          set_reserved_balance i who (b - actual)])
       (\<lambda>_. return (amount - actual))))"

section \<open>Dispatchable calls\<close>

definition create :: "origin \<Rightarrow> balance \<Rightarrow> asset_id \<Rightarrow> u8 list \<Rightarrow> ('p world, unit) op" where
  "create og initial_balance i symbol =
     and_then (ensure_root og) (\<lambda>_.
     reads RootKey (\<lambda>root.
     create_asset i symbol (Some root)
       \<lparr>initial_issuance = initial_balance,
        permissions = \<lparr>perm_update = Address root, perm_mint = Address root, perm_burn = Address root\<rparr>\<rparr>))"

definition transfer ::
  "'p hooks \<Rightarrow> origin \<Rightarrow> asset_id \<Rightarrow> account_id \<Rightarrow> balance \<Rightarrow> ('p world, unit) op" where
  "transfer hk og i to amount =
     and_then (ensure_signed og) (\<lambda>who.
     steps
       [before_asset_transfer hk i who to amount,
        make_transfer_with_event i who to amount,
        unwrap_or_default (on_asset_transfer hk i who to amount)])"

definition update_permission ::
  "origin \<Rightarrow> asset_id \<Rightarrow> account_id PermissionLatest \<Rightarrow> ('p world, unit) op" where
  "update_permission og i new_permission =
     and_then (ensure_root og) (\<lambda>_.
     reads RootKey (\<lambda>root.
     reads (\<lambda>w. check_permission w i root Update) (\<lambda>allowed.
     if allowed then steps
       [modify (\<lambda>w. w\<lparr>Permissions := (Permissions w)(i := into_versions new_permission)\<rparr>),
        deposit_event (PermissionUpdated i (into_latest (into_versions new_permission)))]
     else throw (Msg ''Origin does not have enough permission to update permissions.''))))"

definition update_restriction ::
  "origin \<Rightarrow> asset_id \<Rightarrow> Restriction \<Rightarrow> bool \<Rightarrow> ('p world, unit) op" where
  "update_restriction og i restriction not_allow = steps
     [ensure_root og,
      modify (\<lambda>w. w\<lparr>Restrictions := (Restrictions w)(i :=
        (if not_allow then (Restrictions w i)(restriction \<mapsto> ())
         else (Restrictions w i)(restriction := None)))\<rparr>)]"

definition mint ::
  "'p hooks \<Rightarrow> origin \<Rightarrow> asset_id \<Rightarrow> account_id \<Rightarrow> balance \<Rightarrow> ('p world, unit) op" where
  "mint hk og i to amount =
     and_then (ensure_root og) (\<lambda>_.
     reads RootKey (\<lambda>root.
     steps
       [before_asset_mint hk i to amount,
        mint_free i root to amount,
        deposit_event (Minted i to amount),
        unwrap_or_default (on_asset_mint hk i to amount)]))"

definition burn ::
  "'p hooks \<Rightarrow> origin \<Rightarrow> asset_id \<Rightarrow> account_id \<Rightarrow> balance \<Rightarrow> ('p world, unit) op" where
  "burn hk og i to amount =
     and_then (ensure_root og) (\<lambda>_.
     reads RootKey (\<lambda>root.
     steps
       [before_asset_burn hk i to amount,
        burn_free i root to amount,
        deposit_event (Burned i to amount),
        unwrap_or_default (on_asset_burn hk i to amount)]))"

definition set_reserve :: "origin \<Rightarrow> asset_id \<Rightarrow> account_id \<Rightarrow> balance \<Rightarrow> ('p world, unit) op" where
  "set_reserve og i who amount = steps [ensure_root og, reserve i who amount]"

definition set_unreserve :: "origin \<Rightarrow> asset_id \<Rightarrow> account_id \<Rightarrow> balance \<Rightarrow> ('p world, unit) op" where
  "set_unreserve og i who amount = steps
     [ensure_root og, and_then (unreserve i who amount) (\<lambda>_. return ())]"

datatype AssetsCall =
    CallCreate balance asset_id "u8 list"
  | CallTransfer asset_id account_id balance
  | CallUpdatePermission asset_id "account_id PermissionLatest"
  | CallUpdateRestriction asset_id Restriction bool
  | CallMint asset_id account_id balance
  | CallBurn asset_id account_id balance
  | CallSetReserve asset_id account_id balance
  | CallSetUnreserve asset_id account_id balance

fun dispatch_assets :: "'p hooks \<Rightarrow> origin \<Rightarrow> AssetsCall \<Rightarrow> ('p world, unit) op" where
  "dispatch_assets hk og (CallCreate b i symb) = create og b i symb"
| "dispatch_assets hk og (CallTransfer i to x) = transfer hk og i to x"
| "dispatch_assets hk og (CallUpdatePermission i np) = update_permission og i np"
| "dispatch_assets hk og (CallUpdateRestriction i r b) = update_restriction og i r b"
| "dispatch_assets hk og (CallMint i to x) = mint hk og i to x"
| "dispatch_assets hk og (CallBurn i to x) = burn hk og i to x"
| "dispatch_assets hk og (CallSetReserve i who x) = set_reserve og i who x"
| "dispatch_assets hk og (CallSetUnreserve i who x) = set_unreserve og i who x"

section \<open>Genesis\<close>

type_synonym symbol_config =
  "asset_id \<times> u8 list \<times> Restriction list \<times> (account_id \<times> balance) list"

definition build_symbol :: "account_id \<Rightarrow> symbol_config \<Rightarrow> ('p world, unit) op" where
  "build_symbol root = (\<lambda>(i, symbol, restrictions, endowed).
     steps
       [expect (create_asset i symbol None
          \<lparr>initial_issuance = 0,
           permissions = \<lparr>perm_update = Address root, perm_mint = Address root,
                          perm_burn = Address root\<rparr>\<rparr>),
        for_each restrictions (\<lambda>forbidden. expect (update_restriction Root i forbidden True)),
        for_each endowed (\<lambda>(account, bal). set_free_balance i account bal),
        set_total_issuance i (foldl (\<lambda>sum val. sum + snd val) 0 endowed)])"

definition build :: "account_id \<Rightarrow> symbol_config list \<Rightarrow> ('p world, unit) op" where
  "build root symbols = for_each symbols (build_symbol root)"

section \<open>The supply invariant\<close>

text \<open>
  What an account holds of an asset, free and reserved, and the sum of it over all accounts,
  in unbounded arithmetic. The invariant: the holdings of every asset add up to its total
  issuance, and an asset that was never created has no issuance.
\<close>

definition holding :: "'p world \<Rightarrow> asset_id \<Rightarrow> account_id \<Rightarrow> nat" where
  "holding w i a = unat (FreeBalance w i a) + unat (ReservedBalance w i a)"

definition total_held :: "'p world \<Rightarrow> asset_id \<Rightarrow> nat" where
  "total_held w i = sum (holding w i) UNIV"

definition supply_ok :: "'p world \<Rightarrow> bool" where
  "supply_ok w \<longleftrightarrow>
     (\<forall>i. total_held w i = unat (TotalIssuance w i)) \<and> (\<forall>i. Symbols w i = None \<longrightarrow> TotalIssuance w i = 0)"

text \<open>The calls that may lower what an account has free of an asset.\<close>

fun takes_from :: "account_id \<Rightarrow> asset_id \<Rightarrow> origin \<Rightarrow> AssetsCall \<Rightarrow> bool" where
  "takes_from a i og (CallTransfer j to x) \<longleftrightarrow> j = i \<and> og = Signed a"
| "takes_from a i og (CallBurn j who x) \<longleftrightarrow> j = i \<and> who = a"
| "takes_from a i og (CallSetReserve j who x) \<longleftrightarrow> j = i \<and> who = a"
| "takes_from a i og _ \<longleftrightarrow> False"

text \<open>The storage after \<open>amount\<close> moved from one free balance to another.\<close>

definition moved :: "'p world \<Rightarrow> asset_id \<Rightarrow> account_id \<Rightarrow> account_id \<Rightarrow> balance \<Rightarrow> 'p world" where
  "moved w i from to amount =
     (if from = to then w
      else w\<lparr>FreeBalance := (FreeBalance w)(i := (FreeBalance w i)
             (from := FreeBalance w i from - amount, to := FreeBalance w i to + amount))\<rparr>)"

text \<open>The same with the event of the transfer.\<close>

definition sent :: "'p world \<Rightarrow> asset_id \<Rightarrow> account_id \<Rightarrow> account_id \<Rightarrow> balance \<Rightarrow> 'p world" where
  "sent w i from to amount =
     (if from = to then w
      else (moved w i from to amount)\<lparr>AssetsEvents := AssetsEvents w @ [Transferred i from to amount]\<rparr>)"

text \<open>The storage after a mint and after a burn, with their events.\<close>

definition minted :: "'p world \<Rightarrow> asset_id \<Rightarrow> account_id \<Rightarrow> balance \<Rightarrow> 'p world" where
  "minted w i to x = w\<lparr>TotalIssuance := (TotalIssuance w)(i := TotalIssuance w i + x),
     FreeBalance := (FreeBalance w)(i := (FreeBalance w i)(to := FreeBalance w i to + x)),
     AssetsEvents := AssetsEvents w @ [Minted i to x]\<rparr>"

definition burnt :: "'p world \<Rightarrow> asset_id \<Rightarrow> account_id \<Rightarrow> balance \<Rightarrow> 'p world" where
  "burnt w i who x = w\<lparr>TotalIssuance := (TotalIssuance w)(i := TotalIssuance w i - x),
     FreeBalance := (FreeBalance w)(i := (FreeBalance w i)(who := FreeBalance w i who - x)),
     AssetsEvents := AssetsEvents w @ [Burned i who x]\<rparr>"

text \<open>The two relations between the storage before and after that operations are measured against.\<close>

abbreviation keeps_supply :: "'p world \<Rightarrow> 'p world \<Rightarrow> bool" where
  "keeps_supply w w' \<equiv> supply_ok w \<longrightarrow> supply_ok w'"

abbreviation keeps_pallet :: "'p world \<Rightarrow> 'p world \<Rightarrow> bool" where
  "keeps_pallet w w' \<equiv> pallet w' = pallet w"

section \<open>Behaviour of the internal operations\<close>

named_theorems assets_eqs \<open>each operation of the pallet as one equation over the storage\<close>

lemmas getter_defs = free_balance_def reserved_balance_def total_balance_def asset_exists_def

lemma steps_singleton: "steps [m] s = m s"
  by (cases "m s") simp_all

lemma set_free_balance_apply [assets_eqs]:
  "set_free_balance i who b w =
     Ok () (w\<lparr>FreeBalance := (FreeBalance w)(i := (FreeBalance w i)(who := b))\<rparr>)"
  by (simp add: set_free_balance_def)

lemma set_reserved_balance_apply [assets_eqs]:
  "set_reserved_balance i who b w =
     Ok () (w\<lparr>ReservedBalance := (ReservedBalance w)(i := (ReservedBalance w i)(who := b))\<rparr>)"
  by (simp add: set_reserved_balance_def)

lemma set_total_issuance_apply [assets_eqs]:
  "set_total_issuance i b w = Ok () (w\<lparr>TotalIssuance := (TotalIssuance w)(i := b)\<rparr>)"
  by (simp add: set_total_issuance_def)

lemma deposit_event_apply [assets_eqs]:
  "deposit_event e w = Ok () (w\<lparr>AssetsEvents := AssetsEvents w @ [e]\<rparr>)"
  by (simp add: deposit_event_def)

lemma mutate_apply [simp]: "mutate f w = Ok () (w\<lparr>pallet := f (pallet w)\<rparr>)"
  by (simp add: mutate_def)

lemma effects_mutateI: "(\<And>w. R w (w\<lparr>pallet := f (pallet w)\<rparr>)) \<Longrightarrow> effects R (mutate f)"
  by (simp add: effects_def)

lemma should_exist_apply [assets_eqs]:
  "should_exist i w = (if Symbols w i \<noteq> None then Ok () w else Err (Msg ''AssetId is not exist.'') w)"
  by (simp add: should_exist_def)

lemma should_not_exist_apply [assets_eqs]:
  "should_not_exist i w = (if Symbols w i = None then Ok () w else Err (Msg ''AssetId is exist.'') w)"
  by (simp add: should_not_exist_def)

lemma can_do_apply [assets_eqs]:
  "can_do i r w = (if Restrictions w i r = None then Ok () w
     else Err (Msg ''The asset is restricted for this action.'') w)"
  by (simp add: can_do_def)

lemma ensure_can_withdraw_apply [assets_eqs]:
  "ensure_can_withdraw i who amount reasons nb w =
     (if Transfer \<in> set reasons then can_do i Transferable w else Ok () w)"
  by (simp add: ensure_can_withdraw_def)

lemma moved_simps [simp]:
  "TotalIssuance (moved w i from to amount) = TotalIssuance w"
  "ReservedBalance (moved w i from to amount) = ReservedBalance w"
  "Permissions (moved w i from to amount) = Permissions w"
  "Restrictions (moved w i from to amount) = Restrictions w"
  "Symbols (moved w i from to amount) = Symbols w"
  "AssetsEvents (moved w i from to amount) = AssetsEvents w"
  "RootKey (moved w i from to amount) = RootKey w"
  "Timestamp (moved w i from to amount) = Timestamp w"
  "BlockNumber (moved w i from to amount) = BlockNumber w"
  "ExtrinsicIndex (moved w i from to amount) = ExtrinsicIndex w"
  "pallet (moved w i from to amount) = pallet w"
  "j \<noteq> i \<Longrightarrow> FreeBalance (moved w i from to amount) j = FreeBalance w j"
  by (simp_all add: moved_def)

lemma make_transfer_apply [assets_eqs]:
  "make_transfer i from to amount w =
     (if Symbols w i = None then Err (Msg ''AssetId is not exist.'') w
      else if FreeBalance w i from < amount then Err (Msg ''balance too low to send amount'') w
      else if Restrictions w i Transferable \<noteq> None
        then Err (Msg ''The asset is restricted for this action.'') w
      else Ok () (moved w i from to amount))"
  by (auto simp: make_transfer_def assets_eqs getter_defs moved_def checked_sub_def op_defs
      split: option.splits)

lemma make_transfer_with_event_apply [assets_eqs]:
  "make_transfer_with_event i from to amount w =
     (case make_transfer i from to amount w of
        Ok _ w' \<Rightarrow> Ok () (if from = to then w'
          else w'\<lparr>AssetsEvents := AssetsEvents w' @ [Transferred i from to amount]\<rparr>)
      | r \<Rightarrow> r)"
  by (cases "make_transfer i from to amount w")
    (auto simp: make_transfer_with_event_def assets_eqs op_defs)

lemma make_transfer_with_event_sent:
  "make_transfer_with_event i from to amount w =
     (if Symbols w i = None then Err (Msg ''AssetId is not exist.'') w
      else if FreeBalance w i from < amount then Err (Msg ''balance too low to send amount'') w
      else if Restrictions w i Transferable \<noteq> None
        then Err (Msg ''The asset is restricted for this action.'') w
      else Ok () (sent w i from to amount))"
  by (simp add: make_transfer_with_event_apply make_transfer_apply sent_def) (simp add: moved_def)

lemma sent_simps [simp]:
  "TotalIssuance (sent w i from to amount) = TotalIssuance w"
  "ReservedBalance (sent w i from to amount) = ReservedBalance w"
  "Permissions (sent w i from to amount) = Permissions w"
  "Restrictions (sent w i from to amount) = Restrictions w"
  "Symbols (sent w i from to amount) = Symbols w"
  "RootKey (sent w i from to amount) = RootKey w"
  "Timestamp (sent w i from to amount) = Timestamp w"
  "BlockNumber (sent w i from to amount) = BlockNumber w"
  "ExtrinsicIndex (sent w i from to amount) = ExtrinsicIndex w"
  "pallet (sent w i from to amount) = pallet w"
  "FreeBalance (sent w i from to amount) = FreeBalance (moved w i from to amount)"
  by (simp_all add: sent_def) (simp add: moved_def)

lemma mint_free_apply [assets_eqs]:
  "mint_free i who to amount w =
     (if Symbols w i = None then Err (Msg ''AssetId is not exist.'') w
      else if \<not> check_permission w i who Mint
        then Err (Msg ''The origin does not have permission to mint an asset.'') w
      else if checked_add (TotalIssuance w i) amount = None
        then Err (Msg ''total_issuance got overflow after minting.'') w
      else if checked_add (FreeBalance w i to) amount = None
        then Err (Msg ''free balance got overflow after minting.'') w
      else Ok () (w\<lparr>TotalIssuance := (TotalIssuance w)(i := TotalIssuance w i + amount),
             FreeBalance := (FreeBalance w)(i := (FreeBalance w i)(to := FreeBalance w i to + amount))\<rparr>))"
  by (auto simp: mint_free_def assets_eqs getter_defs checked_add_def op_defs)

lemma burn_free_apply [assets_eqs]:
  "burn_free i who to amount w =
     (if Symbols w i = None then Err (Msg ''AssetId is not exist.'') w
      else if \<not> check_permission w i who Burn
        then Err (Msg ''The origin does not have permission to burn an asset.'') w
      else if TotalIssuance w i < amount
        then Err (Msg ''total_issuance got underflow after burning'') w
      else if FreeBalance w i to < amount
        then Err (Msg ''free_balance got underflow after burning'') w
      else Ok () (w\<lparr>TotalIssuance := (TotalIssuance w)(i := TotalIssuance w i - amount),
             FreeBalance := (FreeBalance w)(i := (FreeBalance w i)(to := FreeBalance w i to - amount))\<rparr>))"
  by (auto simp: burn_free_def assets_eqs getter_defs checked_sub_def op_defs)

lemma reserve_apply [assets_eqs]:
  "reserve i who amount w =
     (if FreeBalance w i who < amount then Err (Msg ''not enough free funds'') w
      else Ok () (w\<lparr>
        FreeBalance := (FreeBalance w)(i := (FreeBalance w i)(who := FreeBalance w i who - amount)),
        ReservedBalance := (ReservedBalance w)(i := (ReservedBalance w i)(who := ReservedBalance w i who + amount))\<rparr>))"
  by (auto simp: reserve_def assets_eqs getter_defs op_defs)

lemma unreserve_apply [assets_eqs]:
  "unreserve i who amount w =
     Ok (amount - min (ReservedBalance w i who) amount)
       (w\<lparr>FreeBalance := (FreeBalance w)(i := (FreeBalance w i)
            (who := FreeBalance w i who + min (ReservedBalance w i who) amount)),
          ReservedBalance := (ReservedBalance w)(i := (ReservedBalance w i)
            (who := ReservedBalance w i who - min (ReservedBalance w i who) amount))\<rparr>)"
  by (simp add: unreserve_def assets_eqs getter_defs op_defs Let_def)

lemma create_asset_apply [assets_eqs]:
  "create_asset i symbol fa options w =
     (if Symbols w i \<noteq> None then Err (Msg ''AssetId is exist.'') w
      else let account = (case fa of Some a \<Rightarrow> a | None \<Rightarrow> 0) in
        Ok () (w\<lparr>TotalIssuance := (TotalIssuance w)(i := initial_issuance options),
          FreeBalance := (FreeBalance w)(i := (FreeBalance w i)(account := initial_issuance options)),
          Permissions := (Permissions w)(i := into_versions (permissions options)),
          Symbols := (Symbols w)(i \<mapsto> symbol),
          AssetsEvents := AssetsEvents w @ [Created i account options]\<rparr>))"
  by (auto simp: create_asset_def assets_eqs op_defs Let_def)

section \<open>The supply invariant is kept\<close>

lemma holding_upd_free:
  "holding (w\<lparr>FreeBalance := (FreeBalance w)(i := (FreeBalance w i)(a := b))\<rparr>) j =
     (if j = i then (holding w i)(a := unat b + unat (ReservedBalance w i a)) else holding w j)"
  by (auto simp: holding_def fun_eq_iff)

lemma total_held_upd_free:
  "total_held (w\<lparr>FreeBalance := (FreeBalance w)(i := (FreeBalance w i)(a := b))\<rparr>) i
     + unat (FreeBalance w i a) = total_held w i + unat b"
proof -
  have "sum ((holding w i)(a := unat b + unat (ReservedBalance w i a))) UNIV + holding w i a
    = sum (holding w i) UNIV + (unat b + unat (ReservedBalance w i a))"
    by (rule sum_update)
  then show ?thesis
    by (simp add: total_held_def holding_upd_free) (simp add: holding_def)
qed

lemma total_held_cong:
  "FreeBalance w' i = FreeBalance w i \<Longrightarrow> ReservedBalance w' i = ReservedBalance w i \<Longrightarrow>
   total_held w' i = total_held w i"
  by (simp add: total_held_def holding_def fun_eq_iff)

lemma supply_okD:
  "supply_ok w \<Longrightarrow> total_held w i = unat (TotalIssuance w i)"
  "supply_ok w \<Longrightarrow> Symbols w i = None \<Longrightarrow> TotalIssuance w i = 0"
  by (simp_all add: supply_ok_def)

lemma free_le_held: "unat (FreeBalance w i a) + unat (ReservedBalance w i a) \<le> total_held w i"
  using sum_ge_member [of "holding w i" a] by (simp add: total_held_def holding_def)

lemma two_free_le_held: "a \<noteq> b \<Longrightarrow> unat (FreeBalance w i a) + unat (FreeBalance w i b) \<le> total_held w i"
  using sum_ge_two [of a b "holding w i"] by (simp add: total_held_def holding_def)

lemma free_le_issuance: "supply_ok w \<Longrightarrow> FreeBalance w i a \<le> TotalIssuance w i"
  using free_le_held [of w i a] by (simp add: supply_okD word_le_nat_alt)

lemma never_created_no_balance:
  "supply_ok w \<Longrightarrow> Symbols w i = None \<Longrightarrow> FreeBalance w i a = 0 \<and> ReservedBalance w i a = 0"
  using free_le_held [of w i a] by (simp add: supply_okD unat_eq_0)

text \<open>The unchecked additions of a transfer and of the reserve calls cannot wrap.\<close>

lemma credit_no_wrap:
  "supply_ok w \<Longrightarrow> from \<noteq> to \<Longrightarrow> amount \<le> FreeBalance w i from \<Longrightarrow>
   unat (FreeBalance w i to + amount) = unat (FreeBalance w i to) + unat amount"
  using two_free_le_held [of "from" to w i] unat_u128_less [of "TotalIssuance w i"]
  by (intro unat_plus) (simp add: supply_okD word_le_nat_alt)

lemma reserve_no_wrap:
  "supply_ok w \<Longrightarrow> amount \<le> FreeBalance w i a \<Longrightarrow>
   unat (ReservedBalance w i a + amount) = unat (ReservedBalance w i a) + unat amount"
  using free_le_held [of w i a] unat_u128_less [of "TotalIssuance w i"]
  by (intro unat_plus) (simp add: supply_okD word_le_nat_alt)

lemma unreserve_no_wrap:
  "supply_ok w \<Longrightarrow> amount \<le> ReservedBalance w i a \<Longrightarrow>
   unat (FreeBalance w i a + amount) = unat (FreeBalance w i a) + unat amount"
  using free_le_held [of w i a] unat_u128_less [of "TotalIssuance w i"]
  by (intro unat_plus) (simp add: supply_okD word_le_nat_alt)

lemma supply_okI:
  assumes "\<And>i. total_held w i = unat (TotalIssuance w i)"
    and "\<And>i. Symbols w i = None \<Longrightarrow> TotalIssuance w i = 0"
  shows "supply_ok w"
  using assms by (simp add: supply_ok_def)

lemma supply_ok_cong:
  "supply_ok w \<Longrightarrow> FreeBalance w' = FreeBalance w \<Longrightarrow> ReservedBalance w' = ReservedBalance w \<Longrightarrow>
   TotalIssuance w' = TotalIssuance w \<Longrightarrow> (\<And>i. Symbols w' i = None \<Longrightarrow> Symbols w i = None) \<Longrightarrow>
   supply_ok w'"
  by (intro supply_okI) (simp_all add: supply_okD total_held_cong [of w' _ w])

lemma supply_ok_irrelevant [simp]:
  "supply_ok (w\<lparr>Permissions := x1\<rparr>) = supply_ok w"
  "supply_ok (w\<lparr>Restrictions := x2\<rparr>) = supply_ok w"
  "supply_ok (w\<lparr>FromId := x3\<rparr>) = supply_ok w"
  "supply_ok (w\<lparr>ToId := x4\<rparr>) = supply_ok w"
  "supply_ok (w\<lparr>AssetsEvents := x5\<rparr>) = supply_ok w"
  "supply_ok (w\<lparr>RootKey := x6\<rparr>) = supply_ok w"
  "supply_ok (w\<lparr>BlockNumber := x7\<rparr>) = supply_ok w"
  "supply_ok (w\<lparr>Timestamp := x8\<rparr>) = supply_ok w"
  "supply_ok (w\<lparr>ExtrinsicIndex := x9\<rparr>) = supply_ok w"
  "supply_ok (w\<lparr>pallet := x10\<rparr>) = supply_ok w"
  by (simp_all add: supply_ok_def total_held_def holding_def)

text \<open>
  One asset changes: the change of the sum of its holdings is the change of its issuance.
\<close>

lemma supply_ok_change:
  assumes ok: "supply_ok w"
    and held: "total_held w' i = unat (TotalIssuance w' i)"
    and other: "\<And>j. j \<noteq> i \<Longrightarrow> FreeBalance w' j = FreeBalance w j \<and>
      ReservedBalance w' j = ReservedBalance w j \<and> TotalIssuance w' j = TotalIssuance w j"
    and sym: "\<And>j. Symbols w' j = None \<Longrightarrow> Symbols w j = None \<and> (j = i \<longrightarrow> TotalIssuance w' i = 0)"
  shows "supply_ok w'"
proof (rule supply_okI)
  fix j show "total_held w' j = unat (TotalIssuance w' j)"
    using held other [of j] total_held_cong [of w' j w] supply_okD(1) [OF ok, of j]
    by (cases "j = i") simp_all
next
  fix j assume "Symbols w' j = None"
  with sym [of j] other [of j] supply_okD(2) [OF ok, of j] show "TotalIssuance w' j = 0"
    by (cases "j = i") simp_all
qed

lemma total_held_moved:
  assumes "supply_ok w" and "amount \<le> FreeBalance w i from"
  shows "total_held (moved w i from to amount) i = total_held w i"
proof (cases "from = to")
  case False
  let ?w1 = "w\<lparr>FreeBalance := (FreeBalance w)(i := (FreeBalance w i)(from := FreeBalance w i from - amount))\<rparr>"
  have step1: "total_held ?w1 i + unat (FreeBalance w i from) = total_held w i + unat (FreeBalance w i from - amount)"
    by (rule total_held_upd_free)
  have "total_held (moved w i from to amount) i + unat (FreeBalance w i to)
    = total_held ?w1 i + unat (FreeBalance w i to + amount)"
    using total_held_upd_free [of ?w1 i to "FreeBalance w i to + amount"] False
    by (simp add: moved_def)
  moreover have "unat amount \<le> unat (FreeBalance w i from)"
    using assms(2) by (simp add: word_le_nat_alt)
  ultimately show ?thesis
    using step1 credit_no_wrap [OF assms(1) False assms(2)] unat_minus [OF assms(2)] by linarith
qed (simp add: moved_def)

lemma supply_ok_moved:
  assumes "supply_ok w" and "amount \<le> FreeBalance w i from"
  shows "supply_ok (moved w i from to amount)"
proof (rule supply_ok_change [OF assms(1), of _ i])
  show "total_held (moved w i from to amount) i = unat (TotalIssuance (moved w i from to amount) i)"
    using total_held_moved [OF assms] supply_okD(1) [OF assms(1)] by simp
qed (auto simp: supply_okD(2) [OF assms(1)])

lemma supply_ok_sent: "supply_ok (sent w i from to amount) = supply_ok (moved w i from to amount)"
  by (simp add: sent_def) (simp add: moved_def)

lemma transfer_run:
  assumes "supply_ok w" and "amount \<le> FreeBalance w i from" and "Symbols w i \<noteq> None" and "Restrictions w i Transferable = None"
  shows "make_transfer_with_event i from to amount w = Ok () (sent w i from to amount)" and "supply_ok (sent w i from to amount)"
  using assms supply_ok_moved [OF assms(1,2), of to] leD [OF assms(2)]
  by (simp_all add: make_transfer_with_event_sent supply_ok_sent)

lemma free_moved:
  assumes "supply_ok w" and "amount \<le> FreeBalance w i from"
  shows "from \<noteq> to \<Longrightarrow> unat (FreeBalance (moved w i from to amount) i to) = unat (FreeBalance w i to) + unat amount"
    and "from \<noteq> to \<Longrightarrow> unat (FreeBalance (moved w i from to amount) i from) = unat (FreeBalance w i from) - unat amount"
    and "a \<noteq> from \<Longrightarrow> a \<noteq> to \<Longrightarrow> FreeBalance (moved w i from to amount) i a = FreeBalance w i a"
  using assms credit_no_wrap [OF assms(1) _ assms(2), of to]
  by (simp_all add: moved_def unat_minus)

interpretation kept: effect_order "keeps_supply :: 'p world \<Rightarrow> 'p world \<Rightarrow> bool"
  by unfold_locales auto

interpretation framed: effect_order "keeps_pallet :: 'p world \<Rightarrow> 'p world \<Rightarrow> bool"
  by unfold_locales auto

named_theorems supply_effects \<open>operations that keep the supply invariant\<close>

lemma make_transfer_keeps_supply [supply_effects]:
  "effects keeps_supply (make_transfer i from to amount)"
  by (rule effectsI) (auto simp: make_transfer_apply supply_ok_moved split: if_splits)

lemma deposit_event_keeps_supply [supply_effects]: "effects keeps_supply (deposit_event e)"
  by (rule effectsI) (auto simp: deposit_event_apply)

lemma mutate_keeps_supply [supply_effects]: "effects keeps_supply (mutate f)"
  by (rule effectsI) auto

lemma make_transfer_with_event_keeps_supply [supply_effects]:
  "effects keeps_supply (make_transfer_with_event i from to amount)"
  unfolding make_transfer_with_event_def
  by (intro kept.effects_intros supply_effects)

lemma total_held_upd_issuance [simp]:
  "total_held (w\<lparr>TotalIssuance := f\<rparr>) i = total_held w i"
  by (rule total_held_cong) simp_all

lemma supply_ok_credit:
  assumes ok: "supply_ok w" and ex: "Symbols w i \<noteq> None"
    and fits: "unat (TotalIssuance w i) + unat amount < 2 ^ 128"
  shows "supply_ok (w\<lparr>TotalIssuance := (TotalIssuance w)(i := TotalIssuance w i + amount),
      FreeBalance := (FreeBalance w)(i := (FreeBalance w i)(to := FreeBalance w i to + amount))\<rparr>)"
    (is "supply_ok ?w'")
proof (rule supply_ok_change [OF ok, of _ i])
  let ?w2 = "w\<lparr>FreeBalance := (FreeBalance w)(i := (FreeBalance w i)(to := FreeBalance w i to + amount))\<rparr>"
  have "total_held ?w2 i + unat (FreeBalance w i to) = total_held w i + unat (FreeBalance w i to + amount)"
    by (rule total_held_upd_free)
  moreover have "unat (FreeBalance w i to + amount) = unat (FreeBalance w i to) + unat amount"
    using fits free_le_issuance [OF ok, of i to] by (intro unat_plus) (simp add: word_le_nat_alt)
  moreover have "total_held ?w' i = total_held ?w2 i"
    by (rule total_held_cong) simp_all
  ultimately show "total_held ?w' i = unat (TotalIssuance ?w' i)"
    using fits supply_okD(1) [OF ok, of i] by (simp add: unat_plus)
qed (use ex in auto)

lemma supply_ok_debit:
  assumes ok: "supply_ok w" and ex: "Symbols w i \<noteq> None" and fits: "amount \<le> FreeBalance w i from"
  shows "supply_ok (w\<lparr>TotalIssuance := (TotalIssuance w)(i := TotalIssuance w i - amount),
      FreeBalance := (FreeBalance w)(i := (FreeBalance w i)(from := FreeBalance w i from - amount))\<rparr>)"
    (is "supply_ok ?w'")
proof (rule supply_ok_change [OF ok, of _ i])
  let ?w2 = "w\<lparr>FreeBalance := (FreeBalance w)(i := (FreeBalance w i)(from := FreeBalance w i from - amount))\<rparr>"
  have "total_held ?w2 i + unat (FreeBalance w i from) = total_held w i + unat (FreeBalance w i from - amount)"
    by (rule total_held_upd_free)
  moreover have "amount \<le> TotalIssuance w i"
    using fits free_le_issuance [OF ok, of i "from"] by simp
  moreover have "total_held ?w' i = total_held ?w2 i"
    by (rule total_held_cong) simp_all
  ultimately show "total_held ?w' i = unat (TotalIssuance ?w' i)"
    using fits supply_okD(1) [OF ok, of i] by (simp add: unat_minus word_le_nat_alt)
qed (use ex in auto)

lemma mint_free_keeps_supply [supply_effects]: "effects keeps_supply (mint_free i who to amount)"
  by (rule effectsI) (auto simp: mint_free_apply checked_add_def supply_ok_credit split: if_splits)

lemma burn_free_keeps_supply [supply_effects]: "effects keeps_supply (burn_free i who to amount)"
  by (rule effectsI) (auto simp: burn_free_apply supply_ok_debit split: if_splits)

lemma total_held_upd_reserved:
  "total_held (w\<lparr>ReservedBalance := (ReservedBalance w)(i := (ReservedBalance w i)(a := b))\<rparr>) i
     + unat (ReservedBalance w i a) = total_held w i + unat b"
proof -
  have "holding (w\<lparr>ReservedBalance := (ReservedBalance w)(i := (ReservedBalance w i)(a := b))\<rparr>) i
    = (holding w i)(a := unat (FreeBalance w i a) + unat b)"
    by (auto simp: holding_def fun_eq_iff)
  moreover have "sum ((holding w i)(a := unat (FreeBalance w i a) + unat b)) UNIV + holding w i a
    = sum (holding w i) UNIV + (unat (FreeBalance w i a) + unat b)"
    by (rule sum_update)
  ultimately show ?thesis
    by (simp add: total_held_def) (simp add: holding_def)
qed

text \<open>Moving an amount between the free and the reserved balance of one account.\<close>

lemma total_held_swap:
  assumes "unat f + unat r = unat (FreeBalance w i a) + unat (ReservedBalance w i a)"
  shows "total_held (w\<lparr>FreeBalance := (FreeBalance w)(i := (FreeBalance w i)(a := f)),
      ReservedBalance := (ReservedBalance w)(i := (ReservedBalance w i)(a := r))\<rparr>) i = total_held w i"
  using total_held_upd_free [of w i a f] assms
    total_held_upd_reserved [of "w\<lparr>FreeBalance := (FreeBalance w)(i := (FreeBalance w i)(a := f))\<rparr>" i a r]
  by simp

lemma supply_ok_swap:
  assumes ok: "supply_ok w"
    and eq: "unat f + unat r = unat (FreeBalance w i a) + unat (ReservedBalance w i a)"
  shows "supply_ok (w\<lparr>FreeBalance := (FreeBalance w)(i := (FreeBalance w i)(a := f)),
      ReservedBalance := (ReservedBalance w)(i := (ReservedBalance w i)(a := r))\<rparr>)"
  by (rule supply_ok_change [OF ok, of _ i])
    (auto simp: total_held_swap [OF eq] supply_okD [OF ok])

lemma reserve_keeps_supply [supply_effects]: "effects keeps_supply (reserve i who amount)"
proof (rule effectsI, rule impI)
  fix w w' :: "'p world"
  assume "final (reserve i who amount w) = Some w'" and ok: "supply_ok w"
  then show "supply_ok w'"
    using supply_ok_swap [OF ok, of "FreeBalance w i who - amount" "ReservedBalance w i who + amount" i who]
      reserve_no_wrap [OF ok, of amount i who]
    by (auto simp: reserve_apply unat_minus word_le_nat_alt not_less split: if_splits)
qed

lemma unreserve_keeps_supply [supply_effects]: "effects keeps_supply (unreserve i who amount)"
proof (rule effectsI, rule impI)
  fix w w' :: "'p world"
  assume run: "final (unreserve i who amount w) = Some w'" and ok: "supply_ok w"
  let ?x = "min (ReservedBalance w i who) amount"
  have "?x \<le> ReservedBalance w i who" by simp
  from supply_ok_swap [OF ok, of "FreeBalance w i who + ?x" "ReservedBalance w i who - ?x" i who]
    unreserve_no_wrap [OF ok this] unat_minus [OF this] this run
  show "supply_ok w'"
    by (simp add: unreserve_apply word_le_nat_alt)
qed

lemma create_asset_keeps_supply [supply_effects]: "effects keeps_supply (create_asset i symbol fa options)"
proof (rule effectsI, rule impI)
  fix w w' :: "'p world"
  assume run: "final (create_asset i symbol fa options w) = Some w'" and ok: "supply_ok w"
  show "supply_ok w'"
  proof (cases "Symbols w i = None")
    case True
    define account where "account = (case fa of Some a \<Rightarrow> a | None \<Rightarrow> 0)"
    let ?w1 = "w\<lparr>FreeBalance := (FreeBalance w)(i := (FreeBalance w i)(account := initial_issuance options))\<rparr>"
    have "total_held ?w1 i + unat (FreeBalance w i account) = total_held w i + unat (initial_issuance options)"
      by (rule total_held_upd_free)
    then have held: "total_held ?w1 i = unat (initial_issuance options)"
      using never_created_no_balance [OF ok True] by (simp add: supply_okD [OF ok] True)
    have w': "w' = w\<lparr>TotalIssuance := (TotalIssuance w)(i := initial_issuance options),
        FreeBalance := (FreeBalance w)(i := (FreeBalance w i)(account := initial_issuance options)),
        Permissions := (Permissions w)(i := into_versions (permissions options)),
        Symbols := (Symbols w)(i \<mapsto> symbol),
        AssetsEvents := AssetsEvents w @ [Created i account options]\<rparr>"
      using run True by (simp add: create_asset_apply account_def [symmetric])
    show ?thesis
    proof (rule supply_ok_change [OF ok, of _ i])
      show "total_held w' i = unat (TotalIssuance w' i)"
        using held total_held_cong [of w' i ?w1] by (simp add: w')
    qed (auto simp: w' split: if_splits)
  qed (use run ok in \<open>auto simp: create_asset_apply\<close>)
qed

lemma update_keeps_supply [supply_effects]:
  "effects keeps_supply (update_permission og i np)"
  "effects keeps_supply (update_restriction og i r b)"
  by (auto intro!: effectsI simp: update_permission_def update_restriction_def assets_eqs op_defs
      split: if_splits)

lemma root_calls_keep_supply [supply_effects]:
  "effects keeps_supply (create og b i symb)"
  "effects keeps_supply (set_reserve og i who amount)"
  "effects keeps_supply (set_unreserve og i who amount)"
  unfolding create_def set_reserve_def set_unreserve_def
  by (intro kept.effects_intros supply_effects)+

section \<open>Calls with hooks\<close>

text \<open>Taking from one free balance and then adding to another is a move.\<close>

lemma debit_credit_moved:
  "(w\<lparr>FreeBalance := (FreeBalance w)(i := (FreeBalance w i)(a := FreeBalance w i a - x))\<rparr>)
     \<lparr>FreeBalance := (FreeBalance w)(i := ((FreeBalance w i)(a := FreeBalance w i a - x))
        (b := ((FreeBalance w i)(a := FreeBalance w i a - x)) b + x))\<rparr> = moved w i a b x"
  by (auto simp: moved_def)

text \<open>
  The interface between the pallet and the pallets that listen to it: what a preorder of
  storages must satisfy for the internal operations and for each hook carries over to the
  calls that run them.
\<close>

locale hooked = effect_order R for R :: "'p world \<Rightarrow> 'p world \<Rightarrow> bool" +
  fixes hk :: "'p hooks"
  assumes moves: "effects R (make_transfer_with_event i from to amount)"
    and mints: "effects R (mint_free i who to amount)"
    and burns: "effects R (burn_free i who to amount)"
    and logs: "effects R (deposit_event e)"
    and before_transfers: "effects R (before_asset_transfer hk i from to amount)"
    and on_transfers: "effects R (on_asset_transfer hk i from to amount)"
    and before_mints: "effects R (before_asset_mint hk i to amount)"
    and on_mints: "effects R (on_asset_mint hk i to amount)"
    and before_burns: "effects R (before_asset_burn hk i to amount)"
    and on_burns: "effects R (on_asset_burn hk i to amount)"
begin

lemmas hook_effects = effects_intros moves mints burns logs before_transfers on_transfers
  before_mints on_mints before_burns on_burns

lemma transfer_effects: "effects R (transfer hk og i to amount)"
  unfolding transfer_def by (intro hook_effects)

lemma mint_effects: "effects R (mint hk og i to amount)"
  unfolding mint_def by (intro hook_effects)

lemma burn_effects: "effects R (burn hk og i to amount)"
  unfolding burn_def by (intro hook_effects)

end

interpretation unit_kept: hooked "keeps_supply :: 'p world \<Rightarrow> 'p world \<Rightarrow> bool" unit_hooks
  by unfold_locales (simp_all add: supply_effects unit_hooks_def kept.effects_return)

named_theorems frame_effects \<open>operations that leave the client's storage alone\<close>

lemma internal_keeps_pallet [frame_effects]:
  "effects keeps_pallet (make_transfer i from to amount)"
  "effects keeps_pallet (mint_free i who to amount)"
  "effects keeps_pallet (burn_free i who to amount)"
  "effects keeps_pallet (deposit_event e)"
  by (auto intro!: effectsI simp: assets_eqs split: if_splits)

lemma make_transfer_with_event_keeps_pallet [frame_effects]:
  "effects keeps_pallet (make_transfer_with_event i from to amount)"
  unfolding make_transfer_with_event_def by (intro framed.effects_intros frame_effects)

interpretation unit_framed: hooked "keeps_pallet :: 'p world \<Rightarrow> 'p world \<Rightarrow> bool" unit_hooks
  by unfold_locales (simp_all add: frame_effects unit_hooks_def framed.effects_return)

section \<open>Genesis establishes the invariant\<close>

lemma supply_ok_genesis: "supply_ok (genesis_world key p)"
  by (simp add: supply_ok_def genesis_world_def total_held_def holding_def)

lemma endow_run:
  assumes "distinct (map fst es)" and "\<And>a. a \<in> fst ` set es \<Longrightarrow> FreeBalance w i a = 0"
  shows "\<exists>f. for_each es (\<lambda>(account, bal). set_free_balance i account bal) w
      = Ok () (w\<lparr>FreeBalance := (FreeBalance w)(i := f)\<rparr>) \<and>
    total_held (w\<lparr>FreeBalance := (FreeBalance w)(i := f)\<rparr>) i
      = total_held w i + sum_list (map (unat \<circ> snd) es)"
  using assms
proof (induction es arbitrary: w)
  case Nil
  then show ?case
    by (intro exI [of _ "FreeBalance w i"]) simp
next
  case (Cons e es)
  obtain a b where e: "e = (a, b)" by (cases e)
  let ?w = "w\<lparr>FreeBalance := (FreeBalance w)(i := (FreeBalance w i)(a := b))\<rparr>"
  have "distinct (map fst es)" and "\<And>x. x \<in> fst ` set es \<Longrightarrow> FreeBalance ?w i x = 0"
    using Cons.prems e by (auto simp: image_iff)
  from Cons.IH [OF this] obtain f where f:
    "for_each es (\<lambda>(account, bal). set_free_balance i account bal) ?w
       = Ok () (?w\<lparr>FreeBalance := (FreeBalance ?w)(i := f)\<rparr>)"
    "total_held (?w\<lparr>FreeBalance := (FreeBalance ?w)(i := f)\<rparr>) i
       = total_held ?w i + sum_list (map (unat \<circ> snd) es)" by blast
  moreover have "total_held ?w i = total_held w i + unat b"
    using total_held_upd_free [of w i a b] Cons.prems(2) [of a] e by simp
  moreover have "set_free_balance i a b w = Ok () ?w"
    by (rule set_free_balance_apply)
  ultimately show ?case
    by (intro exI [of _ f]) (simp add: e comp_apply [of unat snd "(a, b)"] del: comp_apply fun_upd_apply)
qed

lemma restrict_run:
  "\<exists>r. for_each rs (\<lambda>forbidden. expect (update_restriction Root i forbidden True)) w
     = Ok () (w\<lparr>Restrictions := r\<rparr>)"
proof (induction rs arbitrary: w)
  case Nil
  show ?case by (intro exI [of _ "Restrictions w"]) simp
next
  case (Cons x rs)
  let ?w = "w\<lparr>Restrictions := (Restrictions w)(i := (Restrictions w i)(x \<mapsto> ()))\<rparr>"
  have "expect (update_restriction Root i x True) w = Ok () ?w"
    by (simp add: update_restriction_def op_defs)
  with Cons.IH [of ?w] show ?case by auto
qed

lemma foldl_sum_wrap:
  "sum_list (map (unat \<circ> snd) es) + unat (x :: u128) < 2 ^ 128 \<Longrightarrow>
   unat (foldl (\<lambda>sum val. sum + snd val) x es) = sum_list (map (unat \<circ> snd) es) + unat x"
proof (induction es arbitrary: x)
  case (Cons e es)
  have "unat (x + snd e) = unat x + unat (snd e)"
    using Cons.prems by (intro unat_plus) simp
  with Cons.IH [of "x + snd e"] Cons.prems show ?case by simp
qed simp

lemma build_symbol_run:
  assumes ok: "supply_ok w" and new: "Symbols w i = None"
    and dist: "distinct (map fst endowed)"
    and fits: "sum_list (map (unat \<circ> snd) endowed) < 2 ^ 128"
  shows "\<exists>w'. build_symbol root (i, symb, rs, endowed) w = Ok () w' \<and> supply_ok w' \<and>
    Symbols w' = (Symbols w)(i \<mapsto> symb)"
proof -
  let ?opts = "\<lparr>initial_issuance = 0, permissions = \<lparr>perm_update = Address root,
      perm_mint = Address root, perm_burn = Address root\<rparr>\<rparr>"
  obtain w1 where w1: "create_asset i symb None ?opts w = Ok () w1" "Symbols w1 = (Symbols w)(i \<mapsto> symb)"
    "\<And>a. FreeBalance w1 i a = 0" "TotalIssuance w1 i = 0"
    using never_created_no_balance [OF ok new] by (simp add: create_asset_apply new)
  have ok1: "supply_ok w1"
    using effects_Ok [OF create_asset_keeps_supply w1(1)] ok by simp
  obtain r where r: "for_each rs (\<lambda>forbidden. expect (update_restriction Root i forbidden True)) w1
     = Ok () (w1\<lparr>Restrictions := r\<rparr>)" using restrict_run by blast
  let ?w2 = "w1\<lparr>Restrictions := r\<rparr>"
  have ok2: "supply_ok ?w2" by (rule supply_ok_cong [OF ok1]) simp_all
  obtain f where f: "for_each endowed (\<lambda>(account, bal). set_free_balance i account bal) ?w2
      = Ok () (?w2\<lparr>FreeBalance := (FreeBalance ?w2)(i := f)\<rparr>)"
    "total_held (?w2\<lparr>FreeBalance := (FreeBalance ?w2)(i := f)\<rparr>) i
      = total_held ?w2 i + sum_list (map (unat \<circ> snd) endowed)"
    using endow_run [OF dist, of ?w2 i] w1(3) by auto
  let ?t = "foldl (\<lambda>sum val. sum + snd val) 0 endowed"
  let ?w3 = "?w2\<lparr>FreeBalance := (FreeBalance ?w2)(i := f)\<rparr>"
  let ?w4 = "?w3\<lparr>TotalIssuance := (TotalIssuance ?w3)(i := ?t)\<rparr>"
  have run: "build_symbol root (i, symb, rs, endowed) w = Ok () ?w4"
    using w1(1) r f(1) by (simp add: build_symbol_def expect_apply set_total_issuance_apply)
  have "total_held ?w4 i = unat ?t"
    using f(2) foldl_sum_wrap [of endowed 0] fits w1(4) supply_okD(1) [OF ok2, of i] by simp
  then have "supply_ok ?w4"
    by (intro supply_ok_change [OF ok2, of _ i]) (auto simp: w1(2) split: if_splits)
  with run w1(2) show ?thesis by auto
qed

lemma build_run:
  assumes "supply_ok w" and "distinct (map fst symbols)"
    and "\<And>c. c \<in> set symbols \<Longrightarrow> Symbols w (fst c) = None \<and>
      distinct (map fst (snd (snd (snd c)))) \<and> sum_list (map (unat \<circ> snd) (snd (snd (snd c)))) < 2 ^ 128"
  shows "\<exists>w'. build root symbols w = Ok () w' \<and> supply_ok w'"
  using assms
proof (induction symbols arbitrary: w)
  case Nil
  then show ?case by (simp add: build_def)
next
  case (Cons c cs)
  obtain i symb rs endowed where c: "c = (i, symb, rs, endowed)" by (cases c)
  from Cons.prems(3) [of c] c have pre: "Symbols w i = None" "distinct (map fst endowed)"
    "sum_list (map (unat \<circ> snd) endowed) < 2 ^ 128" by (simp_all add: comp_def)
  from build_symbol_run [OF Cons.prems(1) pre, of root symb rs] obtain w1 where
    w1: "build_symbol root c w = Ok () w1" "supply_ok w1" "Symbols w1 = (Symbols w)(i \<mapsto> symb)"
    unfolding c by blast
  have "\<exists>w'. build root cs w1 = Ok () w' \<and> supply_ok w'"
  proof (rule Cons.IH [OF w1(2)])
    show "distinct (map fst cs)" using Cons.prems(2) by simp
    fix d assume d: "d \<in> set cs"
    with Cons.prems(2) c have "fst d \<noteq> i" by auto
    with Cons.prems(3) [of d] d w1(3)
    show "Symbols w1 (fst d) = None \<and> distinct (map fst (snd (snd (snd d)))) \<and>
        sum_list (map (unat \<circ> snd) (snd (snd (snd d)))) < 2 ^ 128" by (simp add: comp_def)
  qed
  with w1(1) show ?case by (simp add: build_def)
qed

lemma dispatch_assets_supply: "effects keeps_supply (dispatch_assets unit_hooks og c)"
  by (cases c) (simp_all add: supply_effects unit_kept.transfer_effects unit_kept.mint_effects
      unit_kept.burn_effects)

lemma root_calls_keep_pallet:
  "effects keeps_pallet (create og b i symb)"
  "effects keeps_pallet (update_permission og i np)"
  "effects keeps_pallet (update_restriction og i r b')"
  "effects keeps_pallet (set_reserve og i who x)"
  "effects keeps_pallet (set_unreserve og i who x)"
  by (auto intro!: effectsI simp: create_def update_permission_def update_restriction_def set_reserve_def set_unreserve_def
      assets_eqs and_then_apply Let_def split: if_splits)

lemma dispatch_assets_keeps_pallet: "effects keeps_pallet (dispatch_assets unit_hooks og c)"
  by (cases c) (simp_all add: root_calls_keep_pallet unit_framed.transfer_effects unit_framed.mint_effects
      unit_framed.burn_effects)

text \<open>
  Only a transfer the account signs itself, and a burn or a reserve that names it, lower what the
  account has free.
\<close>

lemma word_le_add: "unat x + unat y < 2 ^ 128 \<Longrightarrow> x \<le> x + (y :: balance)"
  by (simp add: word_le_nat_alt unat_plus)

lemma free_moved_spared:
  assumes ok: "supply_ok w" and funds: "x \<le> FreeBalance w i from" and "a \<noteq> from"
  shows "FreeBalance w i a \<le> FreeBalance (moved w i from to x) i a"
  using free_moved(1,3) [OF ok funds] assms(3) by (cases "a = to") (auto simp: word_le_nat_alt)

lemma dispatch_assets_spares:
  assumes ok: "supply_ok w" and run: "final (dispatch_assets unit_hooks og c w) = Some w'"
    and spared: "\<not> takes_from a i og c"
  shows "FreeBalance w i a \<le> FreeBalance w' i a"
proof (cases c)
  case (CallTransfer j to x)
  then have "w' = w \<or> (\<exists>who. og = Signed who \<and> x \<le> FreeBalance w j who \<and> FreeBalance w' = FreeBalance (moved w j who to x))"
    using run by (auto simp: transfer_def unit_hooks_def make_transfer_with_event_sent unwrap_or_default_apply not_less
        and_then_apply split: origin.splits if_splits)
  with spared CallTransfer show ?thesis
    by (cases "i = j") (auto intro!: free_moved_spared [OF ok])
next
  case (CallMint j to x)
  then have "FreeBalance w' = FreeBalance w \<or> unat (FreeBalance w j to) + unat x < 2 ^ 128 \<and>
      FreeBalance w' = (FreeBalance w)(j := (FreeBalance w j)(to := FreeBalance w j to + x))"
    using run by (auto simp: mint_def unit_hooks_def mint_free_apply deposit_event_apply checked_add_def
        unwrap_or_default_apply and_then_apply split: origin.splits if_splits)
  then show ?thesis using word_le_add by auto
next
  case (CallSetUnreserve j who x)
  let ?m = "min (ReservedBalance w j who) x"
  from CallSetUnreserve have "FreeBalance w' = FreeBalance w \<or>
      FreeBalance w' = (FreeBalance w)(j := (FreeBalance w j)(who := FreeBalance w j who + ?m))"
    using run by (auto simp: set_unreserve_def unreserve_apply and_then_apply split: origin.splits if_splits)
  moreover have "unat (FreeBalance w j who) + unat ?m \<le> unat (TotalIssuance w j)"
    using free_le_held [of w j who] by (auto simp: supply_okD [OF ok] min_def word_le_nat_alt)
  then have "FreeBalance w j who \<le> FreeBalance w j who + ?m"
    using unat_bound [of "TotalIssuance w j"] by (intro word_le_add) simp
  ultimately show ?thesis by auto
qed (use run spared never_created_no_balance [OF ok] in
    \<open>auto simp: create_def create_asset_apply burn_def unit_hooks_def burn_free_apply set_reserve_def reserve_apply
      update_permission_def update_restriction_def deposit_event_apply unwrap_or_default_apply and_then_apply Let_def
      split: origin.splits if_splits\<close>)

section \<open>Codec of the permissions\<close>

lemma decode_encode_versions:
  assumes "\<And>n r. dec_number (enc_number n @ r) = Some (n, r)" and "\<And>p r. dec_v1 (enc_v1 p @ r) = Some (p, r)"
  shows "decode_versions dec_number dec_v1 (encode_versions enc_number enc_v1 v @ r) = Some (v, r)"
  by (cases v) (simp add: decode_versions_def assms)

section \<open>Mints and burns by the root origin\<close>

lemma check_permission_frame [simp]:
  "check_permission (w\<lparr>TotalIssuance := x1\<rparr>) i who what = check_permission w i who what"
  "check_permission (w\<lparr>FreeBalance := x2\<rparr>) i who what = check_permission w i who what"
  "check_permission (w\<lparr>AssetsEvents := x3\<rparr>) i who what = check_permission w i who what"
  "check_permission (w\<lparr>pallet := x4\<rparr>) i who what = check_permission w i who what"
  "check_permission (moved w j a b x) i who what = check_permission w i who what"
  "check_permission (sent w j a b x) i who what = check_permission w i who what"
  by (simp_all add: check_permission_def)

lemma minted_simps [simp]:
  "TotalIssuance (minted w i to x) = (TotalIssuance w)(i := TotalIssuance w i + x)"
  "FreeBalance (minted w i to x) = (FreeBalance w)(i := (FreeBalance w i)(to := FreeBalance w i to + x))"
  "Permissions (minted w i to x) = Permissions w" "Restrictions (minted w i to x) = Restrictions w"
  "Symbols (minted w i to x) = Symbols w" "RootKey (minted w i to x) = RootKey w" "pallet (minted w i to x) = pallet w"
  "check_permission (minted w i to x) j who what = check_permission w j who what"
  by (simp_all add: minted_def)

lemma burnt_simps [simp]:
  "TotalIssuance (burnt w i who x) = (TotalIssuance w)(i := TotalIssuance w i - x)"
  "FreeBalance (burnt w i who x) = (FreeBalance w)(i := (FreeBalance w i)(who := FreeBalance w i who - x))"
  "Permissions (burnt w i who x) = Permissions w" "Restrictions (burnt w i who x) = Restrictions w"
  "Symbols (burnt w i who x) = Symbols w" "RootKey (burnt w i who x) = RootKey w" "pallet (burnt w i who x) = pallet w"
  "check_permission (burnt w i who x) j a what = check_permission w j a what"
  by (simp_all add: burnt_def)

lemma mint_room: "supply_ok w \<Longrightarrow> unat (TotalIssuance w i) + unat x < 2 ^ 128 \<Longrightarrow> unat (FreeBalance w i to) + unat x < 2 ^ 128"
  using free_le_issuance [of w i to] by (simp add: word_le_nat_alt)

lemma supply_ok_minted:
  assumes "supply_ok w" and "Symbols w i \<noteq> None" and "unat (TotalIssuance w i) + unat x < 2 ^ 128"
  shows "supply_ok (minted w i to x)"
  using supply_ok_credit [OF assms, of to] by (simp add: minted_def)

lemma supply_ok_burnt:
  assumes "supply_ok w" and "Symbols w i \<noteq> None" and "x \<le> FreeBalance w i who"
  shows "supply_ok (burnt w i who x)"
  using supply_ok_debit [OF assms] by (simp add: burnt_def)

lemma mint_run:
  assumes "Symbols w i \<noteq> None" and "check_permission w i (RootKey w) Mint"
    and "unat (TotalIssuance w i) + unat x < 2 ^ 128" and "unat (FreeBalance w i to) + unat x < 2 ^ 128"
  shows "mint unit_hooks Root i to x w = Ok () (minted w i to x)"
  using assms
  by (simp add: mint_def unit_hooks_def mint_free_apply checked_add_def deposit_event_apply unwrap_or_default_apply minted_def)

lemma burn_run:
  assumes ok: "supply_ok w" and "Symbols w i \<noteq> None" and "check_permission w i (RootKey w) Burn"
    and "x \<le> FreeBalance w i who"
  shows "burn unit_hooks Root i who x w = Ok () (burnt w i who x)"
proof -
  have "x \<le> TotalIssuance w i" using assms(4) free_le_issuance [OF ok, of i who] by simp
  with assms show ?thesis
    by (simp add: burn_def unit_hooks_def burn_free_apply deposit_event_apply unwrap_or_default_apply not_less burnt_def)
qed

section \<open>A concrete storage\<close>

text \<open>
  Account 1 holds the whole issuance of the listed assets, all under the authority of the sudo
  key 7. The storage on which the properties are evaluated.
\<close>

definition demo_world :: "(asset_id \<times> balance) list \<Rightarrow> 'p \<Rightarrow> 'p world" where
  "demo_world xs p =
     (let issued = (\<lambda>i. case map_of xs i of Some b \<Rightarrow> b | None \<Rightarrow> 0)
      in (genesis_world 7 p)
        \<lparr>TotalIssuance := issued,
         FreeBalance := (\<lambda>i a. if a = 1 then issued i else 0),
         Permissions := (\<lambda>_. V1 \<lparr>perm_update = Address 7, perm_mint = Address 7, perm_burn = Address 7\<rparr>),
         Symbols := (\<lambda>i. map_option (\<lambda>_. [83]) (map_of xs i))\<rparr>)"

lemma demo_world_simps [simp]:
  "TotalIssuance (demo_world xs p) i = (case map_of xs i of Some b \<Rightarrow> b | None \<Rightarrow> 0)"
  "FreeBalance (demo_world xs p) i a = (if a = 1 then case map_of xs i of Some b \<Rightarrow> b | None \<Rightarrow> 0 else 0)"
  "ReservedBalance (demo_world xs p) i a = 0"
  "Symbols (demo_world xs p) i = map_option (\<lambda>_. [83]) (map_of xs i)"
  "Restrictions (demo_world xs p) i r = None"
  "check_permission (demo_world xs p) i a what = (a = 7)"
  "RootKey (demo_world xs p) = 7"
  "Timestamp (demo_world xs p) = 0"
  "BlockNumber (demo_world xs p) = 0"
  "ExtrinsicIndex (demo_world xs p) = None"
  "pallet (demo_world xs p) = p"
  by (cases what; auto simp: demo_world_def genesis_world_def Let_def check_permission_def)+

lemma supply_ok_demo: "supply_ok (demo_world xs p)"
proof (rule supply_okI)
  fix i
  have "holding (demo_world xs p) i = (\<lambda>_. 0)(1 := unat (TotalIssuance (demo_world xs p) i))"
    by (auto simp: holding_def)
  then show "total_held (demo_world xs p) i = unat (TotalIssuance (demo_world xs p) i)"
    using sum_update [of "\<lambda>_. 0" "1 :: account_id" "unat (TotalIssuance (demo_world xs p) i)"]
    by (simp add: total_held_def)
qed (auto split: option.splits)

section \<open>Properties\<close>

text \<open>C3: every dispatchable call of the assets pallet, whoever signs it and whether it succeeds
  or fails, keeps the total issuance of every asset equal to the sum of all free and reserved
  balances of that asset.\<close>

theorem assets_calls_keep_supply:
  assumes "supply_ok w" and "final (dispatch_assets unit_hooks og c w) = Some w'"
  shows "supply_ok w'"
  using effectsD [OF dispatch_assets_supply assms(2)] assms(1) by simp

theorem assets_calls_keep_supply_witness:
  "\<exists>w'. final (dispatch_assets unit_hooks Root (CallCreate 100 5 [83]) (genesis_world 7 ())) = Some w' \<and>
     TotalIssuance w' 5 = 100 \<and> supply_ok w'"
proof -
  let ?w = "genesis_world 7 ()"
  obtain w' where w': "final (dispatch_assets unit_hooks Root (CallCreate 100 5 [83]) ?w) = Some w'"
    and ti: "TotalIssuance w' 5 = 100"
    by (simp add: create_def create_asset_apply genesis_world_def Let_def)
  from assets_calls_keep_supply [OF supply_ok_genesis w'] w' ti show ?thesis by blast
qed

text \<open>C8: a signed transfer fails without any change when the asset does not exist, the sender
  lacks the amount or transfers of the asset are restricted; otherwise it takes exactly the
  amount from the sender and gives exactly the amount to the receiver, without wrap-around, and
  touches no other balance, no issuance and no permission.\<close>

theorem transfer_exact:
  assumes ok: "supply_ok w"
  shows "if Symbols w i = None \<or> FreeBalance w i who < x \<or> Restrictions w i Transferable \<noteq> None
    then \<exists>e. transfer unit_hooks (Signed who) i to x w = Err (Msg e) w
    else \<exists>w'. transfer unit_hooks (Signed who) i to x w = Ok () w' \<and>
      (who \<noteq> to \<longrightarrow> unat (FreeBalance w' i who) + unat x = unat (FreeBalance w i who) \<and>
         unat (FreeBalance w' i to) = unat (FreeBalance w i to) + unat x) \<and>
      (who = to \<longrightarrow> w' = w) \<and>
      (\<forall>j a. (j \<noteq> i \<or> a \<noteq> who \<and> a \<noteq> to) \<longrightarrow> FreeBalance w' j a = FreeBalance w j a) \<and>
      TotalIssuance w' = TotalIssuance w \<and> ReservedBalance w' = ReservedBalance w \<and>
      Permissions w' = Permissions w"
proof (cases "Symbols w i = None \<or> FreeBalance w i who < x \<or> Restrictions w i Transferable \<noteq> None")
  case True
  then show ?thesis
    by (auto simp: transfer_def unit_hooks_def make_transfer_with_event_sent and_then_apply)
next
  case False
  then have funds: "x \<le> FreeBalance w i who" by (simp add: not_less)
  from False have "transfer unit_hooks (Signed who) i to x w = Ok () (sent w i who to x)"
    by (auto simp: transfer_def unit_hooks_def make_transfer_with_event_sent unwrap_or_default_apply)
  moreover have "who = to \<longrightarrow> sent w i who to x = w" by (simp add: sent_def)
  moreover have "j \<noteq> i \<or> a \<noteq> who \<and> a \<noteq> to \<Longrightarrow> FreeBalance (moved w i who to x) j a = FreeBalance w j a" for j a
    by (auto simp: moved_def)
  ultimately show ?thesis
    using False funds free_moved(1,2) [OF ok funds, of to] by (auto simp: word_le_nat_alt)
qed

theorem transfer_exact_witness:
  "\<exists>w'. transfer unit_hooks (Signed 1) 5 9 40 (demo_world [(5, 100)] ()) = Ok () w' \<and>
     unat (FreeBalance w' 5 9) = 40 \<and> unat (FreeBalance w' 5 1) = 60"
  using transfer_exact [OF supply_ok_demo, of "[(5, 100)]" "()" 5 1 40 9] by auto

text \<open>C33: reserving an amount that the account has free, and then releasing the same amount,
  succeeds and restores the storage exactly.\<close>

theorem reserve_unreserve_roundtrip:
  assumes ok: "supply_ok w" and funds: "x \<le> FreeBalance w i who"
  shows "\<exists>w1. reserve i who x w = Ok () w1 \<and> unreserve i who x w1 = Ok 0 w"
proof -
  let ?w1 = "w\<lparr>FreeBalance := (FreeBalance w)(i := (FreeBalance w i)(who := FreeBalance w i who - x)),
    ReservedBalance := (ReservedBalance w)(i := (ReservedBalance w i)(who := ReservedBalance w i who + x))\<rparr>"
  have "x \<le> ReservedBalance w i who + x"
    using reserve_no_wrap [OF ok funds] by (simp add: word_le_nat_alt)
  then have "min (ReservedBalance w i who + x) x = x" by (simp add: min_def)
  then have "unreserve i who x ?w1 = Ok 0 w"
    by (simp add: unreserve_apply)
  moreover have "reserve i who x w = Ok () ?w1"
    using funds by (simp add: reserve_apply not_less)
  ultimately show ?thesis by blast
qed

theorem reserve_unreserve_roundtrip_witness:
  "\<exists>w1. reserve 5 1 60 (demo_world [(5, 100)] ()) = Ok () w1 \<and>
     unreserve 5 1 60 w1 = Ok 0 (demo_world [(5, 100)] ())"
  by (rule reserve_unreserve_roundtrip [OF supply_ok_demo]) simp

text \<open>C10: the genesis build of a configuration with distinct asset identifiers, distinct endowed
  accounts per asset and endowments that fit the balance type succeeds without panic from the
  empty storage, and every state reached is one where issuance equals the sum of the holdings.\<close>

theorem build_establishes_supply:
  assumes "distinct (map fst symbols)"
    and "\<forall>(i, symb, rs, endowed) \<in> set symbols. distinct (map fst endowed) \<and>
      sum_list (map (unat \<circ> snd) endowed) < 2 ^ 128"
  shows "\<exists>w'. build root symbols (genesis_world root p) = Ok () w' \<and> supply_ok w'"
  by (rule build_run) (use assms in \<open>auto simp: supply_ok_genesis, simp add: genesis_world_def\<close>)

theorem build_establishes_supply_witness:
  "\<exists>w'. build 7 [(0, [82], [], [(1, 50), (2, 70)]), (1, [76], [Transferable], [(1, 30)])]
      (genesis_world 7 ()) = Ok () w' \<and> supply_ok w'"
  by (rule build_establishes_supply) simp_all

text \<open>C31: only the root origin can mint or burn, and only while the sudo key holds the permission
  of the asset; any other attempt is an error that leaves balances and issuance alone.\<close>

theorem mint_burn_authorised:
  assumes "og \<noteq> Root \<or> \<not> check_permission w i (RootKey w) what"
  shows "(what = Mint \<longrightarrow> (\<exists>e. mint unit_hooks og i to x w = Err e w)) \<and>
    (what = Burn \<longrightarrow> (\<exists>e. burn unit_hooks og i to x w = Err e w))"
  using assms
  by (auto simp: mint_def burn_def unit_hooks_def mint_free_apply burn_free_apply and_then_apply)

theorem mint_burn_authorised_witness:
  "(\<exists>e. mint unit_hooks (Signed 3) 5 3 10 (genesis_world 7 ()) = Err e (genesis_world 7 ())) \<and>
   (\<exists>e. burn unit_hooks Root 5 3 10 (genesis_world 7 ()) = Err e (genesis_world 7 ()))"
  using mint_burn_authorised [of "Signed 3" "genesis_world 7 ()" 5 Mint 3 10]
    mint_burn_authorised [of Root "genesis_world 7 ()" 5 Burn 3 10]
  by (simp add: check_permission_def genesis_world_def default_versions_def default_permissions_def)

end
