(* ===== verification/Currency.thy ===== *)
theory Currency
  imports Assets
begin

text \<open>
  The \<open>Currency\<close> view of one asset (\<^verbatim>\<open>modules/rio-assets/src/currency.rs\<close>) and the
  imbalances it hands out (\<^verbatim>\<open>imbalances.rs\<close>): values that stand for an amount created or
  destroyed without a counterpart and that settle the total issuance when they are dropped.
  The transfer between two assets, which rests on them, is here too.
\<close>

section \<open>Asset identifiers\<close>

definition RFUEL :: asset_id where "RFUEL = 0"

definition LOCKED_RFUEL :: asset_id where "LOCKED_RFUEL = 1"

definition SBTC :: asset_id where "SBTC = 10"

definition SUSDT :: asset_id where "SUSDT = 11"

definition SETH :: asset_id where "SETH = 12"

datatype AssetIdProvider = RFUELProvider | LockedRFUELProvider | FromAssetIdProvider | ToAssetIdProvider

fun provided_asset_id :: "AssetIdProvider \<Rightarrow> ('p world, asset_id) op" where
  "provided_asset_id RFUELProvider = return RFUEL"
| "provided_asset_id LockedRFUELProvider = return LOCKED_RFUEL"
| "provided_asset_id FromAssetIdProvider = reads FromId unwrap"
| "provided_asset_id ToAssetIdProvider = reads ToId unwrap"

definition from_to_context_new :: "asset_id \<Rightarrow> asset_id \<Rightarrow> ('p world, unit) op" where
  "from_to_context_new from to = modify (\<lambda>w. w\<lparr>FromId := Some from, ToId := Some to\<rparr>)"

definition from_to_context_drop :: "('p world, unit) op" where
  "from_to_context_drop = modify (\<lambda>w. w\<lparr>FromId := None, ToId := None\<rparr>)"

section \<open>Imbalances\<close>

datatype PositiveImbalance = PositiveImbalance (pos_peek: balance)

datatype NegativeImbalance = NegativeImbalance (neg_peek: balance)

datatype SignedImbalance = Positive PositiveImbalance | Negative NegativeImbalance

text \<open>Dropping an imbalance settles the total issuance, saturating at the bounds.\<close>

definition drop_positive :: "AssetIdProvider \<Rightarrow> PositiveImbalance \<Rightarrow> ('p world, unit) op" where
  "drop_positive u p =
     and_then (provided_asset_id u) (\<lambda>i.
     reads (\<lambda>w. TotalIssuance w i) (\<lambda>v. set_total_issuance i (saturating_add v (pos_peek p))))"

definition drop_negative :: "AssetIdProvider \<Rightarrow> NegativeImbalance \<Rightarrow> ('p world, unit) op" where
  "drop_negative u n =
     and_then (provided_asset_id u) (\<lambda>i.
     reads (\<lambda>w. TotalIssuance w i) (\<lambda>v. set_total_issuance i (saturating_sub v (neg_peek n))))"

definition zero_positive :: PositiveImbalance where
  "zero_positive = PositiveImbalance 0"

definition zero_negative :: NegativeImbalance where
  "zero_negative = NegativeImbalance 0"

definition drop_zero_positive ::
  "AssetIdProvider \<Rightarrow> PositiveImbalance \<Rightarrow> ('p world, PositiveImbalance + unit) op" where
  "drop_zero_positive u p =
     (if pos_peek p = 0 then and_then (drop_positive u p) (\<lambda>_. return (Inr ()))
      else return (Inl p))"

definition drop_zero_negative ::
  "AssetIdProvider \<Rightarrow> NegativeImbalance \<Rightarrow> ('p world, NegativeImbalance + unit) op" where
  "drop_zero_negative u n =
     (if neg_peek n = 0 then and_then (drop_negative u n) (\<lambda>_. return (Inr ()))
      else return (Inl n))"

definition try_drop_positive ::
  "AssetIdProvider \<Rightarrow> PositiveImbalance \<Rightarrow> ('p world, PositiveImbalance + unit) op" where
  "try_drop_positive u p = drop_zero_positive u p"

definition try_drop_negative ::
  "AssetIdProvider \<Rightarrow> NegativeImbalance \<Rightarrow> ('p world, NegativeImbalance + unit) op" where
  "try_drop_negative u n = drop_zero_negative u n"

definition split_positive :: "PositiveImbalance \<Rightarrow> balance \<Rightarrow> PositiveImbalance \<times> PositiveImbalance" where
  "split_positive p amount =
     (let first = min (pos_peek p) amount; second = pos_peek p - first
      in (PositiveImbalance first, PositiveImbalance second))"

definition split_negative :: "NegativeImbalance \<Rightarrow> balance \<Rightarrow> NegativeImbalance \<times> NegativeImbalance" where
  "split_negative n amount =
     (let first = min (neg_peek n) amount; second = neg_peek n - first
      in (NegativeImbalance first, NegativeImbalance second))"

definition merge_positive :: "PositiveImbalance \<Rightarrow> PositiveImbalance \<Rightarrow> PositiveImbalance" where
  "merge_positive p q = PositiveImbalance (saturating_add (pos_peek p) (pos_peek q))"

definition merge_negative :: "NegativeImbalance \<Rightarrow> NegativeImbalance \<Rightarrow> NegativeImbalance" where
  "merge_negative p q = NegativeImbalance (saturating_add (neg_peek p) (neg_peek q))"

definition subsume_positive :: "PositiveImbalance \<Rightarrow> PositiveImbalance \<Rightarrow> PositiveImbalance" where
  "subsume_positive p q = PositiveImbalance (saturating_add (pos_peek p) (pos_peek q))"

definition subsume_negative :: "NegativeImbalance \<Rightarrow> NegativeImbalance \<Rightarrow> NegativeImbalance" where
  "subsume_negative p q = NegativeImbalance (saturating_add (neg_peek p) (neg_peek q))"

definition offset_positive ::
  "PositiveImbalance \<Rightarrow> NegativeImbalance \<Rightarrow> NegativeImbalance + PositiveImbalance" where
  "offset_positive p n =
     (let a = pos_peek p; b = neg_peek n
      in if b \<le> a then Inr (PositiveImbalance (a - b)) else Inl (NegativeImbalance (b - a)))"

definition offset_negative ::
  "NegativeImbalance \<Rightarrow> PositiveImbalance \<Rightarrow> PositiveImbalance + NegativeImbalance" where
  "offset_negative n p =
     (let a = neg_peek n; b = pos_peek p
      in if b \<le> a then Inr (NegativeImbalance (a - b)) else Inl (PositiveImbalance (b - a)))"

section \<open>The currency of one asset\<close>

definition free_balance_currency :: "AssetIdProvider \<Rightarrow> account_id \<Rightarrow> ('p world, balance) op" where
  "free_balance_currency u who =
     and_then (provided_asset_id u) (\<lambda>i. reads (\<lambda>w. free_balance w i who) return)"

definition total_balance_currency :: "AssetIdProvider \<Rightarrow> account_id \<Rightarrow> ('p world, balance) op" where
  "total_balance_currency u who = free_balance_currency u who"

definition can_slash_currency :: "AssetIdProvider \<Rightarrow> account_id \<Rightarrow> balance \<Rightarrow> ('p world, bool) op" where
  "can_slash_currency u who amount =
     and_then (provided_asset_id u) (\<lambda>i. reads (\<lambda>w. free_balance w i who) (\<lambda>b. return (amount \<le> b)))"

definition total_issuance_currency :: "AssetIdProvider \<Rightarrow> ('p world, balance) op" where
  "total_issuance_currency u =
     and_then (provided_asset_id u) (\<lambda>i. reads (\<lambda>w. TotalIssuance w i) return)"

definition minimum_balance_currency :: balance where
  "minimum_balance_currency = 0"

text \<open>
  \<open>burn\<close> computes the reduced issuance in the closure given to \<open>mutate\<close> but does not assign
  it: the stored issuance is written back unchanged.
\<close>

definition burn_currency :: "AssetIdProvider \<Rightarrow> balance \<Rightarrow> ('p world, PositiveImbalance) op" where
  "burn_currency u amount =
     and_then (provided_asset_id u) (\<lambda>i.
     reads (\<lambda>w. TotalIssuance w i) (\<lambda>issued.
     and_then (set_total_issuance i issued) (\<lambda>_.
     return (PositiveImbalance (case checked_sub issued amount of Some _ \<Rightarrow> amount | None \<Rightarrow> issued)))))"

definition issue_currency :: "AssetIdProvider \<Rightarrow> balance \<Rightarrow> ('p world, NegativeImbalance) op" where
  "issue_currency u amount =
     and_then (provided_asset_id u) (\<lambda>i.
     reads (\<lambda>w. TotalIssuance w i) (\<lambda>issued.
     case checked_add issued amount of
       Some new_issued \<Rightarrow> and_then (set_total_issuance i new_issued) (\<lambda>_. return (NegativeImbalance amount))
     | None \<Rightarrow> and_then (set_total_issuance i max_value)
                 (\<lambda>_. return (NegativeImbalance (max_value - issued)))))"

definition ensure_can_withdraw_currency ::
  "AssetIdProvider \<Rightarrow> account_id \<Rightarrow> balance \<Rightarrow> WithdrawReason list \<Rightarrow> balance \<Rightarrow> ('p world, unit) op" where
  "ensure_can_withdraw_currency u who amount reasons new_balance =
     and_then (provided_asset_id u) (\<lambda>i. ensure_can_withdraw i who amount reasons new_balance)"

definition transfer_currency ::
  "AssetIdProvider \<Rightarrow> account_id \<Rightarrow> account_id \<Rightarrow> balance \<Rightarrow> ('p world, unit) op" where
  "transfer_currency u transactor dest amount =
     and_then (provided_asset_id u) (\<lambda>i. make_transfer i transactor dest amount)"

definition slash_currency ::
  "AssetIdProvider \<Rightarrow> account_id \<Rightarrow> balance \<Rightarrow> ('p world, NegativeImbalance \<times> balance) op" where
  "slash_currency u who amount = panic"

datatype UpdateBalanceOutcome = Updated | AccountKilled

definition make_free_balance_be ::
  "AssetIdProvider \<Rightarrow> account_id \<Rightarrow> balance \<Rightarrow> ('p world, SignedImbalance \<times> UpdateBalanceOutcome) op" where
  "make_free_balance_be u who bal =
     and_then (provided_asset_id u) (\<lambda>i.
     reads (\<lambda>w. free_balance w i who) (\<lambda>original.
     let imbalance = (if original \<le> bal then Positive (PositiveImbalance (bal - original))
                      else Negative (NegativeImbalance (original - bal)))
     in and_then (set_free_balance i who bal) (\<lambda>_. return (imbalance, Updated))))"

definition deposit_creating ::
  "AssetIdProvider \<Rightarrow> account_id \<Rightarrow> balance \<Rightarrow> ('p world, PositiveImbalance) op" where
  "deposit_creating u who amount =
     and_then (free_balance_currency u who) (\<lambda>b.
     and_then (make_free_balance_be u who (b + amount)) (\<lambda>(imbalance, _).
     case imbalance of
       Positive p \<Rightarrow> return p
     | Negative n \<Rightarrow> and_then (drop_negative u n) (\<lambda>_. return zero_positive)))"

definition deposit_into_existing ::
  "AssetIdProvider \<Rightarrow> account_id \<Rightarrow> balance \<Rightarrow> ('p world, PositiveImbalance) op" where
  "deposit_into_existing u who amount = deposit_creating u who amount"

definition withdraw_currency ::
  "AssetIdProvider \<Rightarrow> account_id \<Rightarrow> balance \<Rightarrow> WithdrawReason list \<Rightarrow> ('p world, NegativeImbalance) op" where
  "withdraw_currency u who amount reasons =
     and_then (free_balance_currency u who) (\<lambda>b.
     and_then (ok_or (checked_sub b amount) ''account has too few funds'') (\<lambda>new_balance.
     and_then (ensure_can_withdraw_currency u who amount reasons new_balance) (\<lambda>_.
     and_then (provided_asset_id u) (\<lambda>i.
     and_then (set_free_balance i who new_balance) (\<lambda>_.
     return (NegativeImbalance amount))))))"

text \<open>
  The transfer between assets of \<^verbatim>\<open>lib.rs\<close>. Both imbalances live until the end of the
  block and are dropped in the reverse order of their declaration: the positive one first. The
  context value is a unit, since \<open>FromToContext::new\<close> returns none, so its \<open>Drop\<close> never runs.
\<close>

definition make_transfer_between_assets ::
  "asset_id \<Rightarrow> account_id \<Rightarrow> asset_id \<Rightarrow> account_id \<Rightarrow> WithdrawReason list \<Rightarrow> balance \<Rightarrow>
   ('p world, unit) op" where
  "make_transfer_between_assets from_asset_id from to_asset_id to reasons amount =
     and_then (should_exist from_asset_id) (\<lambda>_.
     and_then (should_exist to_asset_id) (\<lambda>_.
     reads (\<lambda>w. free_balance w from_asset_id from) (\<lambda>from_balance.
     and_then (ok_or (checked_sub from_balance amount) ''balance too low to send amount'') (\<lambda>new_balance.
     reads (\<lambda>w. free_balance w to_asset_id to) (\<lambda>to_balance.
     and_then (ok_or (checked_add to_balance amount) ''balance too height to receive amount'') (\<lambda>_.
     and_then (ensure_can_withdraw from_asset_id from amount reasons new_balance) (\<lambda>_.
     if from \<noteq> to \<or> from_asset_id \<noteq> to_asset_id then
       and_then (from_to_context_new from_asset_id to_asset_id) (\<lambda>_.
       and_then (withdraw_currency FromAssetIdProvider from amount reasons) (\<lambda>nag.
       and_then (deposit_creating ToAssetIdProvider to amount) (\<lambda>pos.
       if neg_peek nag \<noteq> pos_peek pos then panic
       else steps [drop_positive ToAssetIdProvider pos, drop_negative FromAssetIdProvider nag])))
     else return ())))))))"

text \<open>The storage after a transfer between assets.\<close>

definition exchanged ::
  "'p world \<Rightarrow> asset_id \<Rightarrow> account_id \<Rightarrow> asset_id \<Rightarrow> account_id \<Rightarrow> balance \<Rightarrow> 'p world" where
  "exchanged w f from t to amount =
     (let fb = (FreeBalance w)(f := (FreeBalance w f)(from := FreeBalance w f from - amount));
          ti = (TotalIssuance w)(t := saturating_add (TotalIssuance w t) amount)
      in w\<lparr>TotalIssuance := ti(f := saturating_sub (ti f) amount),
           FreeBalance := fb(t := (fb t)(to := fb t to + amount)),
           FromId := Some f, ToId := Some t\<rparr>)"

section \<open>Behaviour\<close>

lemma drop_positive_apply [assets_eqs]:
  "provided_asset_id u w = Ok i w \<Longrightarrow>
   drop_positive u p w = Ok () (w\<lparr>TotalIssuance := (TotalIssuance w)(i := saturating_add (TotalIssuance w i) (pos_peek p))\<rparr>)"
  by (simp add: drop_positive_def assets_eqs)

lemma drop_negative_apply [assets_eqs]:
  "provided_asset_id u w = Ok i w \<Longrightarrow>
   drop_negative u n w = Ok () (w\<lparr>TotalIssuance := (TotalIssuance w)(i := saturating_sub (TotalIssuance w i) (neg_peek n))\<rparr>)"
  by (simp add: drop_negative_def assets_eqs)

lemma provided_asset_id_stable:
  "provided_asset_id u w = Ok i w \<Longrightarrow> FromId w' = FromId w \<Longrightarrow> ToId w' = ToId w \<Longrightarrow>
   provided_asset_id u w' = Ok i w'"
  by (cases u) (auto split: option.splits)

lemma deposit_creating_apply [assets_eqs]:
  assumes "provided_asset_id u w = Ok i w"
    and "unat (FreeBalance w i who) + unat amount < 2 ^ 128"
  shows "deposit_creating u who amount w = Ok (PositiveImbalance amount)
     (w\<lparr>FreeBalance := (FreeBalance w)(i := (FreeBalance w i)(who := FreeBalance w i who + amount))\<rparr>)"
proof -
  have "FreeBalance w i who \<le> FreeBalance w i who + amount"
    using assms(2) by (simp add: word_le_nat_alt unat_plus)
  then show ?thesis
    using assms(1)
    by (simp add: deposit_creating_def free_balance_currency_def make_free_balance_be_def assets_eqs
        getter_defs Let_def)
qed

lemma withdraw_currency_apply [assets_eqs]:
  assumes "provided_asset_id u w = Ok i w"
  shows "withdraw_currency u who amount reasons w =
    (if FreeBalance w i who < amount then Err (Msg ''account has too few funds'') w
     else if Transfer \<in> set reasons \<and> Restrictions w i Transferable \<noteq> None
       then Err (Msg ''The asset is restricted for this action.'') w
     else Ok (NegativeImbalance amount)
       (w\<lparr>FreeBalance := (FreeBalance w)(i := (FreeBalance w i)(who := FreeBalance w i who - amount))\<rparr>))"
  using assms
  by (auto simp: withdraw_currency_def free_balance_currency_def ensure_can_withdraw_currency_def
      assets_eqs getter_defs checked_sub_def and_then_apply)

text \<open>Every branch of the transfer between assets.\<close>

lemma make_transfer_between_assets_apply [assets_eqs]:
  "make_transfer_between_assets f from t to reasons amount w =
     (if Symbols w f = None \<or> Symbols w t = None then Err (Msg ''AssetId is not exist.'') w
      else if FreeBalance w f from < amount then Err (Msg ''balance too low to send amount'') w
      else if checked_add (FreeBalance w t to) amount = None
        then Err (Msg ''balance too height to receive amount'') w
      else if Transfer \<in> set reasons \<and> Restrictions w f Transferable \<noteq> None
        then Err (Msg ''The asset is restricted for this action.'') w
      else if from = to \<and> f = t then Ok () w
      else Ok () (exchanged w f from t to amount))"
  (is "_ = ?rhs")
proof (cases "Symbols w f \<noteq> None \<and> Symbols w t \<noteq> None \<and> \<not> FreeBalance w f from < amount \<and>
    unat (FreeBalance w t to) + unat amount < 2 ^ 128 \<and>
    \<not> (Transfer \<in> set reasons \<and> Restrictions w f Transferable \<noteq> None) \<and> \<not> (from = to \<and> f = t)")
  case False
  then show ?thesis
    by (auto simp: make_transfer_between_assets_def assets_eqs getter_defs checked_add_def
        checked_sub_def and_then_apply)
next
  case True
  define w1 where "w1 = w\<lparr>FromId := Some f, ToId := Some t\<rparr>"
  define w2 where "w2 = w1\<lparr>FreeBalance := (FreeBalance w1)(f := (FreeBalance w1 f)(from := FreeBalance w1 f from - amount))\<rparr>"
  define w3 where "w3 = w2\<lparr>FreeBalance := (FreeBalance w2)(t := (FreeBalance w2 t)(to := FreeBalance w2 t to + amount))\<rparr>"
  define w4 where "w4 = w3\<lparr>TotalIssuance := (TotalIssuance w3)(t := saturating_add (TotalIssuance w3 t) amount)\<rparr>"
  define w5 where "w5 = w4\<lparr>TotalIssuance := (TotalIssuance w4)(f := saturating_sub (TotalIssuance w4 f) amount)\<rparr>"
  note ws = w1_def w2_def w3_def w4_def w5_def
  have fc: "from_to_context_new f t w = Ok () w1"
    by (simp add: from_to_context_new_def w1_def)
  have wd: "withdraw_currency FromAssetIdProvider from amount reasons w1 = Ok (NegativeImbalance amount) w2"
    using True by (subst withdraw_currency_apply [where i = f]) (auto simp: w1_def w2_def)
  have "FreeBalance w2 t to = FreeBalance w t to"
    using True by (auto simp: w1_def w2_def)
  then have dc: "deposit_creating ToAssetIdProvider to amount w2 = Ok (PositiveImbalance amount) w3"
    using True deposit_creating_apply [of ToAssetIdProvider w2 t to amount]
    by (simp add: w3_def) (simp add: w1_def w2_def)
  have dp: "drop_positive ToAssetIdProvider (PositiveImbalance amount) w3 = Ok () w4"
    using drop_positive_apply [of ToAssetIdProvider w3 t] by (simp add: w4_def) (simp add: ws)
  have dn: "drop_negative FromAssetIdProvider (NegativeImbalance amount) w4 = Ok () w5"
    using drop_negative_apply [of FromAssetIdProvider w4 f] by (simp add: w5_def) (simp add: ws)
  have chk: "ensure_can_withdraw f from amount reasons (FreeBalance w f from - amount) w = Ok () w"
    using True by (auto simp: assets_eqs)
  have "make_transfer_between_assets f from t to reasons amount w = Ok () w5"
    unfolding make_transfer_between_assets_def
    using True by (auto simp: should_exist_apply getter_defs checked_add_def checked_sub_def chk fc wd dc dp dn)
  moreover have "w5 = exchanged w f from t to amount"
    by (simp add: exchanged_def Let_def ws del: fun_upd_apply)
  moreover have "?rhs = Ok () (exchanged w f from t to amount)"
    using True by (auto simp: checked_add_def)
  ultimately show ?thesis by (simp only:)
qed

text \<open>The currency view never writes the storage of a client.\<close>

lemma currency_parts_keep_pallet [frame_effects]:
  "effects keeps_pallet (provided_asset_id u)"
  "effects keeps_pallet (set_free_balance i who x)"
  "effects keeps_pallet (set_total_issuance i x)"
  "effects keeps_pallet (should_exist i)"
  "effects keeps_pallet (ensure_can_withdraw i who x rs b)"
  "effects keeps_pallet (from_to_context_new i j)"
  by (cases u; auto intro!: effectsI simp: assets_eqs unwrap_def from_to_context_new_def split: option.splits if_splits)+

lemma currency_keeps_pallet [frame_effects]:
  "effects keeps_pallet (drop_positive u p)"
  "effects keeps_pallet (drop_negative u n)"
  "effects keeps_pallet (deposit_creating u who x)"
  "effects keeps_pallet (withdraw_currency u who x rs)"
  "effects keeps_pallet (make_transfer_between_assets f from t to rs x)"
proof -
  show drop: "effects keeps_pallet (drop_positive u p)" "effects keeps_pallet (drop_negative u n)" for p n
    unfolding drop_positive_def drop_negative_def by (intro framed.effects_intros frame_effects)+
  show "effects keeps_pallet (deposit_creating u who x)"
    unfolding deposit_creating_def make_free_balance_be_def free_balance_currency_def
    by (intro framed.effects_intros frame_effects) (simp add: framed.effects_intros drop split: SignedImbalance.split)
  show "effects keeps_pallet (withdraw_currency u who x rs)"
    unfolding withdraw_currency_def free_balance_currency_def ensure_can_withdraw_currency_def
    by (intro framed.effects_intros frame_effects)
  show "effects keeps_pallet (make_transfer_between_assets f from t to rs x)"
    by (auto intro!: effectsI simp: make_transfer_between_assets_apply exchanged_def Let_def split: if_splits)
qed

section \<open>Settling imbalances\<close>

lemma saturating_add_unat: "unat (saturating_add (a :: u128) b) = min (unat a + unat b) (2 ^ 128 - 1)"
  using unat_u128_less [of "a + b"]
  by (auto simp: saturating_add_def checked_add_def unat_plus unat_max_value)

lemma saturating_sub_unat: "unat (saturating_sub (a :: u128) b) = unat a - unat b"
  by (auto simp: saturating_sub_def checked_sub_def unat_minus word_le_nat_alt)

lemma saturating_add_assoc:
  "saturating_add (saturating_add t a) b = saturating_add t (saturating_add a (b :: u128))"
  by (rule word_unat_eq_iff [THEN iffD2]) (simp add: saturating_add_unat)

lemma saturating_sub_sub:
  "saturating_sub (saturating_sub t a) b = saturating_sub t (saturating_add a (b :: u128))"
  using unat_u128_less [of t]
  by (intro word_unat_eq_iff [THEN iffD2]) (simp add: saturating_add_unat saturating_sub_unat)

lemma saturating_add_parts: "(a :: u128) \<le> c \<Longrightarrow> saturating_add a (c - a) = c"
  using unat_u128_less [of c]
  by (intro word_unat_eq_iff [THEN iffD2]) (simp add: saturating_add_unat unat_minus word_le_nat_alt)

lemma saturating_offset:
  fixes t a b :: u128
  assumes "unat t + unat a < 2 ^ 128"
  shows "b \<le> a \<Longrightarrow> saturating_sub (saturating_add t a) b = saturating_add t (a - b)"
    and "a \<le> b \<Longrightarrow> saturating_sub (saturating_add t a) b = saturating_sub t (b - a)"
  using assms
  by (intro word_unat_eq_iff [THEN iffD2]; simp add: saturating_add_unat saturating_sub_unat unat_minus word_le_nat_alt)+

lemma drop_two:
  assumes "provided_asset_id u w = Ok i w"
  shows "steps [drop_positive u p, drop_positive u q] w = drop_positive u (merge_positive p q) w"
    and "steps [drop_negative u n, drop_negative u m] w = drop_negative u (merge_negative n m) w"
    and "steps [drop_positive u p, drop_negative u n] w =
      Ok () (w\<lparr>TotalIssuance := (TotalIssuance w)(i := saturating_sub (saturating_add (TotalIssuance w i) (pos_peek p)) (neg_peek n))\<rparr>)"
proof -
  have again: "provided_asset_id u (w\<lparr>TotalIssuance := f\<rparr>) = Ok i (w\<lparr>TotalIssuance := f\<rparr>)" for f
    by (rule provided_asset_id_stable [OF assms]) simp_all
  note drops = drop_positive_apply [OF assms] drop_negative_apply [OF assms] drop_positive_apply [OF again] drop_negative_apply [OF again]
  show "steps [drop_positive u p, drop_positive u q] w = drop_positive u (merge_positive p q) w"
    "steps [drop_negative u n, drop_negative u m] w = drop_negative u (merge_negative n m) w"
    "steps [drop_positive u p, drop_negative u n] w =
      Ok () (w\<lparr>TotalIssuance := (TotalIssuance w)(i := saturating_sub (saturating_add (TotalIssuance w i) (pos_peek p)) (neg_peek n))\<rparr>)"
    by (simp_all add: drops merge_positive_def merge_negative_def saturating_add_assoc saturating_sub_sub)
qed

section \<open>Supply across two assets\<close>

lemma saturating_back:
  "unat (a :: u128) + unat b < 2 ^ 128 \<Longrightarrow> saturating_sub (saturating_add a b) b = a"
  by (simp add: saturating_sub_def saturating_add_def checked_add_def checked_sub_def word_le_nat_alt unat_plus)

lemma exchanged_same_asset:
  assumes "from \<noteq> to" and "unat (TotalIssuance w f) + unat amount < 2 ^ 128"
  shows "exchanged w f from f to amount = (moved w f from to amount)\<lparr>FromId := Some f, ToId := Some f\<rparr>"
  using assms by (simp add: exchanged_def moved_def Let_def saturating_back)

lemma exchanged_other_asset:
  assumes "f \<noteq> t" and "unat (TotalIssuance w t) + unat amount < 2 ^ 128" and "amount \<le> TotalIssuance w f"
  shows "exchanged w f from t to amount =
    w\<lparr>TotalIssuance := (TotalIssuance w)(t := TotalIssuance w t + amount, f := TotalIssuance w f - amount),
      FreeBalance := (FreeBalance w)(f := (FreeBalance w f)(from := FreeBalance w f from - amount),
                                     t := (FreeBalance w t)(to := FreeBalance w t to + amount)),
      FromId := Some f, ToId := Some t\<rparr>"
  using assms
  by (simp add: exchanged_def Let_def saturating_add_def saturating_sub_def checked_add_def checked_sub_def)

lemma supply_ok_exchanged:
  assumes ok: "supply_ok w" and ex: "Symbols w f \<noteq> None" "Symbols w t \<noteq> None"
    and low: "amount \<le> FreeBalance w f from" and fits: "unat (TotalIssuance w t) + unat amount < 2 ^ 128"
    and diff: "\<not> (from = to \<and> f = t)"
  shows "supply_ok (exchanged w f from t to amount)"
proof (cases "f = t")
  case True
  with diff fits ok low show ?thesis
    by (simp add: exchanged_same_asset supply_ok_moved)
next
  case False
  let ?w1 = "w\<lparr>TotalIssuance := (TotalIssuance w)(t := TotalIssuance w t + amount),
      FreeBalance := (FreeBalance w)(t := (FreeBalance w t)(to := FreeBalance w t to + amount))\<rparr>"
  have "supply_ok ?w1" by (rule supply_ok_credit [OF ok ex(2) fits])
  from supply_ok_debit [OF this, of f amount "from"] ex(1) low False
  have "supply_ok (?w1\<lparr>TotalIssuance := (TotalIssuance ?w1)(f := TotalIssuance w f - amount),
      FreeBalance := (FreeBalance ?w1)(f := (FreeBalance w f)(from := FreeBalance w f from - amount))\<rparr>)"
    by simp
  moreover have "amount \<le> TotalIssuance w f"
    using low free_le_issuance [OF ok, of f "from"] by simp
  ultimately show ?thesis
    using False fits by (simp add: exchanged_other_asset fun_upd_twist)
qed

section \<open>Properties\<close>

text \<open>C27: moving an amount from one asset to another succeeds when both assets exist, the sender
  has it, the issuance of the target asset has room for it and no restriction applies. It lowers
  the issuance and the sender's balance of the source asset by exactly the amount, raises the
  issuance and the receiver's balance of the target asset by exactly the amount, and issuance
  stays equal to the holdings of every asset.\<close>

theorem between_assets_exact:
  assumes ok: "supply_ok w" and ex: "Symbols w f \<noteq> None" "Symbols w t \<noteq> None" and diff: "f \<noteq> t"
    and funds: "x \<le> FreeBalance w f from" and room: "unat (TotalIssuance w t) + unat x < 2 ^ 128"
    and free: "Transfer \<notin> set reasons \<or> Restrictions w f Transferable = None"
  shows "\<exists>w'. make_transfer_between_assets f from t to reasons x w = Ok () w' \<and> supply_ok w' \<and>
    unat (TotalIssuance w' f) + unat x = unat (TotalIssuance w f) \<and>
    unat (TotalIssuance w' t) = unat (TotalIssuance w t) + unat x \<and>
    unat (FreeBalance w' f from) + unat x = unat (FreeBalance w f from) \<and>
    unat (FreeBalance w' t to) = unat (FreeBalance w t to) + unat x"
proof -
  have le: "unat (FreeBalance w t to) + unat x < 2 ^ 128"
    using room free_le_issuance [OF ok, of t to] by (simp add: word_le_nat_alt)
  have low: "x \<le> TotalIssuance w f"
    using funds free_le_issuance [OF ok, of f "from"] by simp
  let ?w' = "exchanged w f from t to x"
  have "make_transfer_between_assets f from t to reasons x w = Ok () ?w'"
    using ex diff funds free le by (auto simp: make_transfer_between_assets_apply checked_add_def)
  moreover have "supply_ok ?w'"
    using diff by (intro supply_ok_exchanged [OF ok ex funds room]) simp
  ultimately show ?thesis
    using diff le low funds room
    by (auto simp: exchanged_other_asset unat_plus unat_minus word_le_nat_alt)
qed

theorem between_assets_exact_witness:
  "\<exists>w'. make_transfer_between_assets 1 1 0 1 [TransactionPayment] 20 (demo_world [(0, 5), (1, 30)] ()) = Ok () w' \<and>
     supply_ok w' \<and> unat (TotalIssuance w' 0) = 25 \<and> unat (TotalIssuance w' 1) = 10"
  using between_assets_exact [OF supply_ok_demo, of "[(0, 5), (1, 30)]" "()" 1 0 20 1 "[TransactionPayment]" 1]
  by auto

text \<open>C36: settling an imbalance does not depend on how it was handled before. Dropping both parts of a
  split, the first of which is the requested amount as far as there is as much, has the effect on
  the storage of dropping the whole; dropping a merged or subsumed imbalance that of dropping both;
  and dropping what is left of offsetting a positive against a negative imbalance, from either
  side, that of dropping first the positive and then the negative one, as long as the issuance has
  room for the positive one.\<close>

theorem imbalances_settle:
  assumes "provided_asset_id u w = Ok i w"
  shows "(case split_positive p x of (a, b) \<Rightarrow>
      pos_peek a = min (pos_peek p) x \<and> steps [drop_positive u a, drop_positive u b] w = drop_positive u p w) \<and>
    (case split_negative n x of (a, b) \<Rightarrow>
      neg_peek a = min (neg_peek n) x \<and> steps [drop_negative u a, drop_negative u b] w = drop_negative u n w) \<and>
    drop_positive u (merge_positive p q) w = steps [drop_positive u p, drop_positive u q] w \<and>
    drop_negative u (merge_negative n m) w = steps [drop_negative u n, drop_negative u m] w \<and>
    drop_positive u (subsume_positive p q) w = steps [drop_positive u p, drop_positive u q] w \<and>
    drop_negative u (subsume_negative n m) w = steps [drop_negative u n, drop_negative u m] w \<and>
    (unat (TotalIssuance w i) + unat (pos_peek p) < 2 ^ 128 \<longrightarrow>
      (case offset_positive p n of Inr r \<Rightarrow> drop_positive u r w | Inl r \<Rightarrow> drop_negative u r w)
        = steps [drop_positive u p, drop_negative u n] w \<and>
      (case offset_negative n p of Inr r \<Rightarrow> drop_negative u r w | Inl r \<Rightarrow> drop_positive u r w)
        = steps [drop_positive u p, drop_negative u n] w)"
proof (intro conjI impI)
  note two = drop_two [OF assms] and one = drop_positive_apply [OF assms] drop_negative_apply [OF assms]
  show "case split_positive p x of (a, b) \<Rightarrow>
      pos_peek a = min (pos_peek p) x \<and> steps [drop_positive u a, drop_positive u b] w = drop_positive u p w"
    "case split_negative n x of (a, b) \<Rightarrow>
      neg_peek a = min (neg_peek n) x \<and> steps [drop_negative u a, drop_negative u b] w = drop_negative u n w"
    unfolding split_positive_def split_negative_def Let_def prod.case two
    by (simp_all add: merge_positive_def merge_negative_def saturating_add_parts)
  show "drop_positive u (merge_positive p q) w = steps [drop_positive u p, drop_positive u q] w"
    "drop_negative u (merge_negative n m) w = steps [drop_negative u n, drop_negative u m] w"
    "drop_positive u (subsume_positive p q) w = steps [drop_positive u p, drop_positive u q] w"
    "drop_negative u (subsume_negative n m) w = steps [drop_negative u n, drop_negative u m] w"
    unfolding two by (simp_all add: subsume_positive_def subsume_negative_def merge_positive_def merge_negative_def)
  assume "unat (TotalIssuance w i) + unat (pos_peek p) < 2 ^ 128"
  note off = saturating_offset [OF this]
  show "(case offset_positive p n of Inr r \<Rightarrow> drop_positive u r w | Inl r \<Rightarrow> drop_negative u r w)
      = steps [drop_positive u p, drop_negative u n] w"
    "(case offset_negative n p of Inr r \<Rightarrow> drop_negative u r w | Inl r \<Rightarrow> drop_positive u r w)
      = steps [drop_positive u p, drop_negative u n] w"
    unfolding two by (auto simp: offset_positive_def offset_negative_def Let_def one off)
qed

theorem imbalances_settle_witness:
  "steps [drop_positive RFUELProvider (PositiveImbalance 30), drop_negative RFUELProvider (NegativeImbalance 50)] (demo_world [(0, 100)] ())
     = drop_negative RFUELProvider (NegativeImbalance 20) (demo_world [(0, 100)] ()) \<and>
   split_positive (PositiveImbalance 30) 10 = (PositiveImbalance 10, PositiveImbalance 20)"
proof -
  have "provided_asset_id RFUELProvider (demo_world [(0, 100)] ()) = Ok RFUEL (demo_world [(0, 100)] ())" by simp
  from imbalances_settle [OF this, of "PositiveImbalance 30" 10 "NegativeImbalance 50" "PositiveImbalance 0" "NegativeImbalance 0"]
  show ?thesis by (simp add: offset_positive_def split_positive_def Let_def RFUEL_def)
qed

text \<open>\<open>burn\<close> of the currency does not reduce the stored issuance, so that settling the
  imbalance it returns raises the issuance above what it was before.\<close>

theorem burn_currency_inflates:
  assumes "provided_asset_id u w = Ok i w" and "x \<le> TotalIssuance w i"
    and "unat (TotalIssuance w i) + unat x < 2 ^ 128"
  shows "\<exists>w'. and_then (burn_currency u x) (drop_positive u) w = Ok () w' \<and>
    unat (TotalIssuance w' i) = unat (TotalIssuance w i) + unat x"
  using assms
  by (auto simp: burn_currency_def checked_sub_def set_total_issuance_apply drop_positive_apply [of _ _ i]
      saturating_add_def checked_add_def unat_plus)

theorem burn_currency_inflates_witness:
  "\<exists>w'. and_then (burn_currency RFUELProvider 10) (drop_positive RFUELProvider)
     ((genesis_world 7 ())\<lparr>TotalIssuance := \<lambda>_. 100\<rparr>) = Ok () w' \<and> unat (TotalIssuance w' RFUEL) = 110"
  using burn_currency_inflates [of RFUELProvider "(genesis_world 7 ())\<lparr>TotalIssuance := \<lambda>_. 100\<rparr>" RFUEL 10]
  by simp

end
