(* ===== verification/Fee.thy ===== *)
theory Fee
  imports Currency
begin

text \<open>
  The pallet \<^verbatim>\<open>modules/rio-fee\<close>: the account that collects transaction fees, the handler of
  the withdrawn fee, and the purchase of the fee asset with the locked one. The types of
  \<^verbatim>\<open>primitives/src/types.rs\<close> that carry the payment limit are here too.
\<close>

section \<open>Types and storage\<close>

record FeeExchangeV1 =
  max_payment_v1 :: balance

datatype FeeExchange = FeeExchange_V1 FeeExchangeV1

definition new_v1 :: "balance \<Rightarrow> FeeExchange" where
  "new_v1 b = FeeExchange_V1 \<lparr>max_payment_v1 = b\<rparr>"

fun max_payment :: "FeeExchange \<Rightarrow> balance" where
  "max_payment (FeeExchange_V1 x) = max_payment_v1 x"

datatype FeeEvent = AccountChanged account_id | FeeDeposit balance

record fee_store =
  FeeAccountId :: account_id
  FeeEvents :: "FeeEvent list"

section \<open>Operations\<close>

definition fee_event :: "FeeEvent \<Rightarrow> ('z fee_store_scheme world, unit) op" where
  "fee_event e = mutate (\<lambda>p. p\<lparr>FeeEvents := FeeEvents p @ [e]\<rparr>)"

definition set_account :: "origin \<Rightarrow> account_id \<Rightarrow> ('z fee_store_scheme world, unit) op" where
  "set_account og who = steps
     [ensure_root og,
      mutate (\<lambda>p. p\<lparr>FeeAccountId := who\<rparr>),
      fee_event (AccountChanged who)]"

text \<open>
  The imbalance of the deposit is a temporary, dropped at the end of its statement; the
  imbalance of the withdrawn fee is dropped when the handler returns.
\<close>

definition on_nonzero_unbalanced :: "NegativeImbalance \<Rightarrow> ('z fee_store_scheme world, unit) op" where
  "on_nonzero_unbalanced amount =
     reads_pallet FeeAccountId (\<lambda>account.
     and_then (deposit_creating RFUELProvider account (neg_peek amount)) (\<lambda>pos.
     steps
       [drop_positive RFUELProvider pos,
        fee_event (FeeDeposit (neg_peek amount)),
        drop_negative RFUELProvider amount]))"

definition buy_fee_asset :: "account_id \<Rightarrow> balance \<Rightarrow> FeeExchange \<Rightarrow> ('p world, balance) op" where
  "buy_fee_asset who amount exchange_op =
     reads (\<lambda>w. free_balance w LOCKED_RFUEL who) (\<lambda>bal.
     let amount' = min (min amount bal) (max_payment exchange_op) in
     and_then (make_transfer_between_assets LOCKED_RFUEL who RFUEL who [TransactionPayment] amount')
       (\<lambda>_. return amount'))"

section \<open>Behaviour\<close>

lemma fee_assets_differ [simp]: "LOCKED_RFUEL \<noteq> RFUEL" "RFUEL \<noteq> LOCKED_RFUEL"
  by (simp_all add: RFUEL_def LOCKED_RFUEL_def)

lemma fee_event_apply [simp]:
  "fee_event e w = Ok () (w\<lparr>pallet := (pallet w)\<lparr>FeeEvents := FeeEvents (pallet w) @ [e]\<rparr>\<rparr>)"
  by (simp add: fee_event_def)

text \<open>The handler hands the withdrawn amount to the fee account and restores the issuance.\<close>

lemma on_nonzero_unbalanced_apply:
  assumes "unat (FreeBalance w RFUEL (FeeAccountId (pallet w))) + unat x < 2 ^ 128"
    and "unat (TotalIssuance w RFUEL) + unat x < 2 ^ 128"
  shows "on_nonzero_unbalanced (NegativeImbalance x) w =
    Ok () (w\<lparr>FreeBalance := (FreeBalance w)(RFUEL := (FreeBalance w RFUEL)
        (FeeAccountId (pallet w) := FreeBalance w RFUEL (FeeAccountId (pallet w)) + x)),
      pallet := (pallet w)\<lparr>FeeEvents := FeeEvents (pallet w) @ [FeeDeposit x]\<rparr>\<rparr>)"
  using assms
  by (simp add: on_nonzero_unbalanced_def deposit_creating_apply [of _ _ RFUEL]
      drop_positive_apply [of _ _ RFUEL] drop_negative_apply [of _ _ RFUEL] saturating_back)

lemma buy_fee_asset_apply:
  assumes "Symbols w LOCKED_RFUEL \<noteq> None" and "Symbols w RFUEL \<noteq> None"
    and room: "unat (FreeBalance w RFUEL who) + unat (min amount (FreeBalance w LOCKED_RFUEL who)) < 2 ^ 128"
  shows "buy_fee_asset who amount fx w =
    (let x = min (min amount (FreeBalance w LOCKED_RFUEL who)) (max_payment fx)
     in Ok x (exchanged w LOCKED_RFUEL who RFUEL who x))"
proof -
  define x where "x = min (min amount (FreeBalance w LOCKED_RFUEL who)) (max_payment fx)"
  have "x \<le> FreeBalance w LOCKED_RFUEL who" and "x \<le> min amount (FreeBalance w LOCKED_RFUEL who)"
    by (simp_all add: x_def min.coboundedI1)
  moreover from this(2) room have "unat (FreeBalance w RFUEL who) + unat x < 2 ^ 128"
    unfolding word_le_nat_alt by linarith
  ultimately have "make_transfer_between_assets LOCKED_RFUEL who RFUEL who [TransactionPayment] x w
      = Ok () (exchanged w LOCKED_RFUEL who RFUEL who x)"
    using assms(1,2) fee_assets_differ
    by (auto simp: make_transfer_between_assets_apply checked_add_def)
  then show ?thesis
    by (simp add: buy_fee_asset_def getter_defs Let_def x_def)
qed

end
