(* ===== verification/Tx_Payment.thy ===== *)
theory Tx_Payment
  imports Fee
begin

text \<open>
  The pallet \<^verbatim>\<open>modules/rio-transaction-payment\<close>: the fee of a transaction and the signed
  extension that charges it. The constants and conversions of the runtime configuration, the
  fixed-point multiplication of the framework and the handler of the withdrawn fee are
  parameters, collected in one record; \<^verbatim>\<open>runtime/src/lib.rs\<close> fixes them as in
  \<open>runtime_tx_config\<close>.
\<close>

section \<open>Types, configuration and storage\<close>

type_synonym weight = u32
type_synonym multiplier = u64

datatype DispatchClass = Normal | Operational

record DispatchInfo =
  info_weight :: weight
  info_class :: DispatchClass
  pays_fee :: bool

record tx_config =
  TransactionBaseFee :: balance
  TransactionByteFee :: balance
  MaximumBlockWeight :: weight
  WeightToFee :: "weight \<Rightarrow> balance"
  FeeMultiplierUpdate :: "weight \<times> multiplier \<Rightarrow> multiplier"
  saturated_multiply_accumulate :: "multiplier \<Rightarrow> balance \<Rightarrow> balance"

record tx_store = fee_store +
  NextFeeMultiplier :: multiplier

definition CENTS :: balance where "CENTS = 1000 * 1000"

definition DOLLARS :: balance where "DOLLARS = 100 * CENTS"

definition runtime_tx_config :: "(multiplier \<Rightarrow> balance \<Rightarrow> balance) \<Rightarrow> tx_config" where
  "runtime_tx_config accumulate =
     \<lparr>TransactionBaseFee = 10 * CENTS, TransactionByteFee = 0, MaximumBlockWeight = 1000000000,
      WeightToFee = \<lambda>_. 0, FeeMultiplierUpdate = \<lambda>_. 0,
      saturated_multiply_accumulate = accumulate\<rparr>"

section \<open>Error codes\<close>

text \<open>
  The table of \<^verbatim>\<open>constants.rs\<close> that gives the reasons of a failed purchase of the fee asset a code.
  The arms of the \<open>match\<close> are different strings, so their order does not matter.
\<close>

definition CORE_TO_ASSET_PRICE_NOT_ABOVE_ZERO :: u8 where "CORE_TO_ASSET_PRICE_NOT_ABOVE_ZERO = 190"
definition CORE_TO_ASSET_PRICE_ABOVE_MAX_LIMIT :: u8 where "CORE_TO_ASSET_PRICE_ABOVE_MAX_LIMIT = 191"
definition INSUFFICIENT_BUYER_CORE_ASSET_BALANCE :: u8 where "INSUFFICIENT_BUYER_CORE_ASSET_BALANCE = 192"
definition ASSET_TO_CORE_PRICE_NOT_ABOVE_ZERO :: u8 where "ASSET_TO_CORE_PRICE_NOT_ABOVE_ZERO = 193"
definition ASSET_TO_CORE_PRICE_ABOVE_MAX_LIMIT :: u8 where "ASSET_TO_CORE_PRICE_ABOVE_MAX_LIMIT = 194"
definition INSUFFICIENT_BUYER_TRADE_ASSET_BALANCE :: u8 where "INSUFFICIENT_BUYER_TRADE_ASSET_BALANCE = 195"
definition ASSET_SALE_VALUE_NOT_ABOVE_ZERO :: u8 where "ASSET_SALE_VALUE_NOT_ABOVE_ZERO = 196"
definition SALE_VALUE_BELOW_REQUIRED_MINIMUM :: u8 where "SALE_VALUE_BELOW_REQUIRED_MINIMUM = 197"
definition INSUFFICIENT_SELLER_CORE_ASSET_BALANCE :: u8 where "INSUFFICIENT_SELLER_CORE_ASSET_BALANCE = 198"
definition BUY_AMOUNT_NOT_POSITIVE :: u8 where "BUY_AMOUNT_NOT_POSITIVE = 199"
definition INSUFFICIENT_FEE_ASSET_BALANCE :: u8 where "INSUFFICIENT_FEE_ASSET_BALANCE = 200"
definition INVALID_ASSET_ID :: u8 where "INVALID_ASSET_ID = 201"
definition UNKNOWN_BUY_FEE_ASSET :: u8 where "UNKNOWN_BUY_FEE_ASSET = 202"
definition LIQUIDITY_TOO_LOW :: u8 where "LIQUIDITY_TOO_LOW = 203"
definition ASSET_CANNOT_SWAP_FOR_ITSELF :: u8 where "ASSET_CANNOT_SWAP_FOR_ITSELF = 204"
definition INSUFFICIENT_ASSET_RESERVE :: u8 where "INSUFFICIENT_ASSET_RESERVE = 205"

lemmas error_code_defs =
  CORE_TO_ASSET_PRICE_NOT_ABOVE_ZERO_def CORE_TO_ASSET_PRICE_ABOVE_MAX_LIMIT_def
  INSUFFICIENT_BUYER_CORE_ASSET_BALANCE_def ASSET_TO_CORE_PRICE_NOT_ABOVE_ZERO_def
  ASSET_TO_CORE_PRICE_ABOVE_MAX_LIMIT_def INSUFFICIENT_BUYER_TRADE_ASSET_BALANCE_def
  ASSET_SALE_VALUE_NOT_ABOVE_ZERO_def SALE_VALUE_BELOW_REQUIRED_MINIMUM_def
  INSUFFICIENT_SELLER_CORE_ASSET_BALANCE_def BUY_AMOUNT_NOT_POSITIVE_def
  INSUFFICIENT_FEE_ASSET_BALANCE_def INVALID_ASSET_ID_def UNKNOWN_BUY_FEE_ASSET_def
  LIQUIDITY_TOO_LOW_def ASSET_CANNOT_SWAP_FOR_ITSELF_def INSUFFICIENT_ASSET_RESERVE_def

definition error_codes :: "(string \<times> u8) list" where
  "error_codes =
     [(''InsufficientBuyerTradeAssetBalance'', INSUFFICIENT_BUYER_TRADE_ASSET_BALANCE),
      (''InsufficientBuyerCoreAssetBalance'', INSUFFICIENT_BUYER_CORE_ASSET_BALANCE),
      (''InsufficientSellerCoreAssetBalance'', INSUFFICIENT_SELLER_CORE_ASSET_BALANCE),
      (''InsufficientAssetReserve'', INSUFFICIENT_ASSET_RESERVE),
      (''BuyAmountNotPositive'', BUY_AMOUNT_NOT_POSITIVE),
      (''SaleValueBelowRequiredMinimum'', SALE_VALUE_BELOW_REQUIRED_MINIMUM),
      (''AssetCannotSwapForItself'', ASSET_CANNOT_SWAP_FOR_ITSELF),
      (''AssetSaleValueNotAboveZero'', ASSET_SALE_VALUE_NOT_ABOVE_ZERO),
      (''AssetToCorePriceNotAboveZero'', ASSET_TO_CORE_PRICE_NOT_ABOVE_ZERO),
      (''AssetToCorePriceAboveMaxLimit'', ASSET_TO_CORE_PRICE_ABOVE_MAX_LIMIT),
      (''CoreToAssetPriceNotAboveZero'', CORE_TO_ASSET_PRICE_NOT_ABOVE_ZERO),
      (''CoreToAssetPriceAboveMaxLimit'', CORE_TO_ASSET_PRICE_ABOVE_MAX_LIMIT),
      (''InvalidAssetId'', INVALID_ASSET_ID),
      (''LiquidityTooLow'', LIQUIDITY_TOO_LOW)]"

definition buy_fee_asset_error_msg_to_code :: "string \<Rightarrow> u8" where
  "buy_fee_asset_error_msg_to_code message =
     (case map_of error_codes message of Some code \<Rightarrow> code | None \<Rightarrow> UNKNOWN_BUY_FEE_ASSET)"

lemma error_codes_distinct:
  "distinct (map fst error_codes)" "distinct (UNKNOWN_BUY_FEE_ASSET # map snd error_codes)"
  by (simp_all add: error_codes_def error_code_defs)

text \<open>A code other than the one for unknown reasons tells the reason.\<close>

lemma error_code_tells_reason:
  assumes "buy_fee_asset_error_msg_to_code m = buy_fee_asset_error_msg_to_code m'"
    and "buy_fee_asset_error_msg_to_code m \<noteq> UNKNOWN_BUY_FEE_ASSET"
  shows "m = m'"
proof -
  from assms obtain c where c: "(m, c) \<in> set error_codes" "(m', c) \<in> set error_codes"
    by (auto simp: buy_fee_asset_error_msg_to_code_def split: option.splits dest: map_of_SomeD)
  have "inj_on snd (set error_codes)"
    using error_codes_distinct(2) by (simp add: distinct_map)
  from inj_onD [OF this _ c] show ?thesis by simp
qed

lemma error_code_known:
  "buy_fee_asset_error_msg_to_code m = UNKNOWN_BUY_FEE_ASSET \<longleftrightarrow> m \<notin> fst ` set error_codes"
proof (cases "map_of error_codes m")
  case (Some c)
  then have "(m, c) \<in> set error_codes" by (rule map_of_SomeD)
  moreover from this have "c \<noteq> UNKNOWN_BUY_FEE_ASSET" using error_codes_distinct(2) by force
  ultimately show ?thesis using Some by (force simp: buy_fee_asset_error_msg_to_code_def)
next
  case None
  then show ?thesis using map_of_eq_None_iff [of error_codes m] by (simp add: buy_fee_asset_error_msg_to_code_def)
qed

section \<open>Operations\<close>

definition tx_on_finalize :: "tx_config \<Rightarrow> weight \<Rightarrow> ('z tx_store_scheme world, unit) op" where
  "tx_on_finalize cfg current_weight = mutate (\<lambda>p.
     p\<lparr>NextFeeMultiplier := FeeMultiplierUpdate cfg (current_weight, NextFeeMultiplier p)\<rparr>)"

definition compute_fee :: "tx_config \<Rightarrow> multiplier \<Rightarrow> u32 \<Rightarrow> DispatchInfo \<Rightarrow> balance \<Rightarrow> balance" where
  "compute_fee cfg targeted_fee_adjustment len info tip =
     (if pays_fee info then
        let len_fee = saturating_mul (TransactionByteFee cfg) (ucast len);
            capped_weight = min (info_weight info) (MaximumBlockWeight cfg);
            weight_fee = WeightToFee cfg capped_weight;
            adjustable_fee = saturating_add len_fee weight_fee;
            adjusted_fee = saturated_multiply_accumulate cfg targeted_fee_adjustment adjustable_fee
        in saturating_add (saturating_add (TransactionBaseFee cfg) adjusted_fee) tip
      else tip)"

definition query_info ::
  "tx_config \<Rightarrow> DispatchInfo \<Rightarrow> u32 \<Rightarrow> ('z tx_store_scheme world, weight \<times> DispatchClass \<times> balance) op" where
  "query_info cfg info len =
     reads_pallet NextFeeMultiplier (\<lambda>m.
     return (info_weight info, info_class info, compute_fee cfg m len info 0))"

definition saturated_into_u64 :: "balance \<Rightarrow> u64" where
  "saturated_into_u64 b = (case try_into_u64 b of Some x \<Rightarrow> x | None \<Rightarrow> max_value)"

definition validate ::
  "tx_config \<Rightarrow> (NegativeImbalance \<Rightarrow> ('z tx_store_scheme world, unit) op) \<Rightarrow> balance \<Rightarrow>
   account_id \<Rightarrow> DispatchInfo \<Rightarrow> u64 \<Rightarrow> ('z tx_store_scheme world, u64) op" where
  "validate cfg on_unbalanced tip who info len =
     reads_pallet NextFeeMultiplier (\<lambda>m.
     let fee = compute_fee cfg m (ucast len) info tip in
     and_then
       (whenever (fee \<noteq> 0)
         (and_then (map_err (buy_fee_asset who fee (new_v1 max_value)) (\<lambda>_. Invalid (Custom 100))) (\<lambda>_.
          and_then
            (map_err
              (withdraw_currency RFUELProvider who fee
                (if tip = 0 then [TransactionPayment] else [TransactionPayment, Tip]))
              (\<lambda>_. Invalid Payment))
            on_unbalanced)))
       (\<lambda>_. return (saturated_into_u64 fee)))"

text \<open>
  The storage after a charged transaction: first \<open>bought\<close> of the locked asset is turned into the
  fee asset, then the fee moves from the payer to the fee account.
\<close>

definition charged ::
  "'z tx_store_scheme world \<Rightarrow> account_id \<Rightarrow> balance \<Rightarrow> 'z tx_store_scheme world" where
  "charged w who fee =
     (let bought = min fee (FreeBalance w LOCKED_RFUEL who);
          w1 = moved (exchanged w LOCKED_RFUEL who RFUEL who bought) RFUEL who (FeeAccountId (pallet w)) fee
      in w1\<lparr>pallet := (pallet w)\<lparr>FeeEvents := FeeEvents (pallet w) @ [FeeDeposit fee]\<rparr>\<rparr>)"

section \<open>The fee\<close>

lemma compute_fee_unpaid: "\<not> pays_fee info \<Longrightarrow> compute_fee cfg m len info tip = tip"
  by (simp add: compute_fee_def)

lemma compute_fee_bounds:
  assumes "pays_fee info"
  shows "tip \<le> compute_fee cfg m len info tip" and "TransactionBaseFee cfg \<le> compute_fee cfg m len info tip"
  using assms by (auto simp: compute_fee_def Let_def saturating_add_ge
      intro: order_trans [OF saturating_add_ge(1) saturating_add_ge(1)])

section \<open>Charging the fee\<close>

lemma exchanged_simps [simp]:
  "pallet (exchanged w f from t to x) = pallet w"
  "Symbols (exchanged w f from t to x) = Symbols w"
  "Restrictions (exchanged w f from t to x) = Restrictions w"
  "ReservedBalance (exchanged w f from t to x) = ReservedBalance w"
  by (simp_all add: exchanged_def Let_def)

lemma min_max_value: "min a (max_value :: 'n::len word) = a"
  by (simp add: max_value_def min_def)

lemma withdraw_then_collect:
  assumes funds: "fee \<le> FreeBalance w RFUEL who" and ok: "supply_ok w"
    and room: "unat (TotalIssuance w RFUEL) + unat fee < 2 ^ 128" and res: "Transfer \<notin> set reasons"
  shows "and_then (map_err (withdraw_currency RFUELProvider who fee reasons) g) on_nonzero_unbalanced w
    = Ok () ((moved w RFUEL who (FeeAccountId (pallet w)) fee)
        \<lparr>pallet := (pallet w)\<lparr>FeeEvents := FeeEvents (pallet w) @ [FeeDeposit fee]\<rparr>\<rparr>)"
proof -
  define acct where "acct = FeeAccountId (pallet w)"
  define w2 where "w2 = w\<lparr>FreeBalance := (FreeBalance w)(RFUEL := (FreeBalance w RFUEL)(who := FreeBalance w RFUEL who - fee))\<rparr>"
  have wd: "map_err (withdraw_currency RFUELProvider who fee reasons) g w = Ok (NegativeImbalance fee) w2"
    using funds res by (simp add: map_err_apply withdraw_currency_apply [of _ _ RFUEL] w2_def)
  have "FreeBalance w2 RFUEL acct \<le> TotalIssuance w RFUEL"
    using free_le_issuance [OF ok, of RFUEL acct] funds
    by (auto simp: w2_def word_le_nat_alt unat_minus)
  then have "on_nonzero_unbalanced (NegativeImbalance fee) w2 =
      Ok () (w2\<lparr>FreeBalance := (FreeBalance w2)(RFUEL := (FreeBalance w2 RFUEL)
          (acct := FreeBalance w2 RFUEL acct + fee)),
        pallet := (pallet w)\<lparr>FeeEvents := FeeEvents (pallet w) @ [FeeDeposit fee]\<rparr>\<rparr>)"
    using room by (subst on_nonzero_unbalanced_apply) (simp_all add: w2_def acct_def word_le_nat_alt)
  moreover have "w2\<lparr>FreeBalance := (FreeBalance w2)(RFUEL := (FreeBalance w2 RFUEL)
      (acct := FreeBalance w2 RFUEL acct + fee))\<rparr> = moved w RFUEL who acct fee"
    by (auto simp: w2_def moved_def)
  ultimately show ?thesis
    using wd by (simp add: acct_def)
qed

lemma exchanged_rfuel:
  assumes "unat (TotalIssuance w RFUEL) + unat x < 2 ^ 128"
  shows "FreeBalance (exchanged w LOCKED_RFUEL who RFUEL who x) RFUEL who = FreeBalance w RFUEL who + x"
    and "unat (TotalIssuance (exchanged w LOCKED_RFUEL who RFUEL who x) RFUEL)
      = unat (TotalIssuance w RFUEL) + unat x"
  using assms by (simp_all add: exchanged_def Let_def saturating_add_def checked_add_def unat_plus)

text \<open>The handler is only asked about fees that are not zero, so its wrapper does not matter.\<close>

lemma withdraw_result: "withdraw_currency u who x rs w = Ok n t \<Longrightarrow> n = NegativeImbalance x"
  by (auto simp: withdraw_currency_def and_then_eq_Ok)

lemma withdraw_handler:
  assumes "f (NegativeImbalance x) = g (NegativeImbalance x)"
  shows "and_then (map_err (withdraw_currency u who x rs) h) f = and_then (map_err (withdraw_currency u who x rs) h) g"
proof
  fix w
  show "and_then (map_err (withdraw_currency u who x rs) h) f w = and_then (map_err (withdraw_currency u who x rs) h) g w"
    using assms withdraw_result [of u who x rs w]
    by (cases "withdraw_currency u who x rs w") (auto simp: and_then_apply map_err_apply)
qed

lemma validate_handler:
  fixes on_unb :: "NegativeImbalance \<Rightarrow> ('z tx_store_scheme world, unit) op"
  assumes "\<And>n. neg_peek n \<noteq> 0 \<Longrightarrow> on_unb n = on_nonzero_unbalanced n"
  shows "validate cfg on_unb tip who info len = validate cfg on_nonzero_unbalanced tip who info len"
proof -
  have "on_unb (NegativeImbalance x) = on_nonzero_unbalanced (NegativeImbalance x)" if "x \<noteq> 0" for x
    using assms that by simp
  note eq = withdraw_handler [where f = on_unb and g = on_nonzero_unbalanced, OF this]
  have "whenever (x \<noteq> 0) (and_then m (\<lambda>_. and_then (map_err (withdraw_currency RFUELProvider who x rs) h) on_unb)) =
      whenever (x \<noteq> 0) (and_then m (\<lambda>_. and_then (map_err (withdraw_currency RFUELProvider who x rs) h) on_nonzero_unbalanced))"
    for x rs h and m :: "('z tx_store_scheme world, balance) op"
    by (cases "x = 0") (simp_all add: whenever_def eq)
  then show ?thesis by (simp only: validate_def Let_def)
qed

lemma validate_run:
  fixes w :: "'z tx_store_scheme world"
  assumes ok: "supply_ok w" and ex: "Symbols w LOCKED_RFUEL \<noteq> None" "Symbols w RFUEL \<noteq> None"
    and handler: "\<And>n. neg_peek n \<noteq> 0 \<Longrightarrow> on_unb n = on_nonzero_unbalanced n"
    and fee: "fee = compute_fee cfg (NextFeeMultiplier (pallet w)) (ucast len) info tip"
    and bought: "bought = min fee (FreeBalance w LOCKED_RFUEL who)"
    and funds: "fee \<le> FreeBalance w RFUEL who + bought"
    and room: "unat (TotalIssuance w RFUEL) + unat bought + unat fee < 2 ^ 128"
    and paid: "fee \<noteq> 0"
  shows "validate cfg on_unb tip who info len w = Ok (saturated_into_u64 fee) (charged w who fee)"
    and "supply_ok (charged w who fee)"
proof -
  have le: "bought \<le> fee" "bought \<le> FreeBalance w LOCKED_RFUEL who"
    by (simp_all add: bought)
  define w1 where "w1 = exchanged w LOCKED_RFUEL who RFUEL who bought"
  have fits: "unat (TotalIssuance w RFUEL) + unat bought < 2 ^ 128"
    using room by simp
  have "unat (FreeBalance w RFUEL who) + unat bought < 2 ^ 128"
    using fits free_le_issuance [OF ok, of RFUEL who] by (simp add: word_le_nat_alt)
  then have buy: "buy_fee_asset who fee (new_v1 max_value) w = Ok bought w1"
    by (simp add: buy_fee_asset_apply ex new_v1_def min_max_value bought [symmetric] w1_def Let_def)
  have ok1: "supply_ok w1"
    unfolding w1_def using ok ex le fits by (intro supply_ok_exchanged) simp_all
  have "FreeBalance w1 RFUEL who = FreeBalance w RFUEL who + bought"
    and "unat (TotalIssuance w1 RFUEL) + unat fee < 2 ^ 128"
    using exchanged_rfuel [OF fits, of who] room by (simp_all add: w1_def)
  note facts = this
  have "and_then (map_err (withdraw_currency RFUELProvider who fee (if tip = 0 then [TransactionPayment] else [TransactionPayment, Tip]))
      (\<lambda>_. Invalid Payment)) on_nonzero_unbalanced w1 = Ok () (charged w who fee)"
    using funds facts ok1
    by (subst withdraw_then_collect)
      (auto simp: charged_def Let_def bought [symmetric] w1_def [symmetric], simp_all add: w1_def)
  then have "validate cfg on_nonzero_unbalanced tip who info len w = Ok (saturated_into_u64 fee) (charged w who fee)"
    unfolding validate_def reads_apply Let_def fee [symmetric]
    using paid buy by (simp add: map_err_apply)
  then show "validate cfg on_unb tip who info len w = Ok (saturated_into_u64 fee) (charged w who fee)"
    by (simp add: validate_handler [OF handler])
  have "supply_ok (moved w1 RFUEL who (FeeAccountId (pallet w)) fee)"
    using funds facts(1) by (intro supply_ok_moved [OF ok1]) simp
  then show "supply_ok (charged w who fee)"
    by (simp add: charged_def Let_def bought [symmetric] w1_def [symmetric])
qed

text \<open>With too few funds the transaction is rejected, after the locked asset was exchanged.\<close>

lemma validate_rejects:
  assumes ex: "Symbols w LOCKED_RFUEL \<noteq> None" "Symbols w RFUEL \<noteq> None"
    and fee: "fee = compute_fee cfg (NextFeeMultiplier (pallet w)) (ucast len) info tip"
    and bought: "bought = min fee (FreeBalance w LOCKED_RFUEL who)"
    and short: "FreeBalance w RFUEL who + bought < fee"
    and room: "unat (FreeBalance w RFUEL who) + unat bought < 2 ^ 128"
  shows "validate cfg on_unb tip who info len w =
    Err (Invalid Payment) (exchanged w LOCKED_RFUEL who RFUEL who bought)"
proof -
  define w1 where "w1 = exchanged w LOCKED_RFUEL who RFUEL who bought"
  have buy: "buy_fee_asset who fee (new_v1 max_value) w = Ok bought w1"
    using room by (simp add: buy_fee_asset_apply ex new_v1_def min_max_value bought [symmetric] w1_def Let_def)
  have "FreeBalance w1 RFUEL who < fee"
    using short by (simp add: w1_def exchanged_def Let_def)
  then have "\<And>rs. withdraw_currency RFUELProvider who fee rs w1 = Err (Msg ''account has too few funds'') w1"
    by (simp add: withdraw_currency_apply [of _ _ RFUEL])
  moreover have "fee \<noteq> 0" using short by auto
  ultimately show ?thesis
    unfolding validate_def Let_def using buy
    by (simp add: fee [symmetric] map_err_apply w1_def)
qed

text \<open>
  How a payment check can end: nothing happens, the fee is charged, or it is rejected after the
  exchange. Settling the fee adds the bought amount and the fee to the issuance of the fee asset
  before it takes the fee off again. A sender that can pay the fee holds it in the two assets, so
  these additions fit as long as the two assets together have less than half the range issued.
\<close>

definition fee_issuance :: "'p world \<Rightarrow> nat" where
  "fee_issuance w = unat (TotalIssuance w RFUEL) + unat (TotalIssuance w LOCKED_RFUEL)"

lemma validate_outcomes:
  assumes ok: "supply_ok w" and handler: "\<And>n. neg_peek n \<noteq> 0 \<Longrightarrow> on_unb n = on_nonzero_unbalanced n"
    and fee: "fee = compute_fee cfg (NextFeeMultiplier (pallet w)) (ucast len) info tip"
    and bought: "bought = min fee (FreeBalance w LOCKED_RFUEL who)"
    and room: "fee_issuance w < 2 ^ 127"
    and run: "final (validate cfg on_unb tip who info len w) = Some w'"
  shows "w' = w \<or> w' = charged w who fee \<and> supply_ok w' \<and> fee_issuance w' = fee_issuance w \<or>
    w' = exchanged w LOCKED_RFUEL who RFUEL who bought \<and> supply_ok w' \<and> fee_issuance w' = fee_issuance w"
proof (cases "fee = 0 \<or> Symbols w LOCKED_RFUEL = None \<or> Symbols w RFUEL = None")
  case True
  then have "w' = w"
    using run unfolding validate_def reads_apply Let_def fee [symmetric]
    by (auto simp: map_err_apply buy_fee_asset_def make_transfer_between_assets_apply Let_def and_then_apply
        split: if_splits)
  then show ?thesis by simp
next
  case False
  have le: "bought \<le> FreeBalance w LOCKED_RFUEL who" by (simp add: bought)
  with free_le_issuance [OF ok, of LOCKED_RFUEL who] free_le_issuance [OF ok, of RFUEL who]
  have held: "unat bought \<le> unat (TotalIssuance w LOCKED_RFUEL)"
    "unat (FreeBalance w RFUEL who) \<le> unat (TotalIssuance w RFUEL)" by (simp_all add: word_le_nat_alt)
  then have fits: "unat (TotalIssuance w RFUEL) + unat bought < 2 ^ 128"
    "unat (FreeBalance w RFUEL who) + unat bought < 2 ^ 128"
    using room by (simp_all add: fee_issuance_def)
  define w1 where "w1 = exchanged w LOCKED_RFUEL who RFUEL who bought"
  have ok1: "supply_ok w1" using False le fits(1) by (auto simp: w1_def intro!: supply_ok_exchanged [OF ok])
  have sum1: "fee_issuance w1 = fee_issuance w"
    using held(1) fits(1)
    by (simp add: w1_def fee_issuance_def exchanged_other_asset word_le_nat_alt unat_plus unat_minus)
  show ?thesis
  proof (cases "fee \<le> FreeBalance w RFUEL who + bought")
    case True
    then have "unat fee \<le> fee_issuance w"
      using held fits(2) unfolding fee_issuance_def word_le_nat_alt by (simp add: unat_plus)
    then have "unat (TotalIssuance w RFUEL) + unat bought + unat fee < 2 ^ 128"
      using held(1) room by (simp add: fee_issuance_def)
    with validate_run [OF ok _ _ handler fee bought True] False run
    have "w' = charged w who fee" "supply_ok (charged w who fee)" by auto
    moreover from sum1 have "fee_issuance (charged w who fee) = fee_issuance w"
      by (simp add: charged_def Let_def fee_issuance_def w1_def bought)
    ultimately show ?thesis by simp
  next
    case short: False
    with validate_rejects [OF _ _ fee bought _ fits(2)] False run
    have "w' = w1" by (auto simp: not_le w1_def)
    with ok1 sum1 show ?thesis by (simp add: w1_def)
  qed
qed

lemma validate_keeps_supply:
  assumes "supply_ok w" and "\<And>n. neg_peek n \<noteq> 0 \<Longrightarrow> on_unb n = on_nonzero_unbalanced n"
    and "fee_issuance w < 2 ^ 127"
    and "final (validate cfg on_unb tip who info len w) = Some w'"
  shows "supply_ok w' \<and> fee_issuance w' = fee_issuance w"
  using validate_outcomes [OF assms(1,2) refl refl assms(3,4)] assms(1) by blast

lemma validate_spares:
  assumes "supply_ok w" and "\<And>n. neg_peek n \<noteq> 0 \<Longrightarrow> on_unb n = on_nonzero_unbalanced n"
    and "fee_issuance w < 2 ^ 127"
    and "final (validate cfg on_unb tip who info len w) = Some w'" and "i \<noteq> RFUEL" "i \<noteq> LOCKED_RFUEL"
  shows "FreeBalance w' i = FreeBalance w i \<and> TotalIssuance w' i = TotalIssuance w i \<and>
    (\<exists>es. pallet w' = (pallet w)\<lparr>FeeEvents := es\<rparr>)"
proof -
  have "\<exists>es. p = p\<lparr>FeeEvents := es\<rparr>" for p :: "'a tx_store_scheme"
    by (rule exI [of _ "FeeEvents p"]) simp
  then show ?thesis
    using validate_outcomes [OF assms(1,2) refl refl assms(3,4)] assms(5,6)
    by (auto simp: charged_def exchanged_def Let_def)
qed

section \<open>Accounting of a charged transaction\<close>

lemma charged_accounts:
  assumes ok: "supply_ok w" and ex: "Symbols w LOCKED_RFUEL \<noteq> None" "Symbols w RFUEL \<noteq> None"
    and bought: "bought = min fee (FreeBalance w LOCKED_RFUEL who)"
    and funds: "fee \<le> FreeBalance w RFUEL who + bought"
    and room: "unat (TotalIssuance w RFUEL) + unat bought + unat fee < 2 ^ 128"
    and diff: "who \<noteq> FeeAccountId (pallet w)"
  shows "unat (FreeBalance (charged w who fee) RFUEL who) + unat (FreeBalance (charged w who fee) LOCKED_RFUEL who) + unat fee
      = unat (FreeBalance w RFUEL who) + unat (FreeBalance w LOCKED_RFUEL who)"
    and "unat (FreeBalance (charged w who fee) RFUEL (FeeAccountId (pallet w)))
      = unat (FreeBalance w RFUEL (FeeAccountId (pallet w))) + unat fee"
proof -
  have le: "bought \<le> fee" "bought \<le> FreeBalance w LOCKED_RFUEL who" by (simp_all add: bought)
  define w1 where "w1 = exchanged w LOCKED_RFUEL who RFUEL who bought"
  have fits: "unat (TotalIssuance w RFUEL) + unat bought < 2 ^ 128"
    using room by simp
  have ok1: "supply_ok w1"
    unfolding w1_def using ok ex le fits by (intro supply_ok_exchanged) simp_all
  have f1: "FreeBalance w1 RFUEL who = FreeBalance w RFUEL who + bought"
    using exchanged_rfuel(1) [OF fits, of who] by (simp add: w1_def)
  then have f: "fee \<le> FreeBalance w1 RFUEL who" using funds by simp
  have "unat (FreeBalance w RFUEL who) + unat bought < 2 ^ 128"
    using fits free_le_issuance [OF ok, of RFUEL who] by (simp add: word_le_nat_alt)
  then have u1: "unat (FreeBalance w1 RFUEL who) = unat (FreeBalance w RFUEL who) + unat bought"
    by (simp add: f1 unat_plus)
  have l1: "unat (FreeBalance w1 LOCKED_RFUEL who) + unat bought = unat (FreeBalance w LOCKED_RFUEL who)"
    using le(2) by (simp add: w1_def exchanged_def Let_def unat_minus word_le_nat_alt)
  have a1: "FreeBalance w1 RFUEL (FeeAccountId (pallet w)) = FreeBalance w RFUEL (FeeAccountId (pallet w))"
    using diff by (simp add: w1_def exchanged_def Let_def)
  have ch: "FreeBalance (charged w who fee) = FreeBalance (moved w1 RFUEL who (FeeAccountId (pallet w)) fee)"
    by (simp add: charged_def Let_def bought [symmetric] w1_def)
  show "unat (FreeBalance (charged w who fee) RFUEL who) + unat (FreeBalance (charged w who fee) LOCKED_RFUEL who) + unat fee
      = unat (FreeBalance w RFUEL who) + unat (FreeBalance w LOCKED_RFUEL who)"
    using free_moved(2) [OF ok1 f diff] f u1 l1 by (simp add: ch word_le_nat_alt)
  show "unat (FreeBalance (charged w who fee) RFUEL (FeeAccountId (pallet w)))
      = unat (FreeBalance w RFUEL (FeeAccountId (pallet w))) + unat fee"
    using free_moved(1) [OF ok1 f diff] by (simp add: ch a1)
qed

section \<open>Properties\<close>

text \<open>C9: a transaction whose sender can pay the fee out of the fee asset and the locked asset
  together, while the issuance of the fee asset is not within two fees of its maximum, passes the
  payment check; the sender pays exactly the fee out of the two assets, the fee account receives
  exactly the fee, and issuance stays equal to the holdings of every asset. The handler of the
  withdrawn fee is the fee pallet on amounts other than zero.\<close>

theorem validate_charges_exactly:
  assumes ok: "supply_ok w" and ex: "Symbols w LOCKED_RFUEL \<noteq> None" "Symbols w RFUEL \<noteq> None"
    and handler: "\<forall>n. neg_peek n \<noteq> 0 \<longrightarrow> on_unb n = on_nonzero_unbalanced n"
    and fee: "fee = compute_fee cfg (NextFeeMultiplier (pallet w)) (ucast len) info tip"
    and funds: "fee \<le> FreeBalance w RFUEL who + min fee (FreeBalance w LOCKED_RFUEL who)"
    and room: "unat (TotalIssuance w RFUEL) + 2 * unat fee < 2 ^ 128"
    and paid: "fee \<noteq> 0" and diff: "who \<noteq> FeeAccountId (pallet w)"
  shows "\<exists>w'. validate cfg on_unb tip who info len w = Ok (saturated_into_u64 fee) w' \<and> supply_ok w' \<and>
    unat (FreeBalance w' RFUEL who) + unat (FreeBalance w' LOCKED_RFUEL who) + unat fee
      = unat (FreeBalance w RFUEL who) + unat (FreeBalance w LOCKED_RFUEL who) \<and>
    unat (FreeBalance w' RFUEL (FeeAccountId (pallet w)))
      = unat (FreeBalance w RFUEL (FeeAccountId (pallet w))) + unat fee \<and>
    FeeEvents (pallet w') = FeeEvents (pallet w) @ [FeeDeposit fee]"
proof -
  have h: "\<And>n. neg_peek n \<noteq> 0 \<Longrightarrow> on_unb n = on_nonzero_unbalanced n" using handler by blast
  have "unat (min fee (FreeBalance w LOCKED_RFUEL who)) \<le> unat fee"
    unfolding word_le_nat_alt [symmetric] by simp
  with room have room': "unat (TotalIssuance w RFUEL) + unat (min fee (FreeBalance w LOCKED_RFUEL who)) + unat fee < 2 ^ 128"
    by linarith
  note run = validate_run [OF ok ex h fee refl funds room' paid]
  have "FeeEvents (pallet (charged w who fee)) = FeeEvents (pallet w) @ [FeeDeposit fee]"
    by (simp add: charged_def Let_def)
  with run charged_accounts [OF ok ex refl funds room' diff] show ?thesis by blast
qed

theorem validate_charges_exactly_witness:
  "\<exists>w'. validate (runtime_tx_config (\<lambda>_ b. b)) on_nonzero_unbalanced 0 1
      \<lparr>info_weight = 10, info_class = Normal, pays_fee = True\<rparr> 100
      (demo_world [(0, 9000000), (1, 5000000)] \<lparr>FeeAccountId = 9, FeeEvents = [], NextFeeMultiplier = 0\<rparr>)
    = Ok 10000000 w' \<and> supply_ok w' \<and> unat (FreeBalance w' RFUEL 9) = 10000000"
proof -
  let ?w = "demo_world [(0, 9000000), (1, 5000000)] \<lparr>FeeAccountId = 9, FeeEvents = [], NextFeeMultiplier = 0\<rparr>"
  let ?info = "\<lparr>info_weight = 10, info_class = Normal, pays_fee = True\<rparr>"
  have fee: "10000000 = compute_fee (runtime_tx_config (\<lambda>_ b. b)) (NextFeeMultiplier (pallet ?w)) (ucast (100 :: u64)) ?info 0"
    by (simp add: compute_fee_def runtime_tx_config_def CENTS_def Let_def saturating_mul_def saturating_add_def
        checked_mul_def checked_add_def)
  from validate_charges_exactly [OF supply_ok_demo _ _ _ fee, of on_nonzero_unbalanced 1]
  show ?thesis
    by (auto simp: RFUEL_def LOCKED_RFUEL_def saturated_into_u64_def try_into_u64_def)
qed

text \<open>C32: when both fee assets exist and together the sender's free balances in them do not cover
  the fee, the payment check fails with the payment error, and exactly one thing remains: as much of
  the sender's locked asset as the fee asks for, or all of it, has become the fee asset, one for one,
  in the sender's balances and in the issuance of the two assets. No other balance, no reserved
  balance, no other issuance and no pallet changes, so no fee reaches the fee account, and the
  holdings still add up to the issuance. The issuance of the fee asset has room for the exchange.\<close>

theorem validate_rejects_unpaid:
  assumes ok: "supply_ok w" and ex: "Symbols w LOCKED_RFUEL \<noteq> None" "Symbols w RFUEL \<noteq> None"
    and fee: "fee = compute_fee cfg (NextFeeMultiplier (pallet w)) (ucast len) info tip"
    and bought: "bought = min fee (FreeBalance w LOCKED_RFUEL who)"
    and short: "unat (FreeBalance w RFUEL who) + unat (FreeBalance w LOCKED_RFUEL who) < unat fee"
    and room: "unat (TotalIssuance w RFUEL) + unat bought < 2 ^ 128"
  shows "\<exists>w'. validate cfg on_unb tip who info len w = Err (Invalid Payment) w' \<and> supply_ok w' \<and>
    unat (FreeBalance w' RFUEL who) = unat (FreeBalance w RFUEL who) + unat bought \<and>
    unat (FreeBalance w' LOCKED_RFUEL who) + unat bought = unat (FreeBalance w LOCKED_RFUEL who) \<and>
    unat (TotalIssuance w' RFUEL) = unat (TotalIssuance w RFUEL) + unat bought \<and>
    unat (TotalIssuance w' LOCKED_RFUEL) + unat bought = unat (TotalIssuance w LOCKED_RFUEL) \<and>
    (\<forall>i a. a \<noteq> who \<or> i \<noteq> RFUEL \<and> i \<noteq> LOCKED_RFUEL \<longrightarrow> FreeBalance w' i a = FreeBalance w i a) \<and>
    (\<forall>i. i \<noteq> RFUEL \<and> i \<noteq> LOCKED_RFUEL \<longrightarrow> TotalIssuance w' i = TotalIssuance w i) \<and>
    ReservedBalance w' = ReservedBalance w \<and> pallet w' = pallet w"
proof -
  have le: "bought \<le> FreeBalance w LOCKED_RFUEL who" by (simp add: bought)
  have room': "unat (FreeBalance w RFUEL who) + unat bought < 2 ^ 128"
    using room free_le_issuance [OF ok, of RFUEL who] by (simp add: word_le_nat_alt)
  have "FreeBalance w RFUEL who + bought < fee"
    using short le room' by (simp add: word_less_nat_alt word_le_nat_alt unat_plus)
  from validate_rejects [OF ex fee bought this room', of on_unb]
  have run: "validate cfg on_unb tip who info len w =
      Err (Invalid Payment) (exchanged w LOCKED_RFUEL who RFUEL who bought)" .
  have "supply_ok (exchanged w LOCKED_RFUEL who RFUEL who bought)"
    using ex le room by (intro supply_ok_exchanged [OF ok]) simp_all
  moreover have "bought \<le> TotalIssuance w LOCKED_RFUEL"
    using le free_le_issuance [OF ok, of LOCKED_RFUEL who] by simp
  ultimately show ?thesis
    using run le room room'
    by (auto simp: exchanged_other_asset unat_plus unat_minus word_le_nat_alt)
qed

theorem validate_rejects_unpaid_witness:
  "\<exists>w'. validate (runtime_tx_config (\<lambda>_ b. b)) on_nonzero_unbalanced 0 1
      \<lparr>info_weight = 10, info_class = Normal, pays_fee = True\<rparr> 100
      (demo_world [(0, 90000), (1, 50000)] \<lparr>FeeAccountId = 9, FeeEvents = [], NextFeeMultiplier = 0\<rparr>)
    = Err (Invalid Payment) w' \<and> unat (FreeBalance w' RFUEL 1) = 140000"
proof -
  let ?w = "demo_world [(0, 90000), (1, 50000)] \<lparr>FeeAccountId = 9, FeeEvents = [], NextFeeMultiplier = 0\<rparr>"
  let ?info = "\<lparr>info_weight = 10, info_class = Normal, pays_fee = True\<rparr>"
  have fee: "10000000 = compute_fee (runtime_tx_config (\<lambda>_ b. b)) (NextFeeMultiplier (pallet ?w)) (ucast (100 :: u64)) ?info 0"
    by (simp add: compute_fee_def runtime_tx_config_def CENTS_def Let_def saturating_mul_def saturating_add_def
        checked_mul_def checked_add_def)
  from validate_rejects_unpaid [OF supply_ok_demo _ _ fee refl, of 1 on_nonzero_unbalanced]
  show ?thesis
    by (auto simp: RFUEL_def LOCKED_RFUEL_def)
qed

end
