(* ===== verification/Oracle.thy ===== *)
theory Oracle
  imports Tx_Payment
begin

text \<open>
  The pallet \<^verbatim>\<open>modules/rio-oracle\<close>: when an oracle was last seen, and whether it still
  counts as alive. Business pallets reach it through the interface \<open>OracleMixedIn\<close>, here a
  record of its two functions; the contract they rely on is the locale \<open>oracle_mixed_in\<close>.
  The length of the reporting window is a constant of the runtime configuration.
\<close>

section \<open>Storage and interface\<close>

datatype OracleEvent = OracleStakeReleased account_id balance

record oracle_store = tx_store +
  Oracles :: "account_id list"
  WitnessReport :: "account_id \<Rightarrow> block_number"

record 'p OracleMixedIn =
  om_on_witnessed :: "account_id \<Rightarrow> ('p world, unit) op"
  om_is_valid :: "'p world \<Rightarrow> account_id \<Rightarrow> bool"

section \<open>Operations\<close>

definition on_witnessed :: "account_id \<Rightarrow> ('z oracle_store_scheme world, unit) op" where
  "on_witnessed who =
     reads BlockNumber (\<lambda>current_height.
     mutate (\<lambda>p. p\<lparr>WitnessReport := (WitnessReport p)(who := current_height)\<rparr>))"

definition is_valid :: "block_number \<Rightarrow> 'z oracle_store_scheme world \<Rightarrow> account_id \<Rightarrow> bool" where
  "is_valid report_inteval w who \<longleftrightarrow>
     BlockNumber w \<le> WitnessReport (pallet w) who + report_inteval"

definition RioOracle :: "block_number \<Rightarrow> 'z oracle_store_scheme OracleMixedIn" where
  "RioOracle report_inteval =
     \<lparr>om_on_witnessed = on_witnessed, om_is_valid = is_valid report_inteval\<rparr>"

text \<open>The window of the runtime, in blocks.\<close>

definition ReportInteval :: block_number where "ReportInteval = 10"

section \<open>The contract of the interface\<close>

text \<open>
  Witnessing always succeeds and touches no asset; an oracle just witnessed is alive as long as
  the window does not run past the last block number, and nobody else's status changes.
\<close>

locale oracle_mixed_in =
  fixes om :: "'p OracleMixedIn" and window_fits :: "'p world \<Rightarrow> bool"
  assumes witness_total: "\<exists>w'. om_on_witnessed om who w = Ok () w'"
    and witness_valid: "om_on_witnessed om who w = Ok () w' \<Longrightarrow> window_fits w \<Longrightarrow> om_is_valid om w' who"
    and witness_other: "om_on_witnessed om who w = Ok () w' \<Longrightarrow> other \<noteq> who \<Longrightarrow>
      om_is_valid om w' other = om_is_valid om w other"
begin

lemma witness_no_panic: "no_panic (om_on_witnessed om who)"
  unfolding no_panic_def using witness_total by (metis res.distinct(3))

lemma witness_keeps_alive:
  "om_on_witnessed om who w = Ok () w' \<Longrightarrow> window_fits w \<Longrightarrow> om_is_valid om w other \<Longrightarrow>
   om_is_valid om w' other"
  using witness_valid witness_other by (cases "other = who") blast+

end

definition window_fits :: "block_number \<Rightarrow> 'p world \<Rightarrow> bool" where
  "window_fits report_inteval w \<longleftrightarrow> unat (BlockNumber w) + unat report_inteval < 2 ^ 32"

lemma on_witnessed_apply [simp]:
  "on_witnessed who w =
     Ok () (w\<lparr>pallet := (pallet w)\<lparr>WitnessReport := (WitnessReport (pallet w))(who := BlockNumber w)\<rparr>\<rparr>)"
  by (simp add: on_witnessed_def)

lemma RioOracle_simps [simp]:
  "om_on_witnessed (RioOracle t) = on_witnessed"
  "om_is_valid (RioOracle t) = is_valid t"
  by (simp_all add: RioOracle_def)

interpretation rio_oracle: oracle_mixed_in "RioOracle t" "window_fits t" for t
  by unfold_locales
    (auto simp: is_valid_def window_fits_def word_le_nat_alt unat_plus)

text \<open>An oracle stays valid for exactly the window after it was last witnessed.\<close>

lemma is_valid_window:
  assumes "unat (WitnessReport (pallet w) who) + unat t < 2 ^ 32"
  shows "is_valid t w who \<longleftrightarrow> unat (BlockNumber w) \<le> unat (WitnessReport (pallet w) who) + unat t"
  using assms by (simp add: is_valid_def word_le_nat_alt unat_plus)

end
