(* ===== verification/Price.thy ===== *)
theory Price
  imports Oracle "HOL-Library.Multiset"
begin

text \<open>
  The pallet \<^verbatim>\<open>modules/rio-price\<close>: oracles report prices, the median of the reports at the
  end of a block becomes the current price, and the reports of oracles that fell silent are
  dropped. The origin check of the oracle collective and the listener \<open>OnChange\<close> are
  parameters, as they are in the trait of the pallet.
\<close>

section \<open>Types and storage\<close>

type_synonym price = u128

definition PRICE_PRECISION :: u32 where "PRICE_PRECISION = 10000"

record PriceReport =
  reporter :: account_id
  report_price :: price

datatype PriceEvent = PriceReported account_id price | PriceChanged price

record price_store = oracle_store +
  CurrentPrice :: price
  PriceReports :: "PriceReport list"
  PriceEvents :: "PriceEvent list"

section \<open>Operations\<close>

definition price_event :: "PriceEvent \<Rightarrow> ('z price_store_scheme world, unit) op" where
  "price_event e = mutate (\<lambda>p. p\<lparr>PriceEvents := PriceEvents p @ [e]\<rparr>)"

definition mean :: "price list \<Rightarrow> ('s, price) op" where
  "mean numbers = udiv (sum_list numbers) (of_nat (length numbers))"

text \<open>Indexing a vector out of range panics; on an empty vector the index \<open>mid - 1\<close> wraps.\<close>

definition index :: "'a list \<Rightarrow> nat \<Rightarrow> ('s, 'a) op" where
  "index xs i = (if i < length xs then return (xs ! i) else panic)"

definition median :: "price list \<Rightarrow> ('s, price) op" where
  "median ns =
     (let numbers = sort ns in
      if length numbers = 1 then index numbers 0
      else
        let mid = length numbers div 2 in
        if length numbers mod 2 = 0 then
          (if mid = 0 then panic
           else and_then (index numbers (mid - 1)) (\<lambda>a.
                and_then (index numbers mid) (\<lambda>b. mean [a, b])))
        else index numbers mid)"

definition put_price :: "account_id \<Rightarrow> price \<Rightarrow> PriceReport list \<Rightarrow> PriceReport list" where
  "put_price who p reports =
     (let found = list_ex (\<lambda>x. reporter x = who) reports;
          changed = map (\<lambda>x. if reporter x = who then x\<lparr>report_price := p\<rparr> else x) reports
      in if found then changed else changed @ [\<lparr>reporter = who, report_price = p\<rparr>])"

definition add_price ::
  "'z price_store_scheme OracleMixedIn \<Rightarrow> account_id \<Rightarrow> price \<Rightarrow> ('z price_store_scheme world, unit) op" where
  "add_price om who p = steps
     [mutate (\<lambda>s. s\<lparr>PriceReports := put_price who p (PriceReports s)\<rparr>),
      om_on_witnessed om who,
      price_event (PriceReported who p)]"

text \<open>\<open>report\<close> discards the result of \<open>add_price\<close>.\<close>

definition report ::
  "(origin \<Rightarrow> account_id option) \<Rightarrow> 'z price_store_scheme OracleMixedIn \<Rightarrow> origin \<Rightarrow> price \<Rightarrow>
   ('z price_store_scheme world, unit) op" where
  "report ensure_origin om og p =
     (case ensure_origin og of
        None \<Rightarrow> throw BadOrigin
      | Some who \<Rightarrow> unwrap_or_default (add_price om who p))"

definition price_on_finalize ::
  "'z price_store_scheme OracleMixedIn \<Rightarrow> (price \<Rightarrow> ('z price_store_scheme world, unit) op) \<Rightarrow>
   ('z price_store_scheme world, unit) op" where
  "price_on_finalize om on_change = steps
     [reads_pallet CurrentPrice (\<lambda>old_price.
      reads_pallet PriceReports (\<lambda>reports.
      let prices = map report_price reports in
      whenever (0 < length prices)
        (and_then (median prices) (\<lambda>median_price.
         whenever (old_price \<noteq> median_price)
           (steps
             [mutate (\<lambda>s. s\<lparr>CurrentPrice := median_price\<rparr>),
              on_change median_price,
              price_event (PriceChanged median_price)]))))),
      reads (\<lambda>w. filter (\<lambda>x. om_is_valid om w (reporter x)) (PriceReports (pallet w))) (\<lambda>reports.
      mutate (\<lambda>s. s\<lparr>PriceReports := reports\<rparr>))]"

text \<open>One report per oracle.\<close>

definition reports_ok :: "PriceReport list \<Rightarrow> bool" where
  "reports_ok rs \<longleftrightarrow> distinct (map reporter rs)"

section \<open>The median\<close>

lemma price_event_apply [simp]:
  "price_event e w = Ok () (w\<lparr>pallet := (pallet w)\<lparr>PriceEvents := PriceEvents (pallet w) @ [e]\<rparr>\<rparr>)"
  by (simp add: price_event_def)

lemma index_apply [simp]: "index xs i s = (if i < length xs then Ok (xs ! i) s else Panic)"
  by (simp add: index_def)

lemma mean_two:
  assumes "unat a + unat b < 2 ^ 128"
  shows "\<exists>m. mean [a, b] s = Ok m s \<and> unat m = (unat a + unat b) div 2"
  using assms by (auto simp: mean_def unat_div unat_plus)

lemma median_apply:
  assumes ne: "ns \<noteq> []" and fits: "\<And>a b. a \<in> set ns \<Longrightarrow> b \<in> set ns \<Longrightarrow> unat a + unat b < 2 ^ 128"
  shows "\<exists>m. median ns s = Ok m s \<and>
    unat m = (unat (sort ns ! ((length ns - 1) div 2)) + unat (sort ns ! (length ns div 2))) div 2"
proof (cases "even (length ns)")
  case False
  then have "(length ns - 1) div 2 = length ns div 2" and "length ns div 2 < length ns"
    using ne by (auto elim!: oddE)
  with False show ?thesis
    by (auto simp: median_def Let_def odd_iff_mod_2_eq_one)
next
  case True
  then obtain k where "length ns = 2 * k" by (rule evenE)
  moreover from this ne have "0 < k" by (cases k) auto
  ultimately have k: "length ns = 2 * k" "0 < k" by simp_all
  then have idx: "(2 * k - Suc 0) div 2 = k - Suc 0" by (cases k) simp_all
  have "sort ns ! (k - 1) \<in> set ns" "sort ns ! k \<in> set ns"
    using k by (metis diff_less length_sort less_imp_diff_less mult_2 nat_add_left_cancel_less
        nth_mem set_sort add.right_neutral zero_less_one)+
  from mean_two [OF fits [OF this], of s]
  obtain m where m: "mean [sort ns ! (k - 1), sort ns ! k] s = Ok m s"
    "unat m = (unat (sort ns ! (k - 1)) + unat (sort ns ! k)) div 2" by blast
  have "index (sort ns) (k - 1) s = Ok (sort ns ! (k - 1)) s" "index (sort ns) k s = Ok (sort ns ! k) s"
    using k by simp_all
  with m k show ?thesis
    by (simp add: median_def Let_def idx)
qed

text \<open>The positions around the middle of a sorted list lie in every interval that holds a majority.\<close>

lemma majority_not_low:
  fixes xs :: "'a::linorder list"
  assumes srt: "sorted xs" and maj: "length xs < 2 * card {j. j < length xs \<and> a \<le> xs ! j \<and> xs ! j \<le> b}"
    and i: "length xs \<le> 2 * i + 2" "i < length xs"
  shows "a \<le> xs ! i"
proof (rule ccontr)
  assume low: "\<not> a \<le> xs ! i"
  have "i < j" if "j < length xs" "a \<le> xs ! j" for j
    using sorted_nth_mono [OF srt, of j i] i(2) that low by (meson leI order_trans)
  then have "{j. j < length xs \<and> a \<le> xs ! j \<and> xs ! j \<le> b} \<subseteq> {Suc i..<length xs}" by (auto simp: Suc_le_eq)
  from card_mono [OF _ this] maj i show False by simp
qed

lemma majority_not_high:
  fixes xs :: "'a::linorder list"
  assumes srt: "sorted xs" and maj: "length xs < 2 * card {j. j < length xs \<and> a \<le> xs ! j \<and> xs ! j \<le> b}"
    and i: "2 * i \<le> length xs"
  shows "xs ! i \<le> b"
proof (rule ccontr)
  assume high: "\<not> xs ! i \<le> b"
  have "j < i" if "j < length xs" "xs ! j \<le> b" for j
    using sorted_nth_mono [OF srt, of i j] that high by (meson leI order_trans)
  then have "{j. j < length xs \<and> a \<le> xs ! j \<and> xs ! j \<le> b} \<subseteq> {..<i}" by auto
  from card_mono [OF _ this] maj i show False by simp
qed

lemma majority_at:
  fixes xs :: "'a::linorder list"
  assumes "sorted xs" and "length xs < 2 * length (filter (\<lambda>x. a \<le> x \<and> x \<le> b) xs)"
    and "length xs \<le> 2 * i + 2" "2 * i \<le> length xs" "i < length xs"
  shows "a \<le> xs ! i \<and> xs ! i \<le> b"
  using assms majority_not_low [of xs a b i] majority_not_high [of xs a b i] by (simp add: length_filter_conv_card)

lemma length_filter_sort: "length (filter P (sort xs)) = length (filter P xs)"
  by (simp add: filter_sort)

lemma median_majority:
  assumes maj: "length ns < 2 * length (filter (\<lambda>x. a \<le> x \<and> x \<le> b) ns)"
    and fits: "\<And>a b. a \<in> set ns \<Longrightarrow> b \<in> set ns \<Longrightarrow> unat a + unat b < 2 ^ 128"
  shows "\<exists>m. median ns s = Ok m s \<and> a \<le> m \<and> m \<le> b"
proof -
  have ne: "ns \<noteq> []" using maj by auto
  then have pos: "0 < length ns" by simp
  let ?i = "(length ns - 1) div 2" and ?j = "length ns div 2"
  have srt: "length (sort ns) < 2 * length (filter (\<lambda>x. a \<le> x \<and> x \<le> b) (sort ns))"
    using maj by (simp add: length_filter_sort)
  have ij: "length ns \<le> 2 * ?i + 2" "2 * ?i \<le> length ns" "?i < length ns"
    "length ns \<le> 2 * ?j + 2" "2 * ?j \<le> length ns" "?j < length ns"
    using pos by linarith+
  have "a \<le> sort ns ! ?i \<and> sort ns ! ?i \<le> b"
    by (rule majority_at [OF sorted_sort srt]) (simp_all only: length_sort ij)
  moreover have "a \<le> sort ns ! ?j \<and> sort ns ! ?j \<le> b"
    by (rule majority_at [OF sorted_sort srt]) (simp_all only: length_sort ij)
  moreover have "\<exists>m. median ns s = Ok m s \<and> unat m = (unat (sort ns ! ?i) + unat (sort ns ! ?j)) div 2"
    by (rule median_apply [OF ne]) (rule fits)
  then obtain m where m: "median ns s = Ok m s"
    "unat m = (unat (sort ns ! ?i) + unat (sort ns ! ?j)) div 2" by (elim exE conjE)
  ultimately have "unat a \<le> unat m" "unat m \<le> unat b"
    unfolding word_le_nat_alt by linarith+
  with m(1) show ?thesis
    by (simp add: word_le_nat_alt)
qed

lemma median_perm: "mset ns = mset ms \<Longrightarrow> median ns = median ms"
  by (simp add: median_def properties_for_sort [of "sort ns" ms])

section \<open>Reports\<close>

lemma put_price_reporters:
  "map reporter (put_price who p rs) =
     (if who \<in> set (map reporter rs) then map reporter rs else map reporter rs @ [who])"
  by (auto simp: put_price_def Let_def list_ex_iff o_def intro!: map_cong)

lemma put_price_ok: "reports_ok rs \<Longrightarrow> reports_ok (put_price who p rs)"
  by (simp add: reports_ok_def put_price_reporters)

lemma put_price_set:
  "set (put_price who p rs) = {x \<in> set rs. reporter x \<noteq> who} \<union> {\<lparr>reporter = who, report_price = p\<rparr>}"
  by (auto simp: put_price_def Let_def list_ex_iff image_iff)

lemma put_price_filter_ok: "reports_ok rs \<Longrightarrow> reports_ok (filter P rs)"
  by (simp add: reports_ok_def distinct_map_filter)

lemma median_pure:
  assumes "ns \<noteq> []"
  shows "\<exists>m. \<forall>s. median ns s = Ok m s"
proof (cases "even (length ns)")
  case True
  then obtain k where "length ns = 2 * k" by (rule evenE)
  moreover from this assms have "0 < k" by (cases k) auto
  ultimately show ?thesis
    by (simp add: median_def Let_def mean_def and_then_apply)
next
  case False
  then have "length ns div 2 < length ns" using assms by (auto elim!: oddE)
  with False show ?thesis
    by (simp add: median_def Let_def odd_iff_mod_2_eq_one)
qed

lemma median_total: "ns \<noteq> [] \<Longrightarrow> \<exists>m. median ns s = Ok m s"
  by (rule ex_forward [OF median_pure]) (assumption, erule spec)

section \<open>The end of a block\<close>

lemma price_on_finalize_run:
  assumes total: "\<And>p v. \<exists>v'. on_change p v = Ok () v' \<and> CurrentPrice (pallet v') = CurrentPrice (pallet v) \<and>
      PriceReports (pallet v') = PriceReports (pallet v)"
  shows "\<exists>w'. price_on_finalize om on_change w = Ok () w' \<and>
    (PriceReports (pallet w) \<noteq> [] \<longrightarrow>
       median (map report_price (PriceReports (pallet w))) w = Ok (CurrentPrice (pallet w')) w) \<and>
    (PriceReports (pallet w) = [] \<longrightarrow> CurrentPrice (pallet w') = CurrentPrice (pallet w))"
proof (cases "PriceReports (pallet w) = []")
  case True
  then show ?thesis by (auto simp: price_on_finalize_def)
next
  case False
  then obtain m where m: "median (map report_price (PriceReports (pallet w))) w = Ok m w"
    using median_total [of "map report_price (PriceReports (pallet w))" w] by auto
  let ?w1 = "w\<lparr>pallet := (pallet w)\<lparr>CurrentPrice := m\<rparr>\<rparr>"
  obtain w2 where "on_change m ?w1 = Ok () w2" "CurrentPrice (pallet w2) = m"
    using total [of m ?w1] by auto
  with False m show ?thesis
    by (cases "CurrentPrice (pallet w) = m") (auto simp: price_on_finalize_def)
qed

text \<open>
  What the price pallet needs of its oracles beyond their contract: witnessing leaves the
  reports alone, and the prices play no part in who is alive.
\<close>

locale price_oracle = oracle_mixed_in om fits
  for om :: "'z price_store_scheme OracleMixedIn" and fits +
  assumes witness_frame: "om_on_witnessed om who w = Ok () w' \<Longrightarrow> PriceReports (pallet w') = PriceReports (pallet w)"
    and valid_frame: "om_is_valid om (w\<lparr>pallet := (pallet w)\<lparr>CurrentPrice := c\<rparr>\<rparr>) = om_is_valid om w"
      "om_is_valid om (w\<lparr>pallet := (pallet w)\<lparr>PriceReports := r\<rparr>\<rparr>) = om_is_valid om w"
      "om_is_valid om (w\<lparr>pallet := (pallet w)\<lparr>PriceEvents := e\<rparr>\<rparr>) = om_is_valid om w"
    and fits_frame: "fits (w\<lparr>pallet := p\<rparr>) = fits w"
begin

lemma add_price_run:
  assumes "fits w"
  shows "\<exists>w'. add_price om who p w = Ok () w' \<and> PriceReports (pallet w') = put_price who p (PriceReports (pallet w)) \<and>
    om_is_valid om w' who"
proof -
  let ?w1 = "w\<lparr>pallet := (pallet w)\<lparr>PriceReports := put_price who p (PriceReports (pallet w))\<rparr>\<rparr>"
  obtain w2 where w2: "om_on_witnessed om who ?w1 = Ok () w2" using witness_total by blast
  have "om_is_valid om w2 who"
    using assms by (intro witness_valid [OF w2]) (simp add: fits_frame)
  with w2 witness_frame [OF w2] show ?thesis
    by (auto simp: add_price_def valid_frame(3))
qed

lemma finalize_reports:
  "\<exists>w'. price_on_finalize om (\<lambda>_. return ()) w = Ok () w' \<and>
    PriceReports (pallet w') = filter (\<lambda>x. om_is_valid om w (reporter x)) (PriceReports (pallet w)) \<and>
    om_is_valid om w' = om_is_valid om w"
proof (cases "PriceReports (pallet w) = []")
  case True
  then show ?thesis by (simp add: price_on_finalize_def valid_frame(2))
next
  case False
  then obtain m where m: "median (map report_price (PriceReports (pallet w))) w = Ok m w"
    using median_total [of "map report_price (PriceReports (pallet w))" w] by auto
  have valid: "om_is_valid om (w\<lparr>pallet := (pallet w)\<lparr>CurrentPrice := c, PriceEvents := e\<rparr>\<rparr>) = om_is_valid om w" for c e
    using valid_frame(1) [where w = w and c = c]
      valid_frame(3) [where w = "w\<lparr>pallet := (pallet w)\<lparr>CurrentPrice := c\<rparr>\<rparr>" and e = e] by simp
  have valid': "om_is_valid om (w\<lparr>pallet := (pallet w)\<lparr>CurrentPrice := c, PriceEvents := e, PriceReports := r\<rparr>\<rparr>)
    = om_is_valid om w" for c r e
    using valid valid_frame(2) [where w = "w\<lparr>pallet := (pallet w)\<lparr>CurrentPrice := c, PriceEvents := e\<rparr>\<rparr>" and r = r]
    by simp
  show ?thesis
    using False m by (cases "CurrentPrice (pallet w) = m")
      (simp_all add: price_on_finalize_def valid valid' valid_frame(2))
qed

end

interpretation rio_price_oracle: price_oracle "RioOracle t" "window_fits t" for t
  by unfold_locales (auto simp: is_valid_def [abs_def] window_fits_def)

section \<open>Properties\<close>

text \<open>C25: a majority of honest oracles decides the price. If more than half of the stored reports
  lie between two bounds and no two reported prices overflow when added, then the end of the
  block succeeds and the current price lies between the bounds, whatever the other reports say
  and whatever the price was before.\<close>

theorem majority_decides_price:
  assumes listener: "\<forall>p v. \<exists>v'. on_change p v = Ok () v' \<and> CurrentPrice (pallet v') = CurrentPrice (pallet v) \<and>
      PriceReports (pallet v') = PriceReports (pallet v)"
    and maj: "length prices < 2 * length (filter (\<lambda>x. lo \<le> x \<and> x \<le> hi) prices)"
    and prices: "prices = map report_price (PriceReports (pallet w))"
    and fits: "\<forall>a \<in> set prices. \<forall>b \<in> set prices. unat a + unat b < 2 ^ 128"
  shows "\<exists>w'. price_on_finalize om on_change w = Ok () w' \<and>
    lo \<le> CurrentPrice (pallet w') \<and> CurrentPrice (pallet w') \<le> hi"
proof -
  have "\<And>p v. \<exists>v'. on_change p v = Ok () v' \<and> CurrentPrice (pallet v') = CurrentPrice (pallet v) \<and>
      PriceReports (pallet v') = PriceReports (pallet v)" using listener by blast
  from price_on_finalize_run [of on_change om w, OF this] obtain w' where
    w': "price_on_finalize om on_change w = Ok () w'"
      "PriceReports (pallet w) \<noteq> [] \<longrightarrow> median prices w = Ok (CurrentPrice (pallet w')) w"
    unfolding prices by blast
  have "PriceReports (pallet w) \<noteq> []" using maj prices by auto
  moreover have "\<exists>m. median prices w = Ok m w \<and> lo \<le> m \<and> m \<le> hi"
    by (rule median_majority [OF maj]) (use fits in blast)
  ultimately show ?thesis using w' by auto
qed

theorem majority_decides_price_witness:
  "\<exists>w'. price_on_finalize (RioOracle 10) (\<lambda>_. return ())
     (demo_world [] \<lparr>FeeAccountId = 9, FeeEvents = [], NextFeeMultiplier = 0, Oracles = [], WitnessReport = \<lambda>_. 0,
        CurrentPrice = 0, PriceReports = [\<lparr>reporter = 1, report_price = 100\<rparr>, \<lparr>reporter = 2, report_price = 5\<rparr>,
          \<lparr>reporter = 3, report_price = 102\<rparr>], PriceEvents = []\<rparr>) = Ok () w' \<and>
     100 \<le> CurrentPrice (pallet w') \<and> CurrentPrice (pallet w') \<le> 102"
  by (rule majority_decides_price [where prices = "[100, 5, 102]"]) auto

text \<open>C26: a report counts. A price reported by a member of the oracle collective is stored as the
  one report of that member, survives the end of the same block, and after it every remaining
  report belongs to an oracle that is still alive, with one report per oracle.\<close>

theorem report_survives_block:
  assumes member: "ensure_origin og = Some who" and fits: "window_fits t w"
    and uniq: "reports_ok (PriceReports (pallet w))"
  shows "\<exists>w1 w2. report ensure_origin (RioOracle t) og p w = Ok () w1 \<and>
    price_on_finalize (RioOracle t) (\<lambda>_. return ()) w1 = Ok () w2 \<and>
    \<lparr>reporter = who, report_price = p\<rparr> \<in> set (PriceReports (pallet w2)) \<and>
    reports_ok (PriceReports (pallet w2)) \<and> (\<forall>r \<in> set (PriceReports (pallet w2)). is_valid t w2 (reporter r))"
proof -
  obtain w1 where w1: "add_price (RioOracle t) who p w = Ok () w1"
    "PriceReports (pallet w1) = put_price who p (PriceReports (pallet w))" "is_valid t w1 who"
    using rio_price_oracle.add_price_run [OF fits, of who p] by auto
  obtain w2 where w2: "price_on_finalize (RioOracle t) (\<lambda>_. return ()) w1 = Ok () w2"
    "PriceReports (pallet w2) = filter (\<lambda>x. is_valid t w1 (reporter x)) (PriceReports (pallet w1))"
    "is_valid t w2 = is_valid t w1"
    using rio_price_oracle.finalize_reports [of t w1] by auto
  have "reports_ok (PriceReports (pallet w2))"
    unfolding w2(2) w1(2) by (intro put_price_filter_ok put_price_ok uniq)
  with w1 w2 member show ?thesis
    by (auto simp: report_def unwrap_or_default_apply put_price_set)
qed

theorem report_survives_block_witness:
  "\<exists>w1 w2. report (\<lambda>og. case og of Signed a \<Rightarrow> Some a | _ \<Rightarrow> None) (RioOracle 10) (Signed 4) 77
     (demo_world [] \<lparr>FeeAccountId = 9, FeeEvents = [], NextFeeMultiplier = 0, Oracles = [], WitnessReport = \<lambda>_. 0,
        CurrentPrice = 0, PriceReports = [\<lparr>reporter = 4, report_price = 5\<rparr>], PriceEvents = []\<rparr>) = Ok () w1 \<and>
     price_on_finalize (RioOracle 10) (\<lambda>_. return ()) w1 = Ok () w2 \<and>
     \<lparr>reporter = 4, report_price = 77\<rparr> \<in> set (PriceReports (pallet w2)) \<and>
     reports_ok (PriceReports (pallet w2)) \<and> (\<forall>r \<in> set (PriceReports (pallet w2)). is_valid 10 w2 (reporter r))"
  by (rule report_survives_block) (simp_all add: window_fits_def reports_ok_def)

text \<open>The median of an even number of reports is the mean of the two middle ones, computed with a
  sum that wraps: two oracles that agree on a price of \<open>2 ^ 127\<close> set the price to zero.\<close>

theorem median_sum_wraps: "median [2 ^ 127, 2 ^ 127] s = Ok 0 s"
  by (simp add: median_def mean_def Let_def)

end
