(* ===== verification/Bridge.thy ===== *)
theory Bridge
  imports Price
begin

text \<open>
  The pallet \<^verbatim>\<open>modules/rio-bridge\<close>: administrators credit deposits made on another chain,
  large deposits of unknown accounts wait for a know-your-customer decision, and withdrawals
  pass through a vault until they are finished or refunded. Minting runs the hooks of the
  assets pallet, which are an argument; what the bridge needs of them is the locale
  \<open>bridge_listener\<close>.
\<close>

section \<open>Types and storage\<close>

datatype BlackOrWhite = Black | White

definition default_black_or_white :: BlackOrWhite where
  "default_black_or_white = Black"

datatype Auth = AuthAll | AuthDeposit | AuthWithdraw | AuthRefund | AuthMark

definition default_auth :: Auth where
  "default_auth = AuthAll"

type_synonym tx_hash = h256

record Deposit =
  dep_account_id :: account_id
  dep_tx_hash :: "tx_hash option"
  dep_amount :: balance

datatype BridgeEvent =
    AccountMarked account_id BlackOrWhite
  | Deposited account_id balance tx_hash
  | Pending account_id balance tx_hash
  | PendingWithdraw account_id balance
  | Refund account_id balance
  | Withdraw account_id balance

record bridge_store = price_store +
  BridgeAssetId :: asset_id
  Paused :: bool
  BwList :: "account_id \<Rightarrow> BlackOrWhite option"
  Threshold :: balance
  Admins :: "account_id \<Rightarrow> Auth option"
  PendingDepositList :: "account_id \<Rightarrow> Deposit list"
  DepositHistory :: "tx_hash \<Rightarrow> Deposit option"
  PendingWithdraws :: "account_id \<Rightarrow> balance list option"
  PendingWithdrawVault :: account_id
  BridgeEvents :: "BridgeEvent list"

section \<open>Internal operations\<close>

definition bridge_event :: "BridgeEvent \<Rightarrow> ('z bridge_store_scheme world, unit) op" where
  "bridge_event e = mutate (\<lambda>p. p\<lparr>BridgeEvents := BridgeEvents p @ [e]\<rparr>)"

definition is_tx_seen :: "'z bridge_store_scheme world \<Rightarrow> tx_hash \<Rightarrow> bool" where
  "is_tx_seen w h \<longleftrightarrow> DepositHistory (pallet w) h \<noteq> None"

definition simple_deposit_with_event ::
  "'z bridge_store_scheme hooks \<Rightarrow> account_id \<Rightarrow> balance \<Rightarrow> tx_hash \<Rightarrow>
   ('z bridge_store_scheme world, unit) op" where
  "simple_deposit_with_event hk account amount h =
     (let dep = \<lparr>dep_account_id = account, dep_tx_hash = None, dep_amount = amount\<rparr>
      in steps
        [mutate (\<lambda>p. p\<lparr>DepositHistory := (DepositHistory p)(h \<mapsto> dep)\<rparr>),
         reads_pallet BridgeAssetId (\<lambda>i. mint hk Root i account amount),
         bridge_event (Deposited account amount h)])"

definition hold_deposit_with_event ::
  "account_id \<Rightarrow> balance \<Rightarrow> tx_hash \<Rightarrow> ('z bridge_store_scheme world, unit) op" where
  "hold_deposit_with_event account amount h =
     (let dep = \<lparr>dep_account_id = account, dep_tx_hash = None, dep_amount = amount\<rparr>
      in steps
        [mutate (\<lambda>p. p\<lparr>DepositHistory := (DepositHistory p)(h \<mapsto> dep)\<rparr>),
         mutate (\<lambda>p. p\<lparr>PendingDepositList := (PendingDepositList p)
           (account := PendingDepositList p account @ [dep\<lparr>dep_tx_hash := Some h\<rparr>])\<rparr>),
         bridge_event (Pending account amount h)])"

definition has_auth :: "'z bridge_store_scheme world \<Rightarrow> account_id \<Rightarrow> Auth \<Rightarrow> bool" where
  "has_auth w who auth = (case Admins (pallet w) who of
       None \<Rightarrow> False
     | Some account_auth \<Rightarrow> account_auth = AuthAll \<or> account_auth = auth)"

fun keep_others :: "balance \<Rightarrow> bool \<Rightarrow> balance list \<Rightarrow> balance list" where
  "keep_others amount found [] = []"
| "keep_others amount found (amt # rest) =
     (if found \<or> amt \<noteq> amount then amt # keep_others amount found rest
      else keep_others amount True rest)"

definition pending_withdraws :: "'z bridge_store_scheme world \<Rightarrow> account_id \<Rightarrow> balance list" where
  "pending_withdraws w who = (case PendingWithdraws (pallet w) who of Some v \<Rightarrow> v | None \<Rightarrow> [])"

definition remove_from_pending_withdraws ::
  "account_id \<Rightarrow> balance \<Rightarrow> ('z bridge_store_scheme world, unit) op" where
  "remove_from_pending_withdraws who amount =
     reads (\<lambda>w. pending_withdraws w who) (\<lambda>pendings.
     steps
       [mutate (\<lambda>p. p\<lparr>PendingWithdraws := (PendingWithdraws p)(who := None)\<rparr>),
        whenever (1 < length pendings)
          (mutate (\<lambda>p. p\<lparr>PendingWithdraws := (PendingWithdraws p)
             (who \<mapsto> keep_others amount False pendings)\<rparr>))])"

definition mark :: "account_id \<Rightarrow> BlackOrWhite \<Rightarrow> ('z bridge_store_scheme world, unit) op" where
  "mark account bow = mutate (\<lambda>p. p\<lparr>BwList := (BwList p)(account \<mapsto> bow)\<rparr>)"

definition mark_with_event :: "account_id \<Rightarrow> BlackOrWhite \<Rightarrow> ('z bridge_store_scheme world, unit) op" where
  "mark_with_event account bow = steps [mark account bow, bridge_event (AccountMarked account bow)]"

definition check_list :: "'z bridge_store_scheme world \<Rightarrow> account_id \<Rightarrow> BlackOrWhite option" where
  "check_list w account = BwList (pallet w) account"

section \<open>Dispatchable calls\<close>

definition pause :: "origin \<Rightarrow> ('z bridge_store_scheme world, unit) op" where
  "pause og = steps [ensure_root og, mutate (\<lambda>p. p\<lparr>Paused := True\<rparr>)]"

definition resume :: "origin \<Rightarrow> ('z bridge_store_scheme world, unit) op" where
  "resume og = steps [ensure_root og, mutate (\<lambda>p. p\<lparr>Paused := False\<rparr>)]"

definition delete_admin :: "origin \<Rightarrow> account_id \<Rightarrow> ('z bridge_store_scheme world, unit) op" where
  "delete_admin og who = steps
     [ensure_root og, mutate (\<lambda>p. p\<lparr>Admins := (Admins p)(who := None)\<rparr>)]"

definition update_admin :: "origin \<Rightarrow> account_id \<Rightarrow> Auth \<Rightarrow> ('z bridge_store_scheme world, unit) op" where
  "update_admin og who auth = steps
     [ensure_root og, mutate (\<lambda>p. p\<lparr>Admins := (Admins p)(who \<mapsto> auth)\<rparr>)]"

definition deposit ::
  "'z bridge_store_scheme hooks \<Rightarrow> origin \<Rightarrow> account_id \<Rightarrow> balance \<Rightarrow> tx_hash \<Rightarrow>
   ('z bridge_store_scheme world, unit) op" where
  "deposit hk og account amount h =
     reads (\<lambda>w. is_tx_seen w h) (\<lambda>seen.
     and_then (ensure (\<not> seen) ''repeated transaction'') (\<lambda>_.
     and_then (ensure_signed og) (\<lambda>who.
     reads (\<lambda>w. has_auth w who AuthDeposit) (\<lambda>auth.
     and_then (ensure auth ''no deposit auth'') (\<lambda>_.
     reads_pallet Threshold (\<lambda>threshold.
     reads (\<lambda>w. check_list w account) (\<lambda>bow.
     if threshold \<le> amount \<and> (bow = None \<or> bow = Some Black)
       then hold_deposit_with_event account amount h
     else simple_deposit_with_event hk account amount h)))))))"

definition refund ::
  "origin \<Rightarrow> account_id \<Rightarrow> balance \<Rightarrow> ('z bridge_store_scheme world, unit) op" where
  "refund og who amount =
     and_then (ensure_signed og) (\<lambda>author.
     reads_pallet BridgeAssetId (\<lambda>i.
     reads (\<lambda>w. has_auth w author AuthRefund) (\<lambda>auth.
     and_then (ensure auth ''no refund auth'') (\<lambda>_.
     reads (\<lambda>w. amount \<in> set (pending_withdraws w who)) (\<lambda>found.
     and_then (ensure found ''pending withdraw not found'') (\<lambda>_.
     reads_pallet PendingWithdrawVault (\<lambda>vault.
     steps
       [make_transfer_with_event i vault who amount,
        remove_from_pending_withdraws who amount,
        bridge_event (Refund who amount)])))))))"

definition withdraw_finish ::
  "origin \<Rightarrow> account_id \<Rightarrow> balance \<Rightarrow> ('z bridge_store_scheme world, unit) op" where
  "withdraw_finish og who amount =
     and_then (ensure_signed og) (\<lambda>author.
     reads (\<lambda>w. has_auth w author AuthWithdraw) (\<lambda>auth.
     and_then (ensure auth ''no withdraw auth'') (\<lambda>_.
     reads (\<lambda>w. amount \<in> set (pending_withdraws w who)) (\<lambda>found.
     and_then (ensure found ''pending withdraw not found'') (\<lambda>_.
     steps
       [remove_from_pending_withdraws who amount,
        bridge_event (Withdraw who amount)])))))"

definition withdraw ::
  "origin \<Rightarrow> account_id \<Rightarrow> balance \<Rightarrow> ('z bridge_store_scheme world, unit) op" where
  "withdraw og who amount =
     and_then (ensure_signed og) (\<lambda>author.
     reads_pallet BridgeAssetId (\<lambda>i.
     reads (\<lambda>w. has_auth w author AuthWithdraw) (\<lambda>auth.
     and_then (ensure auth ''no withdraw auth'') (\<lambda>_.
     reads_pallet PendingWithdrawVault (\<lambda>vault.
     steps
       [make_transfer_with_event i who vault amount,
        mutate (\<lambda>p. p\<lparr>PendingWithdraws := (PendingWithdraws p)
          (who \<mapsto> (case PendingWithdraws p who of Some v \<Rightarrow> v @ [amount] | None \<Rightarrow> [amount]))\<rparr>),
        bridge_event (PendingWithdraw who amount)])))))"

definition mark_black :: "origin \<Rightarrow> account_id \<Rightarrow> ('z bridge_store_scheme world, unit) op" where
  "mark_black og account =
     and_then (ensure_signed og) (\<lambda>who.
     reads (\<lambda>w. has_auth w who AuthMark) (\<lambda>auth.
     and_then (ensure auth ''no mark auth'') (\<lambda>_.
     reads_pallet (\<lambda>p. PendingDepositList p account) (\<lambda>pendings.
     steps
       [mutate (\<lambda>p. p\<lparr>PendingDepositList := (PendingDepositList p)(account := [])\<rparr>),
        whenever (0 < length pendings)
          (for_each pendings (\<lambda>v.
            and_then (unwrap (dep_tx_hash v)) (\<lambda>h.
            mutate (\<lambda>p. p\<lparr>DepositHistory := (DepositHistory p)(h := None)\<rparr>)))),
        mark_with_event account Black]))))"

text \<open>The loop of \<open>mark_white\<close>: on an error the deposits not yet credited are put back.\<close>

primrec release_pendings ::
  "'z bridge_store_scheme hooks \<Rightarrow> account_id \<Rightarrow> Deposit list \<Rightarrow> ('z bridge_store_scheme world, unit) op" where
  "release_pendings hk account [] = return ()"
| "release_pendings hk account (d # ds) =
     and_then (unwrap (dep_tx_hash d)) (\<lambda>h.
     and_then
       (on_err (simple_deposit_with_event hk (dep_account_id d) (dep_amount d) h)
         (mutate (\<lambda>p. p\<lparr>PendingDepositList := (PendingDepositList p)(account := d # ds)\<rparr>)))
       (\<lambda>_. release_pendings hk account ds))"

definition mark_white ::
  "'z bridge_store_scheme hooks \<Rightarrow> origin \<Rightarrow> account_id \<Rightarrow> ('z bridge_store_scheme world, unit) op" where
  "mark_white hk og account =
     and_then (ensure_signed og) (\<lambda>who.
     reads (\<lambda>w. has_auth w who AuthMark) (\<lambda>auth.
     and_then (ensure auth ''no mark auth'') (\<lambda>_.
     reads_pallet (\<lambda>p. PendingDepositList p account) (\<lambda>pendings.
     steps
       [mutate (\<lambda>p. p\<lparr>PendingDepositList := (PendingDepositList p)(account := [])\<rparr>),
        release_pendings hk account pendings,
        mark_with_event account White]))))"

datatype BridgeCall =
    CallPause | CallResume
  | CallDeleteAdmin account_id
  | CallUpdateAdmin account_id Auth
  | CallDeposit account_id balance tx_hash
  | CallRefund account_id balance
  | CallWithdrawFinish account_id balance
  | CallWithdraw account_id balance
  | CallMarkBlack account_id
  | CallMarkWhite account_id

fun dispatch_bridge ::
  "'z bridge_store_scheme hooks \<Rightarrow> origin \<Rightarrow> BridgeCall \<Rightarrow> ('z bridge_store_scheme world, unit) op" where
  "dispatch_bridge hk og CallPause = pause og"
| "dispatch_bridge hk og CallResume = resume og"
| "dispatch_bridge hk og (CallDeleteAdmin who) = delete_admin og who"
| "dispatch_bridge hk og (CallUpdateAdmin who auth) = update_admin og who auth"
| "dispatch_bridge hk og (CallDeposit account amount h) = deposit hk og account amount h"
| "dispatch_bridge hk og (CallRefund who amount) = refund og who amount"
| "dispatch_bridge hk og (CallWithdrawFinish who amount) = withdraw_finish og who amount"
| "dispatch_bridge hk og (CallWithdraw who amount) = withdraw og who amount"
| "dispatch_bridge hk og (CallMarkBlack account) = mark_black og account"
| "dispatch_bridge hk og (CallMarkWhite account) = mark_white hk og account"

text \<open>The genesis configuration.\<close>

definition bridge_genesis ::
  "asset_id \<Rightarrow> balance \<Rightarrow> (account_id \<times> Auth) list \<Rightarrow> account_id \<Rightarrow>
   'z bridge_store_scheme \<Rightarrow> 'z bridge_store_scheme" where
  "bridge_genesis i threshold admins vault p =
     p\<lparr>BridgeAssetId := i, Paused := False, BwList := \<lambda>_. None, Threshold := threshold,
       Admins := map_of (rev admins), PendingDepositList := \<lambda>_. [], DepositHistory := \<lambda>_. None,
       PendingWithdraws := \<lambda>_. None, PendingWithdrawVault := vault, BridgeEvents := []\<rparr>"

text \<open>
  The storage of the bridge without what other pallets keep, the transactions it has credited,
  and the invariant of its bookkeeping: a transaction is credited at most once, what is credited
  or pending is in the history, and no transaction is pending twice or pending once credited.
\<close>

definition bridge_part :: "'z bridge_store_scheme world \<Rightarrow> bridge_store" where
  "bridge_part w = bridge_store.truncate (pallet w)"

fun credited :: "BridgeEvent list \<Rightarrow> tx_hash list" where
  "credited [] = []"
| "credited (Deposited _ _ h # es) = h # credited es"
| "credited (_ # es) = credited es"

definition pending_hashes :: "bridge_store \<Rightarrow> account_id \<Rightarrow> tx_hash option list" where
  "pending_hashes p a = map dep_tx_hash (PendingDepositList p a)"

definition bridge_inv :: "bridge_store \<Rightarrow> bool" where
  "bridge_inv p \<longleftrightarrow>
     distinct (credited (BridgeEvents p)) \<and>
     (\<forall>h \<in> set (credited (BridgeEvents p)). DepositHistory p h \<noteq> None) \<and>
     (\<forall>a. distinct (pending_hashes p a)) \<and>
     (\<forall>a b. a \<noteq> b \<longrightarrow> set (pending_hashes p a) \<inter> set (pending_hashes p b) = {}) \<and>
     (\<forall>a. \<forall>x \<in> set (pending_hashes p a). \<exists>h. x = Some h \<and> DepositHistory p h \<noteq> None \<and>
        h \<notin> set (credited (BridgeEvents p)))"

text \<open>What is promised to withdrawers and what the vault holds.\<close>

definition pending_total :: "'z bridge_store_scheme world \<Rightarrow> nat" where
  "pending_total w = sum (\<lambda>a. sum_list (map unat (pending_withdraws w a))) UNIV"

definition vault_balance :: "'z bridge_store_scheme world \<Rightarrow> balance" where
  "vault_balance w = FreeBalance w (BridgeAssetId (pallet w)) (PendingWithdrawVault (pallet w))"

definition vault_covers :: "'z bridge_store_scheme world \<Rightarrow> bool" where
  "vault_covers w \<longleftrightarrow> pending_total w \<le> unat (vault_balance w)"

definition forgotten :: "tx_hash set \<Rightarrow> (tx_hash \<Rightarrow> Deposit option) \<Rightarrow> tx_hash \<Rightarrow> Deposit option" where
  "forgotten hs f h = (if h \<in> hs then None else f h)"

text \<open>
  The bridge as a state machine: a call, successful or not, or anything other pallets do. What
  they do to the balances and to their own storage is left open; they cannot write the deposits
  the bridge has recorded.
\<close>

definition same_deposits :: "'z bridge_store_scheme world \<Rightarrow> 'z bridge_store_scheme world \<Rightarrow> bool" where
  "same_deposits w w' \<longleftrightarrow> BridgeEvents (pallet w') = BridgeEvents (pallet w) \<and>
     DepositHistory (pallet w') = DepositHistory (pallet w) \<and>
     PendingDepositList (pallet w') = PendingDepositList (pallet w)"

inductive bridge_reach ::
  "'z bridge_store_scheme hooks \<Rightarrow> 'z bridge_store_scheme world \<Rightarrow> 'z bridge_store_scheme world \<Rightarrow> bool"
  for hk and w0 where
  start: "bridge_reach hk w0 w0"
| call: "bridge_reach hk w0 w \<Longrightarrow> final (dispatch_bridge hk og c w) = Some w' \<Longrightarrow> bridge_reach hk w0 w'"
| other: "bridge_reach hk w0 w \<Longrightarrow> same_deposits w w' \<Longrightarrow> bridge_reach hk w0 w'"

section \<open>Basic equations\<close>

lemma bridge_part_simps [simp]:
  "bridge_part (w\<lparr>pallet := q\<rparr>) = bridge_store.truncate q"
  "bridge_store.truncate (p\<lparr>BridgeAssetId := x1\<rparr>) = (bridge_store.truncate p)\<lparr>BridgeAssetId := x1\<rparr>"
  "bridge_store.truncate (p\<lparr>Paused := x2\<rparr>) = (bridge_store.truncate p)\<lparr>Paused := x2\<rparr>"
  "bridge_store.truncate (p\<lparr>BwList := x3\<rparr>) = (bridge_store.truncate p)\<lparr>BwList := x3\<rparr>"
  "bridge_store.truncate (p\<lparr>Admins := x4\<rparr>) = (bridge_store.truncate p)\<lparr>Admins := x4\<rparr>"
  "bridge_store.truncate (p\<lparr>PendingDepositList := x5\<rparr>) = (bridge_store.truncate p)\<lparr>PendingDepositList := x5\<rparr>"
  "bridge_store.truncate (p\<lparr>DepositHistory := x6\<rparr>) = (bridge_store.truncate p)\<lparr>DepositHistory := x6\<rparr>"
  "bridge_store.truncate (p\<lparr>PendingWithdraws := x7\<rparr>) = (bridge_store.truncate p)\<lparr>PendingWithdraws := x7\<rparr>"
  "bridge_store.truncate (p\<lparr>BridgeEvents := x8\<rparr>) = (bridge_store.truncate p)\<lparr>BridgeEvents := x8\<rparr>"
  "DepositHistory (bridge_store.truncate p) = DepositHistory p"
  "PendingDepositList (bridge_store.truncate p) = PendingDepositList p"
  "PendingWithdraws (bridge_store.truncate p) = PendingWithdraws p"
  "BridgeEvents (bridge_store.truncate p) = BridgeEvents p"
  "BridgeAssetId (bridge_store.truncate p) = BridgeAssetId p"
  "PendingWithdrawVault (bridge_store.truncate p) = PendingWithdrawVault p"
  by (simp_all add: bridge_part_def bridge_store.defs)

lemma bridge_event_apply [simp]:
  "bridge_event e w = Ok () (w\<lparr>pallet := (pallet w)\<lparr>BridgeEvents := BridgeEvents (pallet w) @ [e]\<rparr>\<rparr>)"
  by (simp add: bridge_event_def)

lemma mark_with_event_apply [simp]:
  "mark_with_event a b w = Ok () (w\<lparr>pallet := (pallet w)
     \<lparr>BwList := (BwList (pallet w))(a \<mapsto> b), BridgeEvents := BridgeEvents (pallet w) @ [AccountMarked a b]\<rparr>\<rparr>)"
  by (simp add: mark_with_event_def mark_def)

lemma keep_others_remove1: "keep_others amount False xs = remove1 amount xs"
proof -
  have "keep_others amount True ys = ys" for ys by (induction ys) simp_all
  then show ?thesis by (induction xs) auto
qed

text \<open>Guarded by membership, the removal takes away exactly one occurrence.\<close>

lemma remove_from_pending_withdraws_apply:
  assumes "amount \<in> set (pending_withdraws w who)"
  shows "\<exists>m. remove_from_pending_withdraws who amount w =
      Ok () (w\<lparr>pallet := (pallet w)\<lparr>PendingWithdraws := (PendingWithdraws (pallet w))(who := m)\<rparr>\<rparr>) \<and>
    (case m of Some v \<Rightarrow> v | None \<Rightarrow> []) = remove1 amount (pending_withdraws w who)"
proof (cases "1 < length (pending_withdraws w who)")
  case True
  then show ?thesis
    by (intro exI [of _ "Some (remove1 amount (pending_withdraws w who))"])
      (simp add: remove_from_pending_withdraws_def keep_others_remove1)
next
  case False
  with assms have "pending_withdraws w who = [amount]"
    by (cases "pending_withdraws w who") auto
  then show ?thesis
    by (intro exI [of _ None]) (simp add: remove_from_pending_withdraws_def)
qed

section \<open>Every transaction is credited at most once\<close>

lemma credited_append [simp]: "credited (xs @ ys) = credited xs @ credited ys"
  by (induction xs rule: credited.induct) simp_all

lemma bridge_inv_irrelevant [simp]:
  "bridge_inv (p\<lparr>Paused := x1\<rparr>) = bridge_inv p"
  "bridge_inv (p\<lparr>BwList := x2\<rparr>) = bridge_inv p"
  "bridge_inv (p\<lparr>Admins := x3\<rparr>) = bridge_inv p"
  "bridge_inv (p\<lparr>PendingWithdraws := x4\<rparr>) = bridge_inv p"
  "credited es = credited (BridgeEvents p) \<Longrightarrow> bridge_inv (p\<lparr>BridgeEvents := es\<rparr>) = bridge_inv p"
  by (simp_all add: bridge_inv_def pending_hashes_def)

lemma bridge_inv_genesis: "bridge_inv (bridge_store.truncate (bridge_genesis i th adm v p))"
  by (simp add: bridge_genesis_def bridge_inv_def pending_hashes_def)

lemma bridge_inv_cong:
  "BridgeEvents p = BridgeEvents q \<Longrightarrow> DepositHistory p = DepositHistory q \<Longrightarrow>
   PendingDepositList p = PendingDepositList q \<Longrightarrow> bridge_inv p = bridge_inv q"
  by (simp add: bridge_inv_def pending_hashes_def)

lemma bridge_invD:
  assumes "bridge_inv p"
  shows "distinct (credited (BridgeEvents p))"
    and "h \<in> set (credited (BridgeEvents p)) \<Longrightarrow> DepositHistory p h \<noteq> None"
    and "distinct (pending_hashes p a)"
    and "a \<noteq> b \<Longrightarrow> x \<in> set (pending_hashes p a) \<Longrightarrow> x \<notin> set (pending_hashes p b)"
    and "Some h \<in> set (pending_hashes p a) \<Longrightarrow> DepositHistory p h \<noteq> None"
    and "Some h \<in> set (pending_hashes p a) \<Longrightarrow> h \<notin> set (credited (BridgeEvents p))"
    and "None \<notin> set (pending_hashes p a)"
  using assms unfolding bridge_inv_def by fast+

lemma bridge_invI:
  assumes "distinct (credited (BridgeEvents p))"
    and "\<And>h. h \<in> set (credited (BridgeEvents p)) \<Longrightarrow> DepositHistory p h \<noteq> None"
    and "\<And>a. distinct (pending_hashes p a)"
    and "\<And>a b x. a \<noteq> b \<Longrightarrow> x \<in> set (pending_hashes p a) \<Longrightarrow> x \<notin> set (pending_hashes p b)"
    and "\<And>a h. Some h \<in> set (pending_hashes p a) \<Longrightarrow> DepositHistory p h \<noteq> None \<and>
       h \<notin> set (credited (BridgeEvents p))"
    and "\<And>a. None \<notin> set (pending_hashes p a)"
  shows "bridge_inv p"
  unfolding bridge_inv_def using assms by (metis disjoint_iff option.exhaust)

lemma pending_hashes_upd [simp]:
  "pending_hashes (p\<lparr>PendingDepositList := f\<rparr>) a = map dep_tx_hash (f a)"
  "pending_hashes (p\<lparr>DepositHistory := g\<rparr>) a = pending_hashes p a"
  "pending_hashes (p\<lparr>BridgeEvents := es\<rparr>) a = pending_hashes p a"
  by (simp_all add: pending_hashes_def)

lemma bridge_inv_history:
  assumes inv: "bridge_inv p"
  shows "bridge_inv (p\<lparr>DepositHistory := (DepositHistory p)(h \<mapsto> d)\<rparr>)"
  by (rule bridge_invI) (use bridge_invD [OF inv] in auto)

lemma bridge_inv_credit:
  assumes inv: "bridge_inv p" and new: "h \<notin> set (credited (BridgeEvents p))"
    and out: "\<And>a. Some h \<notin> set (pending_hashes p a)"
  shows "bridge_inv (p\<lparr>DepositHistory := (DepositHistory p)(h \<mapsto> d),
    BridgeEvents := BridgeEvents p @ [Deposited acc x h]\<rparr>)"
  by (rule bridge_invI) (use new out bridge_invD [OF inv] in auto)

lemma bridge_inv_hold:
  assumes inv: "bridge_inv p" and new: "DepositHistory p h = None" and d: "dep_tx_hash d = Some h"
  shows "bridge_inv (p\<lparr>PendingDepositList := (PendingDepositList p)(acc := PendingDepositList p acc @ [d]),
    DepositHistory := (DepositHistory p)(h \<mapsto> d')\<rparr>)" (is "bridge_inv ?q")
proof -
  have q: "pending_hashes ?q a = (if a = acc then pending_hashes p a @ [Some h] else pending_hashes p a)" for a
    by (simp add: pending_hashes_def d)
  have out: "Some h \<notin> set (pending_hashes p a)" "h \<notin> set (credited (BridgeEvents p))" for a
    using bridge_invD(2,5) [OF inv] new by blast+
  show ?thesis
    by (rule bridge_invI)
      (use out bridge_invD [OF inv] in \<open>auto simp: q simp del: pending_hashes_upd split: if_splits\<close>)
qed

lemma bridge_inv_less:
  assumes inv: "bridge_inv p" and sub: "PendingDepositList p acc = xs @ ds"
    and f: "f = (PendingDepositList p)(acc := ds)"
  shows "bridge_inv (p\<lparr>PendingDepositList := f\<rparr>)" (is "bridge_inv ?q")
proof -
  have q: "set (pending_hashes ?q a) \<subseteq> set (pending_hashes p a)" for a
    by (auto simp: pending_hashes_def sub f)
  have "distinct (pending_hashes ?q a)" for a
    using bridge_invD(3) [OF inv, of a] by (auto simp: pending_hashes_def sub f)
  then show ?thesis
    using bridge_invD [OF inv] q
    by (intro bridge_invI) (auto simp del: pending_hashes_upd dest!: subsetD [OF q])
qed

lemma bridge_inv_release:
  assumes inv: "bridge_inv (p\<lparr>PendingDepositList := (PendingDepositList p)(acc := d # ds)\<rparr>)" and h: "dep_tx_hash d = Some h"
  shows "bridge_inv (p\<lparr>PendingDepositList := (PendingDepositList p)(acc := ds), DepositHistory := (DepositHistory p)(h \<mapsto> dep),
    BridgeEvents := BridgeEvents p @ [Deposited a x h]\<rparr>)"
proof -
  let ?q = "p\<lparr>PendingDepositList := (PendingDepositList p)(acc := ds)\<rparr>"
  have pend: "pending_hashes (p\<lparr>PendingDepositList := (PendingDepositList p)(acc := d # ds)\<rparr>) acc = Some h # map dep_tx_hash ds"
    by (simp add: h)
  have "bridge_inv ?q"
    using bridge_inv_less [OF inv, of acc "[d]" ds "(PendingDepositList p)(acc := ds)"] by (simp add: fun_eq_iff)
  moreover have "h \<notin> set (credited (BridgeEvents ?q))"
    using bridge_invD(6) [OF inv, of h acc] pend by simp
  moreover have "Some h \<notin> set (pending_hashes ?q b)" for b
    using bridge_invD(3) [OF inv, of acc] bridge_invD(4) [OF inv, of acc b "Some h"] h by (cases "b = acc") auto
  ultimately have "bridge_inv (?q\<lparr>DepositHistory := (DepositHistory ?q)(h \<mapsto> dep),
      BridgeEvents := BridgeEvents ?q @ [Deposited a x h]\<rparr>)"
    by (rule bridge_inv_credit)
  then show ?thesis by simp
qed

lemma bridge_inv_forget:
  assumes inv: "bridge_inv p" and ph: "set (map Some hs) = set (pending_hashes p acc)"
  shows "bridge_inv (p\<lparr>PendingDepositList := (PendingDepositList p)(acc := []),
    DepositHistory := forgotten (set hs) (DepositHistory p)\<rparr>)" (is "bridge_inv ?q")
proof (rule bridge_invI)
  have gone: "h \<notin> set hs" if "Some h \<in> set (pending_hashes p a)" "a \<noteq> acc" for h a
    using bridge_invD(4) [OF inv that(2) that(1)] ph by (metis imageI list.set_map)
  have kept: "h \<notin> set hs" if "h \<in> set (credited (BridgeEvents p))" for h
    using bridge_invD(6) [OF inv, of h acc] ph that by (metis imageI list.set_map)
  have q: "pending_hashes ?q a = (if a = acc then [] else pending_hashes p a)" for a
    by (simp add: pending_hashes_def)
  fix a b :: account_id and h :: tx_hash and x :: "tx_hash option"
  show "distinct (credited (BridgeEvents ?q))"
    using bridge_invD(1) [OF inv] by simp
  show "h \<in> set (credited (BridgeEvents ?q)) \<Longrightarrow> DepositHistory ?q h \<noteq> None"
    using bridge_invD(2) [OF inv] kept by (simp add: forgotten_def)
  show "distinct (pending_hashes ?q a)" "None \<notin> set (pending_hashes ?q a)"
    using bridge_invD(3,7) [OF inv] unfolding q by simp_all
  show "a \<noteq> b \<Longrightarrow> x \<in> set (pending_hashes ?q a) \<Longrightarrow> x \<notin> set (pending_hashes ?q b)"
    using bridge_invD(4) [OF inv] unfolding q by (simp split: if_splits)
  show "Some h \<in> set (pending_hashes ?q a) \<Longrightarrow>
      DepositHistory ?q h \<noteq> None \<and> h \<notin> set (credited (BridgeEvents ?q))"
    using bridge_invD(5,6) [OF inv, of h a] gone [of h a] unfolding q by (simp add: forgotten_def split: if_splits)
qed

subsection \<open>The listeners of the assets pallet\<close>

abbreviation same_bridge :: "'z bridge_store_scheme world \<Rightarrow> 'z bridge_store_scheme world \<Rightarrow> bool" where
  "same_bridge w w' \<equiv> bridge_part w' = bridge_part w"

abbreviation keeps_bridge_inv :: "'z bridge_store_scheme world \<Rightarrow> 'z bridge_store_scheme world \<Rightarrow> bool" where
  "keeps_bridge_inv w w' \<equiv> bridge_inv (bridge_part w) \<longrightarrow> bridge_inv (bridge_part w')"

interpretation bridge_same: effect_order "same_bridge :: 'z bridge_store_scheme world \<Rightarrow> _"
  by unfold_locales auto

interpretation bridge_kept: effect_order "keeps_bridge_inv :: 'z bridge_store_scheme world \<Rightarrow> _"
  by unfold_locales auto

lemma bridge_part_fields [simp]:
  "BridgeEvents (bridge_part w) = BridgeEvents (pallet w)"
  "DepositHistory (bridge_part w) = DepositHistory (pallet w)"
  "PendingDepositList (bridge_part w) = PendingDepositList (pallet w)"
  by (simp_all add: bridge_part_def)

lemma keeps_pallet_same_bridge: "effects keeps_pallet m \<Longrightarrow> effects same_bridge m"
  by (simp add: effects_def bridge_part_def)

locale bridge_listener =
  hooked "same_bridge :: 'z bridge_store_scheme world \<Rightarrow> _" hk
  for hk :: "'z bridge_store_scheme hooks"
begin

lemma simple_deposit_Ok:
  assumes "simple_deposit_with_event hk a x h w = Ok u w'"
  shows "\<exists>d. bridge_part w' = (bridge_part w)\<lparr>DepositHistory := (DepositHistory (pallet w))(h \<mapsto> d),
    BridgeEvents := BridgeEvents (pallet w) @ [Deposited a x h]\<rparr>"
proof -
  let ?d = "\<lparr>dep_account_id = a, dep_tx_hash = None, dep_amount = x\<rparr>"
  let ?w1 = "w\<lparr>pallet := (pallet w)\<lparr>DepositHistory := (DepositHistory (pallet w))(h \<mapsto> ?d)\<rparr>\<rparr>"
  from assms obtain w2 where w2: "mint hk Root (BridgeAssetId (pallet w)) a x ?w1 = Ok () w2"
    and w': "w' = w2\<lparr>pallet := (pallet w2)\<lparr>BridgeEvents := BridgeEvents (pallet w2) @ [Deposited a x h]\<rparr>\<rparr>"
    by (auto simp: simple_deposit_with_event_def and_then_eq_Ok Let_def)
  have part: "bridge_part w2 = bridge_part ?w1"
    by (rule effects_Ok [OF mint_effects w2])
  have "BridgeEvents (pallet w2) = BridgeEvents (pallet w)"
    using arg_cong [OF part, of BridgeEvents] by simp
  with part show ?thesis
    by (intro exI [of _ ?d]) (simp add: w' bridge_part_def)
qed

lemma simple_deposit_Err:
  assumes "simple_deposit_with_event hk a x h w = Err e w'"
  shows "\<exists>d. bridge_part w' = (bridge_part w)\<lparr>DepositHistory := (DepositHistory (pallet w))(h \<mapsto> d)\<rparr>"
proof -
  let ?d = "\<lparr>dep_account_id = a, dep_tx_hash = None, dep_amount = x\<rparr>"
  let ?w1 = "w\<lparr>pallet := (pallet w)\<lparr>DepositHistory := (DepositHistory (pallet w))(h \<mapsto> ?d)\<rparr>\<rparr>"
  from assms have "mint hk Root (BridgeAssetId (pallet w)) a x ?w1 = Err e w'"
    by (auto simp: simple_deposit_with_event_def and_then_eq_Err Let_def)
  then have "bridge_part w' = bridge_part ?w1"
    by (rule effects_Err [OF mint_effects])
  then show ?thesis
    by (intro exI [of _ ?d]) (simp add: bridge_part_def)
qed

end

interpretation unit_listener: bridge_listener unit_hooks
  by unfold_locales
    (simp_all add: keeps_pallet_same_bridge frame_effects unit_hooks_def bridge_same.effects_return)

context bridge_listener
begin

text \<open>The loop of \<open>mark_white\<close>, with the deposits still to be credited held outside the storage.\<close>

lemma release_credited:
  assumes inv: "bridge_inv ((bridge_part w)\<lparr>PendingDepositList := (PendingDepositList (pallet w))(acc := d # ds)\<rparr>)"
    and h: "dep_tx_hash d = Some h"
    and run: "simple_deposit_with_event hk (dep_account_id d) (dep_amount d) h w = Ok u w2"
  shows "bridge_inv ((bridge_part w2)\<lparr>PendingDepositList := (PendingDepositList (pallet w2))(acc := ds)\<rparr>)"
    and "PendingDepositList (pallet w2) = PendingDepositList (pallet w)"
proof -
  from simple_deposit_Ok [OF run] obtain dep where part: "bridge_part w2 = (bridge_part w)
      \<lparr>DepositHistory := (DepositHistory (pallet w))(h \<mapsto> dep),
       BridgeEvents := BridgeEvents (pallet w) @ [Deposited (dep_account_id d) (dep_amount d) h]\<rparr>" by blast
  show pdl: "PendingDepositList (pallet w2) = PendingDepositList (pallet w)"
    using arg_cong [OF part, of PendingDepositList] by simp
  from bridge_inv_release [where p = "bridge_part w" and dep = dep and a = "dep_account_id d" and x = "dep_amount d",
      OF inv [folded bridge_part_fields(3)] h]
  show "bridge_inv ((bridge_part w2)\<lparr>PendingDepositList := (PendingDepositList (pallet w2))(acc := ds)\<rparr>)"
    by (subst bridge_inv_cong) (simp_all add: part pdl)
qed

lemma release_failed:
  assumes inv: "bridge_inv ((bridge_part w)\<lparr>PendingDepositList := (PendingDepositList (pallet w))(acc := d # ds)\<rparr>)"
    and run: "simple_deposit_with_event hk a x h w = Err e w2"
  shows "bridge_inv (bridge_part (w2\<lparr>pallet := (pallet w2)
    \<lparr>PendingDepositList := (PendingDepositList (pallet w2))(acc := d # ds)\<rparr>\<rparr>))"
proof -
  from simple_deposit_Err [OF run] obtain dep where part: "bridge_part w2 = (bridge_part w)
      \<lparr>DepositHistory := (DepositHistory (pallet w))(h \<mapsto> dep)\<rparr>" by blast
  have "PendingDepositList (pallet w2) = PendingDepositList (pallet w)"
    "DepositHistory (pallet w2) = (DepositHistory (pallet w))(h \<mapsto> dep)" "BridgeEvents (pallet w2) = BridgeEvents (pallet w)"
    using arg_cong [OF part, of PendingDepositList] arg_cong [OF part, of DepositHistory] arg_cong [OF part, of BridgeEvents]
    by simp_all
  then show ?thesis
    using bridge_inv_history [OF inv, of h dep] by (subst bridge_inv_cong) (simp_all add: fun_upd_def)
qed

lemma release_pendings_inv:
  assumes "bridge_inv ((bridge_part w)\<lparr>PendingDepositList := (PendingDepositList (pallet w))(acc := ds)\<rparr>)"
    and "PendingDepositList (pallet w) acc = []"
    and "final (release_pendings hk acc ds w) = Some w'"
  shows "bridge_inv (bridge_part w')"
  using assms
proof (induction ds arbitrary: w)
  case Nil
  then have "(PendingDepositList (pallet w))(acc := []) = PendingDepositList (pallet w)" by auto
  then have "(bridge_part w)\<lparr>PendingDepositList := (PendingDepositList (pallet w))(acc := [])\<rparr> = bridge_part w"
    by (simp add: bridge_part_def bridge_store.defs)
  with Nil(1) have "bridge_inv (bridge_part w)" by (simp only:)
  with Nil(3) show ?case by simp
next
  case (Cons d ds)
  let ?p = "(bridge_part w)\<lparr>PendingDepositList := (PendingDepositList (pallet w))(acc := d # ds)\<rparr>"
  have pend: "pending_hashes ?p acc = dep_tx_hash d # map dep_tx_hash ds" by simp
  with bridge_invD(7) [OF Cons.prems(1), of acc] obtain h where h: "dep_tx_hash d = Some h"
    by (metis list.set_intros(1) option.exhaust)
  show ?case
  proof (cases "simple_deposit_with_event hk (dep_account_id d) (dep_amount d) h w")
    case (Ok u w2)
    from Cons.IH [OF release_credited(1) [OF Cons.prems(1) h Ok]] Cons.prems(2,3) Ok h
      release_credited(2) [OF Cons.prems(1) h Ok] show ?thesis
      by (simp add: on_err_apply)
  next
    case (Err e w2)
    with Cons.prems(3) h have "w' = w2\<lparr>pallet := (pallet w2)\<lparr>PendingDepositList := (PendingDepositList (pallet w2))(acc := d # ds)\<rparr>\<rparr>"
      by (simp add: on_err_apply)
    with release_failed [OF Cons.prems(1) Err] show ?thesis by (simp only:)
  next
    case Panic
    with Cons.prems(3) h show ?thesis by (simp add: on_err_apply)
  qed
qed

lemma mark_white_inv: "effects keeps_bridge_inv (mark_white hk og acc)"
proof (rule effectsI, rule impI)
  fix w w' :: "'z bridge_store_scheme world"
  assume run: "final (mark_white hk og acc w) = Some w'" and inv: "bridge_inv (bridge_part w)"
  define ds where "ds = PendingDepositList (pallet w) acc"
  define w1 where "w1 = w\<lparr>pallet := (pallet w)\<lparr>PendingDepositList := (PendingDepositList (pallet w))(acc := [])\<rparr>\<rparr>"
  consider "w' = w"
    | "final (and_then (release_pendings hk acc ds) (\<lambda>_. mark_with_event acc White) w1) = Some w'"
    using run unfolding mark_white_def
    by (auto simp: ds_def w1_def and_then_apply split: origin.splits if_splits res.splits)
  then show "bridge_inv (bridge_part w')"
  proof cases
    case 2
    have "bridge_inv ((bridge_part w1)\<lparr>PendingDepositList := (PendingDepositList (pallet w1))(acc := ds)\<rparr>)"
      using inv by (simp add: w1_def ds_def bridge_part_def bridge_store.defs)
    note rel = release_pendings_inv [OF this]
    have "PendingDepositList (pallet w1) acc = []" by (simp add: w1_def)
    note rel = rel [OF this]
    show ?thesis
      using 2 rel by (cases "release_pendings hk acc ds w1") (auto simp: bridge_part_def)
  qed (use inv in simp)
qed

lemma deposit_inv: "effects keeps_bridge_inv (deposit hk og acc x h)"
proof (rule effectsI, rule impI)
  fix w w' :: "'z bridge_store_scheme world"
  assume run: "final (deposit hk og acc x h w) = Some w'" and inv: "bridge_inv (bridge_part w)"
  consider "w' = w" | "DepositHistory (pallet w) h = None" "final (hold_deposit_with_event acc x h w) = Some w'"
    | "DepositHistory (pallet w) h = None" "final (simple_deposit_with_event hk acc x h w) = Some w'"
    using run by (auto simp: deposit_def and_then_apply is_tx_seen_def split: origin.splits if_splits)
  then show "bridge_inv (bridge_part w')"
  proof cases
    case 2
    let ?d = "\<lparr>dep_account_id = acc, dep_tx_hash = Some h, dep_amount = x\<rparr>"
    from 2 have "bridge_part w' = (bridge_part w)
       \<lparr>PendingDepositList := (PendingDepositList (bridge_part w))(acc := PendingDepositList (bridge_part w) acc @ [?d]),
        DepositHistory := (DepositHistory (bridge_part w))(h \<mapsto> ?d\<lparr>dep_tx_hash := None\<rparr>)\<rparr>
       \<lparr>BridgeEvents := BridgeEvents (bridge_part w) @ [Pending acc x h]\<rparr>"
      by (auto simp: hold_deposit_with_event_def Let_def bridge_part_def)
    moreover have "bridge_inv ((bridge_part w)
       \<lparr>PendingDepositList := (PendingDepositList (bridge_part w))(acc := PendingDepositList (bridge_part w) acc @ [?d]),
        DepositHistory := (DepositHistory (bridge_part w))(h \<mapsto> ?d\<lparr>dep_tx_hash := None\<rparr>)\<rparr>)" (is "bridge_inv ?q")
      using 2 by (intro bridge_inv_hold [OF inv]) simp_all
    then have "bridge_inv (?q\<lparr>BridgeEvents := BridgeEvents ?q @ [Pending acc x h]\<rparr>)" by simp
    ultimately show ?thesis by simp
  next
    case 3
    have out: "h \<notin> set (credited (BridgeEvents (bridge_part w)))" "Some h \<notin> set (pending_hashes (bridge_part w) a)" for a
      using bridge_invD(2) [OF inv, of h] bridge_invD(5) [OF inv, of h a] 3(1) by auto
    show ?thesis
    proof (cases "simple_deposit_with_event hk acc x h w")
      case (Ok u w2)
      with simple_deposit_Ok [OF Ok] bridge_inv_credit [OF inv out] 3(2) show ?thesis by auto
    next
      case (Err e w2)
      with simple_deposit_Err [OF Err] bridge_inv_history [OF inv] 3(2) show ?thesis by auto
    qed (use 3 in simp)
  qed (use inv in simp)
qed

end

lemma forget_run:
  assumes "map dep_tx_hash ds = map Some hs"
  shows "for_each ds (\<lambda>v. and_then (unwrap (dep_tx_hash v)) (\<lambda>h.
      mutate (\<lambda>p. p\<lparr>DepositHistory := (DepositHistory p)(h := None)\<rparr>))) w
    = Ok () (w\<lparr>pallet := (pallet w)\<lparr>DepositHistory := forgotten (set hs) (DepositHistory (pallet w))\<rparr>\<rparr>)"
    (is "for_each ds ?F w = _")
  using assms
proof (induction ds arbitrary: w hs)
  case Nil
  then show ?case by (simp add: forgotten_def [abs_def])
next
  case (Cons d ds)
  then obtain h t where hs: "hs = h # t" "dep_tx_hash d = Some h" "map dep_tx_hash ds = map Some t"
    by (cases hs) auto
  have same: "forgotten (set t) ((DepositHistory (pallet w))(h := None)) = forgotten (set hs) (DepositHistory (pallet w))"
    by (auto simp: hs(1) forgotten_def)
  define w1 where "w1 = w\<lparr>pallet := (pallet w)\<lparr>DepositHistory := (DepositHistory (pallet w))(h := None)\<rparr>\<rparr>"
  have "?F d w = Ok () w1"
    using hs(2) by (simp add: w1_def)
  then have "for_each (d # ds) ?F w = for_each ds ?F w1"
    using and_then_Ok [where m = "?F d" and s = w and f = "\<lambda>_. for_each ds ?F"] by (simp only: for_each.simps)
  also note Cons.IH [OF hs(3), of w1]
  finally have "for_each (d # ds) ?F w = Ok () (w1\<lparr>pallet := (pallet w1)
      \<lparr>DepositHistory := forgotten (set t) (DepositHistory (pallet w1))\<rparr>\<rparr>)" .
  moreover have "w1\<lparr>pallet := (pallet w1)\<lparr>DepositHistory := forgotten (set t) (DepositHistory (pallet w1))\<rparr>\<rparr>
    = w\<lparr>pallet := (pallet w)\<lparr>DepositHistory := forgotten (set hs) (DepositHistory (pallet w))\<rparr>\<rparr>"
    by (simp add: same w1_def del: fun_upd_apply)
  ultimately show ?case by (simp only:)
qed

lemma mark_black_inv: "effects keeps_bridge_inv (mark_black og acc)"
proof (rule effectsI, rule impI)
  fix w w' :: "'z bridge_store_scheme world"
  assume run: "final (mark_black og acc w) = Some w'" and inv: "bridge_inv (bridge_part w)"
  define ds where "ds = PendingDepositList (pallet w) acc"
  have "None \<notin> set (map dep_tx_hash ds)"
    using bridge_invD(7) [OF inv, of acc] by (simp add: pending_hashes_def ds_def)
  then have "map dep_tx_hash ds = map Some (map (the \<circ> dep_tx_hash) ds)" (is "_ = map Some ?hs")
    by (auto simp: image_iff)
  note forget = forget_run [OF this]
  have ph: "set (map Some ?hs) = set (pending_hashes (bridge_part w) acc)"
    by (simp only: \<open>map dep_tx_hash ds = map Some ?hs\<close> [symmetric]) (simp add: pending_hashes_def ds_def)
  let ?q = "(bridge_part w)\<lparr>PendingDepositList := (PendingDepositList (bridge_part w))(acc := []),
    DepositHistory := forgotten (set ?hs) (DepositHistory (bridge_part w))\<rparr>"
  have q: "bridge_inv ?q" by (rule bridge_inv_forget [OF inv ph])
  have "w' = w \<or> (BridgeEvents (pallet w') = BridgeEvents ?q @ [AccountMarked acc Black] \<and>
      DepositHistory (pallet w') = DepositHistory ?q \<and> PendingDepositList (pallet w') = PendingDepositList ?q)"
    using run unfolding mark_black_def ds_def [symmetric]
    by (auto simp: forget ds_def [symmetric] and_then_apply forgotten_def [abs_def]
        split: origin.splits if_splits)
  moreover have "bridge_inv (?q\<lparr>BridgeEvents := BridgeEvents ?q @ [AccountMarked acc Black]\<rparr>)"
    using q by simp
  ultimately show "bridge_inv (bridge_part w')"
    using inv bridge_inv_cong [of "bridge_part w'" "?q\<lparr>BridgeEvents := BridgeEvents ?q @ [AccountMarked acc Black]\<rparr>"]
    by (elim disjE) (simp_all del: bridge_inv_irrelevant)
qed

lemma other_calls_bridge_inv:
  "effects keeps_bridge_inv (pause og)"
  "effects keeps_bridge_inv (resume og)"
  "effects keeps_bridge_inv (delete_admin og who)"
  "effects keeps_bridge_inv (update_admin og who auth)"
  by (rule effectsI; auto simp: pause_def resume_def delete_admin_def update_admin_def and_then_apply
      bridge_part_def split: if_splits)+

lemma same_bridge_keeps_inv: "effects same_bridge m \<Longrightarrow> effects keeps_bridge_inv m"
  by (simp add: effects_def)

lemma withdraw_parts_inv:
  "effects keeps_bridge_inv (make_transfer_with_event i a b x)"
  "effects keeps_bridge_inv (mutate (\<lambda>p. p\<lparr>PendingWithdraws := f p\<rparr>))"
  "credited [e] = [] \<Longrightarrow> effects keeps_bridge_inv (bridge_event e)"
  by (rule same_bridge_keeps_inv [OF keeps_pallet_same_bridge [OF make_transfer_with_event_keeps_pallet]])
    (auto intro!: effectsI simp: bridge_part_def)

lemma remove_pending_inv: "effects keeps_bridge_inv (remove_from_pending_withdraws who x)"
  unfolding remove_from_pending_withdraws_def
  by (intro bridge_kept.effects_intros withdraw_parts_inv)

lemma withdrawals_inv:
  "effects keeps_bridge_inv (refund og who x)"
  "effects keeps_bridge_inv (withdraw_finish og who x)"
  "effects keeps_bridge_inv (withdraw og who x)"
  unfolding refund_def withdraw_finish_def withdraw_def
  by (intro bridge_kept.effects_intros withdraw_parts_inv remove_pending_inv; simp)+

context bridge_listener
begin

lemma dispatch_bridge_inv: "effects keeps_bridge_inv (dispatch_bridge hk og c)"
  by (cases c) (simp_all add: other_calls_bridge_inv withdrawals_inv mark_black_inv mark_white_inv deposit_inv)

lemma bridge_reach_inv:
  assumes "bridge_reach hk w0 w" and "bridge_inv (bridge_part w0)"
  shows "bridge_inv (bridge_part w)"
  using assms
proof (induction rule: bridge_reach.induct)
  case (call w og c w')
  then show ?case using effectsD [OF dispatch_bridge_inv call.hyps(2)] by simp
next
  case (other w w')
  then show ?case
    by (simp add: same_deposits_def bridge_inv_cong [of "bridge_part w'" "bridge_part w"])
qed simp

end

section \<open>Supply\<close>

locale supply_listener =
  hooked "keeps_supply :: 'z bridge_store_scheme world \<Rightarrow> _" hk
  for hk :: "'z bridge_store_scheme hooks"
begin

lemmas bridge_supply_intros = effects_intros mutate_keeps_supply make_transfer_with_event_keeps_supply mint_effects

lemma simple_deposit_supply: "effects keeps_supply (simple_deposit_with_event hk a x h)"
  unfolding simple_deposit_with_event_def bridge_event_def by (intro bridge_supply_intros)

lemma release_pendings_supply: "effects keeps_supply (release_pendings hk acc ds)"
proof (induction ds)
  case Nil
  show ?case by (simp only: release_pendings.simps effects_return)
next
  case (Cons d ds)
  show ?case
    unfolding release_pendings.simps by (intro bridge_supply_intros simple_deposit_supply Cons.IH)
qed

lemma dispatch_bridge_supply: "effects keeps_supply (dispatch_bridge hk og c)"
  by (cases c; simp only: dispatch_bridge.simps pause_def resume_def delete_admin_def update_admin_def
      deposit_def hold_deposit_with_event_def refund_def withdraw_finish_def withdraw_def
      remove_from_pending_withdraws_def mark_black_def mark_white_def mark_with_event_def mark_def
      bridge_event_def; intro bridge_supply_intros simple_deposit_supply release_pendings_supply)

end

interpretation unit_supply: supply_listener unit_hooks
  by unfold_locales

section \<open>The vault\<close>

lemma pending_total_upd:
  assumes "PendingWithdraws (pallet w') = (PendingWithdraws (pallet w))(who := m)"
    and "(case m of Some v \<Rightarrow> v | None \<Rightarrow> []) = vs"
  shows "pending_total w' + sum_list (map unat (pending_withdraws w who))
    = pending_total w + sum_list (map unat vs)"
proof -
  have "(\<lambda>a. sum_list (map unat (pending_withdraws w' a)))
    = (\<lambda>a. sum_list (map unat (pending_withdraws w a)))(who := sum_list (map unat vs))"
    using assms by (auto simp: pending_withdraws_def)
  then show ?thesis
    using sum_update [of "\<lambda>a. sum_list (map unat (pending_withdraws w a))" who "sum_list (map unat vs)"]
    by (simp only: pending_total_def)
qed

lemma sum_list_remove1:
  "x \<in> set xs \<Longrightarrow> sum_list (map f (remove1 x xs)) + f x = (sum_list (map f xs) :: nat)"
  by (induction xs) auto

lemma pending_le_total: "x \<in> set (pending_withdraws w who) \<Longrightarrow> unat x \<le> pending_total w"
proof -
  assume "x \<in> set (pending_withdraws w who)"
  then have "unat x \<le> sum_list (map unat (pending_withdraws w who))"
    by (intro member_le_sum_list) auto
  also have "\<dots> \<le> pending_total w"
    unfolding pending_total_def by (rule sum_ge_member)
  finally show ?thesis .
qed

lemma vault_covers_remove:
  assumes cov: "vault_covers w" and x: "x \<in> set (pending_withdraws w who)"
    and w': "PendingWithdraws (pallet w') = (PendingWithdraws (pallet w))(who := m)"
      "(case m of Some v \<Rightarrow> v | None \<Rightarrow> []) = remove1 x (pending_withdraws w who)"
    and vault: "unat (vault_balance w) \<le> unat (vault_balance w') + unat x"
  shows "vault_covers w'"
  using pending_total_upd [OF w'] sum_list_remove1 [OF x, of unat] cov vault
  by (simp add: vault_covers_def)

lemma vault_covers_add:
  assumes cov: "vault_covers w"
    and w': "PendingWithdraws (pallet w') = (PendingWithdraws (pallet w))(who \<mapsto>
      (case PendingWithdraws (pallet w) who of Some v \<Rightarrow> v @ [x] | None \<Rightarrow> [x]))"
    and vault: "unat (vault_balance w') = unat (vault_balance w) + unat x"
  shows "vault_covers w'"
  using pending_total_upd [OF w', of "pending_withdraws w who @ [x]"] cov vault
  by (simp add: vault_covers_def pending_withdraws_def split: option.splits)

text \<open>The three calls on withdrawals, as equations.\<close>

lemma withdraw_apply:
  "withdraw og who amount w =
    (case og of Signed author \<Rightarrow>
       if \<not> has_auth w author AuthWithdraw then Err (Msg ''no withdraw auth'') w
       else (case make_transfer_with_event (BridgeAssetId (pallet w)) who (PendingWithdrawVault (pallet w)) amount w of
           Ok _ w1 \<Rightarrow> Ok () (w1\<lparr>pallet := (pallet w)
             \<lparr>PendingWithdraws := (PendingWithdraws (pallet w))(who \<mapsto> (case PendingWithdraws (pallet w) who of
                Some v \<Rightarrow> v @ [amount] | None \<Rightarrow> [amount])),
              BridgeEvents := BridgeEvents (pallet w) @ [PendingWithdraw who amount]\<rparr>\<rparr>)
         | r \<Rightarrow> r)
     | _ \<Rightarrow> Err BadOrigin w)"
  by (auto simp: withdraw_def make_transfer_with_event_sent split: origin.splits)

lemma refund_apply:
  "refund og who amount w =
    (case og of Signed author \<Rightarrow>
       if \<not> has_auth w author AuthRefund then Err (Msg ''no refund auth'') w
       else if amount \<notin> set (pending_withdraws w who) then Err (Msg ''pending withdraw not found'') w
       else (case make_transfer_with_event (BridgeAssetId (pallet w)) (PendingWithdrawVault (pallet w)) who amount w of
           Ok _ w1 \<Rightarrow> and_then (remove_from_pending_withdraws who amount) (\<lambda>_. bridge_event (Refund who amount)) w1
         | r \<Rightarrow> r)
     | _ \<Rightarrow> Err BadOrigin w)"
  by (auto simp: refund_def make_transfer_with_event_sent and_then_apply split: origin.splits res.splits)

lemma withdraw_vault:
  assumes ok: "supply_ok w" and cov: "vault_covers w" and who: "who \<noteq> PendingWithdrawVault (pallet w)"
    and run: "final (withdraw og who amount w) = Some w'"
  shows "vault_covers w'"
proof (cases "w' = w")
  case False
  let ?i = "BridgeAssetId (pallet w)" and ?v = "PendingWithdrawVault (pallet w)"
  from False run have funds: "amount \<le> FreeBalance w ?i who"
    and w': "w' = (sent w ?i who ?v amount)\<lparr>pallet := (pallet w)
      \<lparr>PendingWithdraws := (PendingWithdraws (pallet w))(who \<mapsto> (case PendingWithdraws (pallet w) who of
         Some v \<Rightarrow> v @ [amount] | None \<Rightarrow> [amount])),
       BridgeEvents := BridgeEvents (pallet w) @ [PendingWithdraw who amount]\<rparr>\<rparr>"
    by (auto simp: withdraw_apply make_transfer_with_event_sent not_less split: origin.splits if_splits)
  show ?thesis
    by (rule vault_covers_add [OF cov, of _ who amount])
      (use free_moved(1) [OF ok funds who] in \<open>simp_all add: w' vault_balance_def\<close>)
qed (use cov in simp)

lemma refund_vault:
  assumes ok: "supply_ok w" and cov: "vault_covers w" and run: "final (refund og who amount w) = Some w'"
  shows "vault_covers w'"
proof (cases "w' = w")
  case False
  let ?i = "BridgeAssetId (pallet w)" and ?v = "PendingWithdrawVault (pallet w)"
  define w1 where "w1 = sent w ?i ?v who amount"
  from False run have pend: "amount \<in> set (pending_withdraws w who)" and funds: "amount \<le> FreeBalance w ?i ?v"
    and step: "final (and_then (remove_from_pending_withdraws who amount) (\<lambda>_. bridge_event (Refund who amount)) w1) = Some w'"
    by (auto simp: refund_apply make_transfer_with_event_sent not_less w1_def split: origin.splits if_splits)
  have "pending_withdraws w1 who = pending_withdraws w who"
    by (simp add: w1_def pending_withdraws_def)
  with remove_from_pending_withdraws_apply [of amount w1 who] pend obtain m where
    m: "remove_from_pending_withdraws who amount w1
        = Ok () (w1\<lparr>pallet := (pallet w1)\<lparr>PendingWithdraws := (PendingWithdraws (pallet w1))(who := m)\<rparr>\<rparr>)"
      "(case m of Some v \<Rightarrow> v | None \<Rightarrow> []) = remove1 amount (pending_withdraws w who)" by auto
  from m(1) step have w': "w' = w1\<lparr>pallet := (pallet w1)\<lparr>PendingWithdraws := (PendingWithdraws (pallet w1))(who := m),
      BridgeEvents := BridgeEvents (pallet w1) @ [Refund who amount]\<rparr>\<rparr>" by auto
  have "unat (FreeBalance w ?i ?v) \<le> unat (FreeBalance w1 ?i ?v) + unat amount"
    using free_moved(2) [OF ok funds, of who] funds
    by (cases "?v = who") (auto simp: w1_def moved_def word_le_nat_alt)
  then show ?thesis
    by (intro vault_covers_remove [OF cov pend _ m(2)]) (simp_all add: w' w1_def vault_balance_def)
qed (use cov in simp)

lemma withdraw_finish_vault:
  assumes cov: "vault_covers w" and run: "final (withdraw_finish og who amount w) = Some w'"
  shows "vault_covers w'"
proof (cases "w' = w")
  case False
  with run have pend: "amount \<in> set (pending_withdraws w who)" and step:
    "final (and_then (remove_from_pending_withdraws who amount) (\<lambda>_. bridge_event (Withdraw who amount)) w) = Some w'"
    by (auto simp: withdraw_finish_def and_then_apply split: origin.splits if_splits res.splits)
  with remove_from_pending_withdraws_apply [of amount w who] obtain m where
    m: "w' = w\<lparr>pallet := (pallet w)\<lparr>PendingWithdraws := (PendingWithdraws (pallet w))(who := m),
        BridgeEvents := BridgeEvents (pallet w) @ [Withdraw who amount]\<rparr>\<rparr>"
      "(case m of Some v \<Rightarrow> v | None \<Rightarrow> []) = remove1 amount (pending_withdraws w who)" by auto
  show ?thesis
    by (rule vault_covers_remove [OF cov pend _ m(2)]) (simp_all add: m(1) vault_balance_def)
qed (use cov in simp)

text \<open>The other calls promise nothing to withdrawers and take nothing from the vault.\<close>

definition vault_grows :: "'z bridge_store_scheme world \<Rightarrow> 'z bridge_store_scheme world \<Rightarrow> bool" where
  "vault_grows w w' \<longleftrightarrow> PendingWithdraws (pallet w') = PendingWithdraws (pallet w) \<and>
     BridgeAssetId (pallet w') = BridgeAssetId (pallet w) \<and>
     PendingWithdrawVault (pallet w') = PendingWithdrawVault (pallet w) \<and> vault_balance w \<le> vault_balance w'"

interpretation grows: effect_order "vault_grows :: 'z bridge_store_scheme world \<Rightarrow> _"
  by unfold_locales (auto simp: vault_grows_def)

lemma vault_covers_grows: "vault_grows w w' \<Longrightarrow> vault_covers w \<Longrightarrow> vault_covers w'"
  by (auto simp: vault_grows_def vault_covers_def pending_total_def pending_withdraws_def word_le_nat_alt)

lemma mint_free_grows: "effects vault_grows (mint_free i who to amount)"
proof (rule effectsI)
  fix w w' :: "'z bridge_store_scheme world"
  assume "final (mint_free i who to amount w) = Some w'"
  then have "w' = w \<or> (unat (FreeBalance w i to) + unat amount < 2 ^ 128 \<and>
      w' = w\<lparr>TotalIssuance := (TotalIssuance w)(i := TotalIssuance w i + amount),
        FreeBalance := (FreeBalance w)(i := (FreeBalance w i)(to := FreeBalance w i to + amount))\<rparr>)"
    by (auto simp: mint_free_apply checked_add_def split: if_splits)
  then show "vault_grows w w'"
    by (auto simp: vault_grows_def vault_balance_def word_le_add)
qed

lemma simple_steps_grow:
  "effects vault_grows (deposit_event e)"
  "effects vault_grows (bridge_event ev)"
  "effects vault_grows (mutate (\<lambda>p. p\<lparr>DepositHistory := f1 p\<rparr>))"
  "effects vault_grows (mutate (\<lambda>p. p\<lparr>PendingDepositList := f2 p\<rparr>))"
  "effects vault_grows (mutate (\<lambda>p. p\<lparr>BwList := f3 p\<rparr>))"
  "effects vault_grows (mutate (\<lambda>p. p\<lparr>Admins := f4 p\<rparr>))"
  "effects vault_grows (mutate (\<lambda>p. p\<lparr>Paused := f5 p\<rparr>))"
  by (auto intro!: effectsI simp: vault_grows_def vault_balance_def deposit_event_apply)

lemma mint_grows: "effects vault_grows (mint unit_hooks og i to amount)"
  unfolding mint_def unit_hooks_def hooks.simps
  by (intro grows.effects_intros mint_free_grows simple_steps_grow)

lemma simple_deposit_grows: "effects vault_grows (simple_deposit_with_event unit_hooks a x h)"
  unfolding simple_deposit_with_event_def by (intro grows.effects_intros mint_grows simple_steps_grow)

lemma release_pendings_grows: "effects vault_grows (release_pendings unit_hooks acc ds)"
proof (induction ds)
  case Nil
  show ?case by (simp only: release_pendings.simps grows.effects_return)
next
  case (Cons d ds)
  show ?case
    unfolding release_pendings.simps
    by (intro grows.effects_intros simple_deposit_grows simple_steps_grow Cons.IH)
qed

lemma other_calls_grow:
  "effects vault_grows (pause og)"
  "effects vault_grows (resume og)"
  "effects vault_grows (delete_admin og who)"
  "effects vault_grows (update_admin og who auth)"
  "effects vault_grows (deposit unit_hooks og who x h)"
  "effects vault_grows (mark_black og who)"
  "effects vault_grows (mark_white unit_hooks og who)"
  unfolding pause_def resume_def delete_admin_def update_admin_def deposit_def hold_deposit_with_event_def
    mark_black_def mark_white_def mark_with_event_def mark_def
  by (intro grows.effects_intros simple_deposit_grows release_pendings_grows simple_steps_grow)+

lemma dispatch_bridge_vault:
  assumes "supply_ok w" and "vault_covers w" and "\<And>x. c \<noteq> CallWithdraw (PendingWithdrawVault (pallet w)) x"
    and "final (dispatch_bridge unit_hooks og c w) = Some w'"
  shows "vault_covers w'"
proof (cases c)
  case (CallRefund who x)
  with assms show ?thesis using refund_vault [of w og who x w'] by simp
next
  case (CallWithdraw who x)
  with assms show ?thesis using withdraw_vault [of w who og x w'] by auto
next
  case (CallWithdrawFinish who x)
  with assms show ?thesis using withdraw_finish_vault [of w og who x w'] by simp
qed (use assms in \<open>auto intro: vault_covers_grows dest!: other_calls_grow [THEN effectsD]\<close>)

section \<open>Releasing held deposits\<close>

lemma simple_deposit_run:
  assumes "Symbols w (BridgeAssetId (pallet w)) \<noteq> None"
    and "check_permission w (BridgeAssetId (pallet w)) (RootKey w) Mint" and ok: "supply_ok w"
    and room: "unat (TotalIssuance w (BridgeAssetId (pallet w))) + unat x < 2 ^ 128"
  shows "\<exists>w' d. simple_deposit_with_event unit_hooks a x h w = Ok () w' \<and> supply_ok w' \<and>
    pallet w' = (pallet w)\<lparr>DepositHistory := (DepositHistory (pallet w))(h \<mapsto> d),
      BridgeEvents := BridgeEvents (pallet w) @ [Deposited a x h]\<rparr> \<and>
    TotalIssuance w' (BridgeAssetId (pallet w)) = TotalIssuance w (BridgeAssetId (pallet w)) + x \<and>
    FreeBalance w' = (FreeBalance w)(BridgeAssetId (pallet w) := (FreeBalance w (BridgeAssetId (pallet w)))
      (a := FreeBalance w (BridgeAssetId (pallet w)) a + x)) \<and>
    Symbols w' = Symbols w \<and> Permissions w' = Permissions w \<and> RootKey w' = RootKey w"
proof -
  let ?i = "BridgeAssetId (pallet w)"
  let ?d = "\<lparr>dep_account_id = a, dep_tx_hash = None, dep_amount = x\<rparr>"
  let ?w1 = "w\<lparr>pallet := (pallet w)\<lparr>DepositHistory := (DepositHistory (pallet w))(h \<mapsto> ?d)\<rparr>\<rparr>"
  have "unat (FreeBalance w ?i a) + unat x < 2 ^ 128"
    using room free_le_issuance [OF ok, of ?i a] by (simp add: word_le_nat_alt)
  then have "mint_free ?i (RootKey w) a x ?w1 = Ok () (?w1\<lparr>
      TotalIssuance := (TotalIssuance w)(?i := TotalIssuance w ?i + x),
      FreeBalance := (FreeBalance w)(?i := (FreeBalance w ?i)(a := FreeBalance w ?i a + x))\<rparr>)"
    using assms by (simp add: mint_free_apply checked_add_def check_permission_def)
  then have "simple_deposit_with_event unit_hooks a x h w = Ok () (?w1\<lparr>
      TotalIssuance := (TotalIssuance w)(?i := TotalIssuance w ?i + x),
      FreeBalance := (FreeBalance w)(?i := (FreeBalance w ?i)(a := FreeBalance w ?i a + x)),
      AssetsEvents := AssetsEvents w @ [Minted ?i a x],
      pallet := (pallet ?w1)\<lparr>BridgeEvents := BridgeEvents (pallet w) @ [Deposited a x h]\<rparr>\<rparr>)"
    by (simp add: simple_deposit_with_event_def Let_def mint_def unit_hooks_def deposit_event_apply
        unwrap_or_default_apply)
  with supply_ok_credit [OF ok assms(1) room, of a] show ?thesis by auto
qed

text \<open>What a list of deposits brings to an account.\<close>

definition amount_for :: "account_id \<Rightarrow> Deposit list \<Rightarrow> nat" where
  "amount_for a ds = sum_list (map (unat \<circ> dep_amount) (filter (\<lambda>d. dep_account_id d = a) ds))"

lemma release_run:
  assumes "Symbols w (BridgeAssetId (pallet w)) \<noteq> None"
    and "check_permission w (BridgeAssetId (pallet w)) (RootKey w) Mint" and "supply_ok w"
    and "\<forall>d \<in> set ds. dep_tx_hash d \<noteq> None"
    and "unat (TotalIssuance w (BridgeAssetId (pallet w))) + sum_list (map (unat \<circ> dep_amount) ds) < 2 ^ 128"
  shows "\<exists>w'. release_pendings unit_hooks acc ds w = Ok () w' \<and> supply_ok w' \<and>
    unat (TotalIssuance w' (BridgeAssetId (pallet w)))
      = unat (TotalIssuance w (BridgeAssetId (pallet w))) + sum_list (map (unat \<circ> dep_amount) ds) \<and>
    (\<forall>a. unat (FreeBalance w' (BridgeAssetId (pallet w)) a) = unat (FreeBalance w (BridgeAssetId (pallet w)) a) + amount_for a ds) \<and>
    (\<forall>j. j \<noteq> BridgeAssetId (pallet w) \<longrightarrow> FreeBalance w' j = FreeBalance w j) \<and>
    PendingDepositList (pallet w') = PendingDepositList (pallet w) \<and>
    credited (BridgeEvents (pallet w')) = credited (BridgeEvents (pallet w)) @ map (the \<circ> dep_tx_hash) ds"
  using assms
proof (induction ds arbitrary: w)
  case (Cons d ds)
  let ?i = "BridgeAssetId (pallet w)"
  obtain h where h: "dep_tx_hash d = Some h" using Cons.prems(4) by auto
  have fits: "unat (TotalIssuance w ?i) + unat (dep_amount d) < 2 ^ 128" using Cons.prems(5) by simp
  from simple_deposit_run [OF Cons.prems(1-3) fits, of "dep_account_id d" h] obtain w1 e where
    w1: "simple_deposit_with_event unit_hooks (dep_account_id d) (dep_amount d) h w = Ok () w1" "supply_ok w1"
      "pallet w1 = (pallet w)\<lparr>DepositHistory := (DepositHistory (pallet w))(h \<mapsto> e),
        BridgeEvents := BridgeEvents (pallet w) @ [Deposited (dep_account_id d) (dep_amount d) h]\<rparr>"
      "TotalIssuance w1 ?i = TotalIssuance w ?i + dep_amount d"
      "FreeBalance w1 = (FreeBalance w)(?i := (FreeBalance w ?i)(dep_account_id d := FreeBalance w ?i (dep_account_id d) + dep_amount d))"
      "Symbols w1 = Symbols w" "Permissions w1 = Permissions w" "RootKey w1 = RootKey w" by blast
  have ti: "unat (TotalIssuance w1 ?i) = unat (TotalIssuance w ?i) + unat (dep_amount d)"
    using fits by (simp add: w1(4) unat_plus)
  have "unat (FreeBalance w ?i (dep_account_id d)) + unat (dep_amount d) < 2 ^ 128"
    using fits free_le_issuance [OF Cons.prems(3), of ?i "dep_account_id d"] by (simp add: word_le_nat_alt)
  then have bal: "unat (FreeBalance w1 ?i a) + amount_for a ds = unat (FreeBalance w ?i a) + amount_for a (d # ds)" for a
    by (simp add: w1(5) unat_plus amount_for_def)
  have i: "BridgeAssetId (pallet w1) = ?i" by (simp add: w1(3))
  have pre: "Symbols w1 ?i \<noteq> None" "check_permission w1 ?i (RootKey w1) Mint" "\<forall>d \<in> set ds. dep_tx_hash d \<noteq> None"
    "unat (TotalIssuance w1 ?i) + sum_list (map (unat \<circ> dep_amount) ds) < 2 ^ 128"
    using Cons.prems(1,2,4,5) ti by (simp_all add: w1(6-8) check_permission_def comp_def)
  obtain w' where w': "release_pendings unit_hooks acc ds w1 = Ok () w'" "supply_ok w'"
    "unat (TotalIssuance w' ?i) = unat (TotalIssuance w1 ?i) + sum_list (map (unat \<circ> dep_amount) ds)"
    "\<forall>a. unat (FreeBalance w' ?i a) = unat (FreeBalance w1 ?i a) + amount_for a ds"
    "\<forall>j. j \<noteq> ?i \<longrightarrow> FreeBalance w' j = FreeBalance w1 j"
    "PendingDepositList (pallet w') = PendingDepositList (pallet w1)"
    "credited (BridgeEvents (pallet w')) = credited (BridgeEvents (pallet w1)) @ map (the \<circ> dep_tx_hash) ds"
    using Cons.IH [of w1, unfolded i, OF pre(1,2) w1(2) pre(3,4)] by blast
  have "release_pendings unit_hooks acc (d # ds) w = Ok () w'" using w1(1) w'(1) h by (simp add: on_err_apply)
  then show ?case
    using w'(2-7) ti bal by (intro exI [of _ w']) (simp add: w1(3,5) h comp_def)
qed (simp add: amount_for_def)

section \<open>Properties\<close>

text \<open>A storage of the bridge with one administrator, account 2, over the pallets below.\<close>

definition demo_bridge :: bridge_store where
  "demo_bridge = bridge_genesis 10 1000 [(2, AuthAll)] 8
     \<lparr>FeeAccountId = 9, FeeEvents = [], NextFeeMultiplier = 0, Oracles = [], WitnessReport = \<lambda>_. 0,
      CurrentPrice = 0, PriceReports = [], PriceEvents = [], BridgeAssetId = 0, Paused = False,
      BwList = \<lambda>_. None, Threshold = 0, Admins = \<lambda>_. None, PendingDepositList = \<lambda>_. [],
      DepositHistory = \<lambda>_. None, PendingWithdraws = \<lambda>_. None, PendingWithdrawVault = 0, BridgeEvents = []\<rparr>"

lemma demo_bridge_simps [simp]:
  "BridgeAssetId demo_bridge = 10" "Threshold demo_bridge = 1000" "PendingWithdrawVault demo_bridge = 8"
  "Admins demo_bridge = [2 \<mapsto> AuthAll]" "DepositHistory demo_bridge = (\<lambda>_. None)"
  "BwList demo_bridge = (\<lambda>_. None)" "PendingDepositList demo_bridge = (\<lambda>_. [])"
  "PendingWithdraws demo_bridge = (\<lambda>_. None)" "BridgeEvents demo_bridge = []"
  by (auto simp: demo_bridge_def bridge_genesis_def)

text \<open>C4: no deposit is credited twice. Starting from the genesis of the bridge, after any sequence
  of bridge calls by any origin, successful or failing, interleaved with anything other pallets
  do, the transaction hashes of the credited deposits are pairwise distinct, and each of them is
  still in the history that rejects it when it is submitted again.\<close>

theorem deposit_credited_once:
  assumes "pallet w0 = bridge_genesis i threshold admins vault p"
    and "bridge_reach unit_hooks w0 w"
  shows "distinct (credited (BridgeEvents (pallet w))) \<and>
    (\<forall>h \<in> set (credited (BridgeEvents (pallet w))). is_tx_seen w h)"
proof -
  have "bridge_inv (bridge_part w)"
    using unit_listener.bridge_reach_inv [OF assms(2)] bridge_inv_genesis [of i threshold admins vault p] assms(1)
    by (simp add: bridge_part_def)
  from bridge_invD(1,2) [OF this] show ?thesis by (simp add: is_tx_seen_def)
qed

theorem deposit_credited_once_witness:
  "\<exists>w. bridge_reach unit_hooks (demo_world [(10, 500)] demo_bridge) w \<and>
     credited (BridgeEvents (pallet w)) = [42] \<and>
     distinct (credited (BridgeEvents (pallet w))) \<and> (\<forall>h \<in> set (credited (BridgeEvents (pallet w))). is_tx_seen w h)"
proof -
  let ?w = "demo_world [(10, 500)] demo_bridge"
  obtain w where w: "deposit unit_hooks (Signed 2) 3 100 42 ?w = Ok () w" "credited (BridgeEvents (pallet w)) = [42]"
    by (simp add: deposit_def is_tx_seen_def has_auth_def check_list_def simple_deposit_with_event_def Let_def
        mint_def unit_hooks_def mint_free_apply checked_add_def deposit_event_apply unwrap_or_default_apply
        check_permission_def demo_world_def genesis_world_def)
  have reach: "bridge_reach unit_hooks ?w w"
    by (rule bridge_reach.call [OF bridge_reach.start, where og = "Signed 2" and c = "CallDeposit 3 100 42"])
      (simp add: w(1))
  have "pallet ?w = bridge_genesis 10 1000 [(2, AuthAll)] 8 demo_bridge"
    by (simp add: demo_bridge_def bridge_genesis_def)
  from deposit_credited_once [OF this reach] reach w(2) show ?thesis by auto
qed

text \<open>C28: a pending withdrawal can always be refunded. When an administrator with the right
  authority refunds an amount that is pending for an account, the refund succeeds as long as the
  vault covers the pending withdrawals and the asset can be transferred; the account receives
  exactly the amount, the vault pays exactly the amount, and exactly one occurrence of the amount
  leaves the pending list.\<close>

theorem refund_pays:
  assumes ok: "supply_ok w" and cov: "vault_covers w" and auth: "has_auth w author AuthRefund"
    and pend: "x \<in> set (pending_withdraws w who)" and who: "who \<noteq> PendingWithdrawVault (pallet w)"
    and asset: "Symbols w (BridgeAssetId (pallet w)) \<noteq> None"
      "Restrictions w (BridgeAssetId (pallet w)) Transferable = None"
  shows "\<exists>w'. refund (Signed author) who x w = Ok () w' \<and>
    pending_withdraws w' who = remove1 x (pending_withdraws w who) \<and>
    unat (FreeBalance w' (BridgeAssetId (pallet w)) who) = unat (FreeBalance w (BridgeAssetId (pallet w)) who) + unat x \<and>
    unat (vault_balance w') + unat x = unat (vault_balance w)"
proof -
  let ?i = "BridgeAssetId (pallet w)" and ?v = "PendingWithdrawVault (pallet w)"
  have funds: "x \<le> FreeBalance w ?i ?v"
    using pending_le_total [OF pend] cov by (simp add: vault_covers_def vault_balance_def word_le_nat_alt)
  define w1 where "w1 = sent w ?i ?v who x"
  have "pending_withdraws w1 who = pending_withdraws w who" by (simp add: w1_def pending_withdraws_def)
  with remove_from_pending_withdraws_apply [of x w1 who] pend obtain m where
    m: "remove_from_pending_withdraws who x w1
        = Ok () (w1\<lparr>pallet := (pallet w1)\<lparr>PendingWithdraws := (PendingWithdraws (pallet w1))(who := m)\<rparr>\<rparr>)"
      "(case m of Some v \<Rightarrow> v | None \<Rightarrow> []) = remove1 x (pending_withdraws w who)" by auto
  define w' where "w' = w1\<lparr>pallet := (pallet w1)\<lparr>PendingWithdraws := (PendingWithdraws (pallet w1))(who := m),
      BridgeEvents := BridgeEvents (pallet w1) @ [Refund who x]\<rparr>\<rparr>"
  have "make_transfer_with_event ?i ?v who x w = Ok () w1"
    using asset funds by (simp add: make_transfer_with_event_sent not_less w1_def)
  then have "refund (Signed author) who x w = Ok () w'"
    using auth pend m(1) by (simp add: refund_apply w'_def)
  moreover have "pending_withdraws w' who = remove1 x (pending_withdraws w who)"
    using m(2) by (simp add: pending_withdraws_def w'_def)
  moreover have "unat (FreeBalance w' ?i who) = unat (FreeBalance w ?i who) + unat x"
    using free_moved(1) [OF ok funds, of who] who by (simp add: w1_def w'_def)
  moreover have "unat (vault_balance w') + unat x = unat (vault_balance w)"
    using free_moved(2) [OF ok funds, of who] who funds
    by (simp add: w1_def w'_def vault_balance_def word_le_nat_alt)
  ultimately show ?thesis by blast
qed

theorem refund_pays_witness:
  "\<exists>w w'. withdraw (Signed 2) 1 200 (demo_world [(10, 500)] demo_bridge) = Ok () w \<and>
     refund (Signed 2) 1 200 w = Ok () w' \<and> pending_withdraws w' 1 = [] \<and> unat (FreeBalance w' 10 1) = 500"
proof -
  let ?w = "demo_world [(10, 500)] demo_bridge"
  obtain w where w: "withdraw (Signed 2) 1 200 ?w = Ok () w" and eq: "pending_withdraws w 1 = [200]"
    "pallet w = demo_bridge\<lparr>PendingWithdraws := [1 \<mapsto> [200]], BridgeEvents := [PendingWithdraw 1 200]\<rparr>"
    "FreeBalance w 10 1 = 300" "Symbols w 10 \<noteq> None" "Restrictions w 10 Transferable = None"
    by (simp add: withdraw_apply has_auth_def make_transfer_with_event_sent pending_withdraws_def moved_def)
  have run: "final (withdraw (Signed 2) 1 200 ?w) = Some w" by (simp add: w)
  have "vault_covers ?w" by (simp add: vault_covers_def pending_total_def pending_withdraws_def)
  then have cov: "vault_covers w" using withdraw_vault [OF supply_ok_demo _ _ run] by simp
  have ok: "supply_ok w"
    using effectsD [OF unit_supply.dispatch_bridge_supply, of "Signed 2" "CallWithdraw 1 200" ?w w] run
      supply_ok_demo [of "[(10, 500)]" demo_bridge]
    by simp
  from refund_pays [OF ok cov, of 2 200 1] eq w show ?thesis by (auto simp: has_auth_def)
qed

text \<open>C29: a deposit of at least the threshold to an account that is not on the white list is held: it
  succeeds, is appended to the pending deposits of the account, enters the history, and changes
  no balance and no issuance.\<close>

theorem large_deposit_held:
  assumes "\<not> is_tx_seen w h" and "has_auth w who AuthDeposit" and "Threshold (pallet w) \<le> x"
    and "check_list w acc \<noteq> Some White"
  shows "\<exists>w'. deposit hk (Signed who) acc x h w = Ok () w' \<and> is_tx_seen w' h \<and>
    PendingDepositList (pallet w') acc = PendingDepositList (pallet w) acc @
      [\<lparr>dep_account_id = acc, dep_tx_hash = Some h, dep_amount = x\<rparr>] \<and>
    FreeBalance w' = FreeBalance w \<and> TotalIssuance w' = TotalIssuance w"
proof -
  have "check_list w acc = None \<or> check_list w acc = Some Black"
    using assms(4) by (metis BlackOrWhite.exhaust option.exhaust)
  with assms(1-3) show ?thesis
    by (auto simp: deposit_def hold_deposit_with_event_def Let_def is_tx_seen_def)
qed

theorem large_deposit_held_witness:
  "\<exists>w'. deposit unit_hooks (Signed 2) 3 5000 42 (demo_world [(10, 500)] demo_bridge) = Ok () w' \<and> is_tx_seen w' 42 \<and>
     PendingDepositList (pallet w') 3 = [\<lparr>dep_account_id = 3, dep_tx_hash = Some 42, dep_amount = 5000\<rparr>]"
  using large_deposit_held [of "demo_world [(10, 500)] demo_bridge" 42 2 5000 3 unit_hooks]
  by (auto simp: is_tx_seen_def has_auth_def check_list_def)

text \<open>C30: releasing held deposits credits each of them once. When an administrator marks an account
  white, every pending deposit in its list is minted to the account the deposit names: the balance of every
  account grows by exactly what the released deposits bring it, the issuance by their sum, and no
  other asset moves. The deposits are credited in order, the pending list is emptied and the account is on the white
  list, provided the mints cannot fail.\<close>

theorem mark_white_credits_all:
  assumes auth: "has_auth w who AuthMark" and asset: "Symbols w (BridgeAssetId (pallet w)) \<noteq> None"
    and perm: "check_permission w (BridgeAssetId (pallet w)) (RootKey w) Mint" and ok: "supply_ok w"
    and ds: "PendingDepositList (pallet w) acc = ds" "\<forall>d \<in> set ds. dep_tx_hash d \<noteq> None"
    and room: "unat (TotalIssuance w (BridgeAssetId (pallet w))) + sum_list (map (unat \<circ> dep_amount) ds) < 2 ^ 128"
  shows "\<exists>w'. mark_white unit_hooks (Signed who) acc w = Ok () w' \<and> supply_ok w' \<and>
    unat (TotalIssuance w' (BridgeAssetId (pallet w)))
      = unat (TotalIssuance w (BridgeAssetId (pallet w))) + sum_list (map (unat \<circ> dep_amount) ds) \<and>
    (\<forall>a. unat (FreeBalance w' (BridgeAssetId (pallet w)) a) = unat (FreeBalance w (BridgeAssetId (pallet w)) a) + amount_for a ds) \<and>
    (\<forall>j. j \<noteq> BridgeAssetId (pallet w) \<longrightarrow> FreeBalance w' j = FreeBalance w j) \<and>
    PendingDepositList (pallet w') acc = [] \<and> check_list w' acc = Some White \<and>
    credited (BridgeEvents (pallet w')) = credited (BridgeEvents (pallet w)) @ map (the \<circ> dep_tx_hash) ds"
proof -
  let ?w1 = "w\<lparr>pallet := (pallet w)\<lparr>PendingDepositList := (PendingDepositList (pallet w))(acc := [])\<rparr>\<rparr>"
  have perm1: "check_permission ?w1 (BridgeAssetId (pallet ?w1)) (RootKey ?w1) Mint"
    using perm by (simp add: check_permission_def)
  have pre: "Symbols ?w1 (BridgeAssetId (pallet ?w1)) \<noteq> None" "supply_ok ?w1"
    "unat (TotalIssuance ?w1 (BridgeAssetId (pallet ?w1))) + sum_list (map (unat \<circ> dep_amount) ds) < 2 ^ 128"
    using asset ok room by simp_all
  obtain w2 where w2: "release_pendings unit_hooks acc ds ?w1 = Ok () w2" "supply_ok w2"
    "unat (TotalIssuance w2 (BridgeAssetId (pallet w)))
      = unat (TotalIssuance w (BridgeAssetId (pallet w))) + sum_list (map (unat \<circ> dep_amount) ds)"
    "\<forall>a. unat (FreeBalance w2 (BridgeAssetId (pallet w)) a) = unat (FreeBalance w (BridgeAssetId (pallet w)) a) + amount_for a ds"
    "\<forall>j. j \<noteq> BridgeAssetId (pallet w) \<longrightarrow> FreeBalance w2 j = FreeBalance w j"
    "PendingDepositList (pallet w2) acc = []"
    "credited (BridgeEvents (pallet w2)) = credited (BridgeEvents (pallet w)) @ map (the \<circ> dep_tx_hash) ds"
    using release_run [OF pre(1) perm1 pre(2) ds(2) pre(3), of acc] by auto
  then have "mark_white unit_hooks (Signed who) acc w = Ok () (w2\<lparr>pallet := (pallet w2)
      \<lparr>BwList := (BwList (pallet w2))(acc \<mapsto> White), BridgeEvents := BridgeEvents (pallet w2) @ [AccountMarked acc White]\<rparr>\<rparr>)"
    using auth ds(1) by (simp add: mark_white_def)
  with w2 show ?thesis by (simp add: check_list_def)
qed

theorem mark_white_credits_all_witness:
  "\<exists>w w'. deposit unit_hooks (Signed 2) 3 5000 42 (demo_world [(10, 500)] demo_bridge) = Ok () w \<and>
     mark_white unit_hooks (Signed 2) 3 w = Ok () w' \<and> unat (TotalIssuance w' 10) = 5500 \<and> unat (FreeBalance w' 10 3) = 5000 \<and>
     credited (BridgeEvents (pallet w')) = [42]"
proof -
  let ?w = "demo_world [(10, 500)] demo_bridge"
  obtain w where w: "deposit unit_hooks (Signed 2) 3 5000 42 ?w = Ok () w"
    and eq: "has_auth w 2 AuthMark" "Symbols w (BridgeAssetId (pallet w)) \<noteq> None" "BridgeAssetId (pallet w) = 10"
      "check_permission w (BridgeAssetId (pallet w)) (RootKey w) Mint" "TotalIssuance w 10 = 500" "FreeBalance w 10 3 = 0"
      "PendingDepositList (pallet w) 3 = [\<lparr>dep_account_id = 3, dep_tx_hash = Some 42, dep_amount = 5000\<rparr>]"
      "credited (BridgeEvents (pallet w)) = []" "supply_ok w"
    using supply_ok_demo [of "[(10, 500)]" demo_bridge]
    by (simp add: deposit_def hold_deposit_with_event_def Let_def is_tx_seen_def has_auth_def check_list_def
        check_permission_def) (simp add: demo_world_def genesis_world_def)
  from mark_white_credits_all [OF eq(1,2,4,9,7)] eq(3,5,6,8) w show ?thesis by (auto simp: amount_for_def)
qed

end
