(* ===== verification/Loan.thy ===== *)
theory Loan
  imports Bridge
begin

text \<open>
  The pallet \<^verbatim>\<open>modules/rio-loan\<close>: loan packages, loans against a collateral asset, further
  drawing, repayment, liquidation, and the health check of every loan at the start of a block.
  The order in which the storage lists the loans is an argument of the block hook. The hooks of
  the assets pallet, which mints and burns run, are an argument too.
\<close>

section \<open>Types\<close>

definition INTEREST_RATE_PREC :: u32 where "INTEREST_RATE_PREC = 100000000"
definition LTV_PREC :: u32 where "LTV_PREC = 10000"
definition PRICE_PREC :: u32 where "PRICE_PREC = PRICE_PRECISION"
definition TERMS_UNIT :: u32 where "TERMS_UNIT = 86400"
definition DUE_EXTEND :: u32 where "DUE_EXTEND = 2"

type_synonym loan_package_id = u64
type_synonym loan_id = u64
type_synonym credit_line_id = u64
type_synonym ltv = u64

datatype LoanHealth = Well | Warning ltv | Liquidating ltv | Extended | Expired

datatype LoanPackageStatus = Active | Inactive

record CollateralLoan =
  cl_collateral_amount :: balance
  cl_loan_amount :: balance

record LoanPackage =
  pkg_id :: loan_package_id
  pkg_status :: LoanPackageStatus
  pkg_terms :: u32
  pkg_min :: balance
  interest_rate_hourly :: u32
  pkg_collateral_asset_id :: asset_id
  pkg_loan_asset_id :: asset_id

record Loan =
  loan_loan_id :: loan_id
  loan_package_id :: loan_package_id
  loan_who :: account_id
  loan_due :: moment
  loan_due_extend :: moment
  collateral_balance_original :: balance
  collateral_balance_available :: balance
  loan_balance_total :: balance
  loan_status :: LoanHealth

record CreditLine =
  credit_line_id :: credit_line_id
  credit_line_ltv :: ltv
  credit_line_amount :: balance
  credit_line_price :: price
  credit_line_credit :: balance
  credit_line_asset_id :: asset_id

definition default_package :: LoanPackage where
  "default_package = \<lparr>pkg_id = 0, pkg_status = Active, pkg_terms = 0, pkg_min = 0,
     interest_rate_hourly = 0, pkg_collateral_asset_id = 0, pkg_loan_asset_id = 0\<rparr>"

definition default_loan :: Loan where
  "default_loan = \<lparr>loan_loan_id = 0, loan_package_id = 0, loan_who = 0, loan_due = 0, loan_due_extend = 0,
     collateral_balance_original = 0, collateral_balance_available = 0, loan_balance_total = 0,
     loan_status = Well\<rparr>"

definition get_interest :: "LoanPackage \<Rightarrow> balance \<Rightarrow> balance" where
  "get_interest pk amount =
     amount * ucast (pkg_terms pk) * 24 * ucast (interest_rate_hourly pk) div ucast INTEREST_RATE_PREC"

definition get_dues :: "LoanPackage \<Rightarrow> moment \<Rightarrow> moment \<times> moment" where
  "get_dues pk now =
     (let due = now + ucast TERMS_UNIT * ucast (pkg_terms pk) * 1000;
          due_extend = due + ucast DUE_EXTEND * ucast TERMS_UNIT * 1000
      in (due, due_extend))"

definition get_ltv :: "balance \<Rightarrow> balance \<Rightarrow> price \<Rightarrow> ('s, ltv) op" where
  "get_ltv collateral_amount loan_amount btc_price =
     and_then (udiv (loan_amount * ucast PRICE_PREC * ucast LTV_PREC) (collateral_amount * btc_price))
       (\<lambda>l. unwrap (try_into_u64 l))"

definition expiration_penalty :: "Loan \<Rightarrow> u32 \<Rightarrow> price \<Rightarrow> ('s, balance) op" where
  "expiration_penalty ln penalty_rate btc_price =
     udiv (loan_balance_total ln * ucast PRICE_PREC * ucast penalty_rate div ucast LTV_PREC) btc_price"

definition expiration_interest :: "Loan \<Rightarrow> LoanPackage \<Rightarrow> price \<Rightarrow> ('s, balance) op" where
  "expiration_interest ln pk btc_price =
     udiv (get_interest pk (loan_balance_total ln) * ucast PRICE_PREC) btc_price"

definition expire_then_update :: "Loan \<Rightarrow> LoanPackage \<Rightarrow> moment \<Rightarrow> balance \<Rightarrow> balance \<Rightarrow> Loan" where
  "expire_then_update ln pk now penalty interest =
     (let fee = interest + penalty;
          left = (case checked_sub (collateral_balance_available ln) fee of Some b \<Rightarrow> b | None \<Rightarrow> 0);
          (due, due_extend) = get_dues pk now
      in ln\<lparr>collateral_balance_available := left, loan_due := due, loan_due_extend := due_extend,
            loan_status := Well\<rparr>)"

section \<open>Storage\<close>

datatype LoanEvent =
    PackageCreated loan_package_id
  | PackageDisabled loan_package_id
  | LoanCreated Loan
  | LoanDrawn loan_id balance
  | LoanRepaid loan_id balance balance
  | LoanExpired loan_id account_id balance balance
  | LoanExtended loan_id account_id
  | LoanWarning loan_id ltv
  | LoanLiquidating loan_id account_id balance balance
  | LoanLiquidated loan_id balance balance balance balance balance
  | AddCollateral loan_id balance

record loan_store = bridge_store +
  PawnShop :: account_id
  LoanProfitPool :: account_id
  CollateralAssetId :: asset_id
  LoanAssetId :: asset_id
  GlobalLTVLimit :: ltv
  GlobalLiquidationThreshold :: ltv
  GlobalWarningThreshold :: ltv
  NextLoanPackageId :: loan_package_id
  ActiveLoanPackages :: "loan_package_id \<Rightarrow> LoanPackage option"
  LoanPackages :: "loan_package_id \<Rightarrow> LoanPackage option"
  NextLoanId :: loan_id
  Loans :: "loan_id \<Rightarrow> Loan option"
  LoansByAccount :: "account_id \<Rightarrow> loan_id list"
  CurrentBTCPrice :: price
  TotalLoan :: balance
  TotalCollateral :: balance
  TotalProfit :: balance
  PenaltyRate :: u32
  LiquidationAccount :: account_id
  LiquidatingLoans :: "loan_id list option"
  LoanCap :: "balance option"
  LoanPaused :: bool
  MinimumCollateral :: balance
  LiquidationPenalty :: u32
  LoanEvents :: "LoanEvent list"

definition loan_event :: "LoanEvent \<Rightarrow> ('z loan_store_scheme world, unit) op" where
  "loan_event e = mutate (\<lambda>p. p\<lparr>LoanEvents := LoanEvents p @ [e]\<rparr>)"

definition loan_package :: "'z loan_store_scheme \<Rightarrow> loan_package_id \<Rightarrow> LoanPackage" where
  "loan_package p i = (case LoanPackages p i of Some pk \<Rightarrow> pk | None \<Rightarrow> default_package)"

definition get_loan_by_id :: "'z loan_store_scheme \<Rightarrow> loan_id \<Rightarrow> Loan" where
  "get_loan_by_id p i = (case Loans p i of Some ln \<Rightarrow> ln | None \<Rightarrow> default_loan)"

definition mutate_loan :: "loan_id \<Rightarrow> (Loan \<Rightarrow> Loan) \<Rightarrow> ('z loan_store_scheme world, unit) op" where
  "mutate_loan i f = mutate (\<lambda>p. p\<lparr>Loans := (Loans p)(i \<mapsto> f (get_loan_by_id p i))\<rparr>)"

definition insert_loan :: "loan_id \<Rightarrow> Loan \<Rightarrow> ('z loan_store_scheme world, unit) op" where
  "insert_loan i ln = mutate (\<lambda>p. p\<lparr>Loans := (Loans p)(i \<mapsto> ln)\<rparr>)"

section \<open>Internal operations\<close>

definition get_next_loan_package_id :: "('z loan_store_scheme world, loan_package_id) op" where
  "get_next_loan_package_id =
     reads_pallet NextLoanPackageId (\<lambda>org.
     and_then (mutate (\<lambda>p. p\<lparr>NextLoanPackageId := org + 1\<rparr>)) (\<lambda>_. return org))"

definition get_next_loan_id :: "('z loan_store_scheme world, loan_id) op" where
  "get_next_loan_id =
     reads_pallet NextLoanId (\<lambda>org.
     and_then (mutate (\<lambda>p. p\<lparr>NextLoanId := org + 1\<rparr>)) (\<lambda>_. return org))"

definition create_loan_package :: "u32 \<Rightarrow> u32 \<Rightarrow> balance \<Rightarrow> ('z loan_store_scheme world, unit) op" where
  "create_loan_package terms rate min_rio =
     and_then get_next_loan_package_id (\<lambda>i.
     reads pallet (\<lambda>s.
     let pk = \<lparr>pkg_id = i, pkg_status = Active, pkg_terms = terms, pkg_min = min_rio,
               interest_rate_hourly = rate, pkg_collateral_asset_id = CollateralAssetId s,
               pkg_loan_asset_id = LoanAssetId s\<rparr>
     in steps
       [mutate (\<lambda>p. p\<lparr>LoanPackages := (LoanPackages p)(i \<mapsto> pk)\<rparr>),
        mutate (\<lambda>p. p\<lparr>ActiveLoanPackages := (ActiveLoanPackages p)(i \<mapsto> pk)\<rparr>),
        loan_event (PackageCreated i)]))"

definition disable_loan_package :: "loan_package_id \<Rightarrow> ('z loan_store_scheme world, unit) op" where
  "disable_loan_package i =
     reads_pallet (\<lambda>p. LoanPackages p i \<noteq> None) (\<lambda>known.
     steps
       [ensure known ''invalid package id'',
        mutate (\<lambda>p. p\<lparr>LoanPackages := (LoanPackages p)(i \<mapsto> (loan_package p i)\<lparr>pkg_status := Inactive\<rparr>)\<rparr>),
        mutate (\<lambda>p. p\<lparr>ActiveLoanPackages := (ActiveLoanPackages p)(i := None)\<rparr>),
        loan_event (PackageDisabled i)])"

definition liquidating_loans :: "'z loan_store_scheme \<Rightarrow> loan_id list" where
  "liquidating_loans p = (case LiquidatingLoans p of Some v \<Rightarrow> v | None \<Rightarrow> [])"

definition check_loan_in_liquidation :: "'z loan_store_scheme \<Rightarrow> loan_id \<Rightarrow> bool" where
  "check_loan_in_liquidation p i \<longleftrightarrow> i \<in> set (liquidating_loans p)"

definition repay_revert :: "Loan \<Rightarrow> account_id \<Rightarrow> ('z loan_store_scheme world, unit) op" where
  "repay_revert ln who = steps
     [insert_loan (loan_loan_id ln) ln,
      mutate (\<lambda>p. p\<lparr>LoansByAccount := (LoansByAccount p)(who := LoansByAccount p who @ [loan_loan_id ln])\<rparr>),
      mutate (\<lambda>p. p\<lparr>TotalLoan := TotalLoan p + loan_balance_total ln\<rparr>),
      mutate (\<lambda>p. p\<lparr>TotalCollateral := TotalCollateral p + collateral_balance_available ln\<rparr>)]"

definition repay_loan ::
  "'z loan_store_scheme hooks \<Rightarrow> account_id \<Rightarrow> loan_id \<Rightarrow> ('z loan_store_scheme world, unit) op" where
  "repay_loan hk who i =
     reads_pallet PawnShop (\<lambda>pawn_shop.
     reads_pallet (\<lambda>p. Loans p i \<noteq> None) (\<lambda>known.
     and_then (ensure known ''invalid loan id'') (\<lambda>_.
     reads_pallet (\<lambda>p. get_loan_by_id p i) (\<lambda>ln.
     and_then (ensure (loan_who ln = who) ''not owner of the loan'') (\<lambda>_.
     reads_pallet (\<lambda>p. LoanPackages p (loan_package_id ln) \<noteq> None) (\<lambda>pk_known.
     and_then (ensure pk_known ''invalid package id in loan'') (\<lambda>_.
     reads_pallet (\<lambda>p. loan_package p (loan_package_id ln)) (\<lambda>pk.
     reads (\<lambda>w. free_balance w (pkg_loan_asset_id pk) who) (\<lambda>own.
     and_then (ensure (loan_balance_total ln \<le> own) ''not enough asset to repay'') (\<lambda>_.
     reads (\<lambda>w. free_balance w (pkg_collateral_asset_id pk) pawn_shop) (\<lambda>shop.
     and_then (ensure (collateral_balance_available ln \<le> shop) ''not enough collateral asset in shop'') (\<lambda>_.
     reads_pallet (\<lambda>p. check_loan_in_liquidation p i) (\<lambda>liq.
     and_then (ensure (\<not> liq) ''loan is in liquidation'') (\<lambda>_.
     steps
       [mutate (\<lambda>p. p\<lparr>Loans := (Loans p)(loan_loan_id ln := None)\<rparr>),
        mutate (\<lambda>p. p\<lparr>LoansByAccount := (LoansByAccount p)(who := filter (\<lambda>e. e \<noteq> i) (LoansByAccount p who))\<rparr>),
        mutate (\<lambda>p. p\<lparr>TotalLoan := TotalLoan p - loan_balance_total ln\<rparr>),
        mutate (\<lambda>p. p\<lparr>TotalCollateral := TotalCollateral p - collateral_balance_available ln\<rparr>),
        on_err (make_transfer_with_event (pkg_loan_asset_id pk) who pawn_shop (loan_balance_total ln))
          (repay_revert ln who),
        on_err (make_transfer_with_event (pkg_collateral_asset_id pk) pawn_shop who (collateral_balance_available ln))
          (steps
            [repay_revert ln who,
             make_transfer_with_event (pkg_loan_asset_id pk) pawn_shop who (loan_balance_total ln)]),
        burn hk Root (pkg_loan_asset_id pk) pawn_shop (loan_balance_total ln),
        loan_event (LoanRepaid i (loan_balance_total ln) (collateral_balance_available ln))]))))))))))))))"

definition draw_from_loan ::
  "'z loan_store_scheme hooks \<Rightarrow> account_id \<Rightarrow> loan_id \<Rightarrow> balance \<Rightarrow> ('z loan_store_scheme world, unit) op" where
  "draw_from_loan hk who i amount =
     reads_pallet (\<lambda>p. Loans p i \<noteq> None) (\<lambda>known.
     and_then (ensure known ''invalid loan id'') (\<lambda>_.
     reads_pallet (\<lambda>p. get_loan_by_id p i) (\<lambda>ln.
     and_then (ensure (loan_who ln = who) ''can't draw from others loan'') (\<lambda>_.
     reads_pallet CurrentBTCPrice (\<lambda>btc_price.
     reads_pallet GlobalLTVLimit (\<lambda>global_ltv.
     let available_credit =
       collateral_balance_available ln * btc_price * ucast global_ltv div ucast LTV_PREC div ucast PRICE_PREC
         - loan_balance_total ln
     in and_then (ensure (amount \<le> available_credit) ''short of available credit'') (\<lambda>_.
     reads_pallet LoanProfitPool (\<lambda>profit_pool.
     reads_pallet (\<lambda>p. loan_package p (loan_package_id ln)) (\<lambda>pk.
     let interest = get_interest pk amount
     in steps
       [mint hk Root (pkg_loan_asset_id pk) profit_pool interest,
        on_err (mint hk Root (pkg_loan_asset_id pk) who (amount - interest))
          (burn hk Root (pkg_loan_asset_id pk) profit_pool interest),
        mutate_loan i (\<lambda>v. v\<lparr>loan_balance_total := loan_balance_total v + amount\<rparr>),
        mutate (\<lambda>p. p\<lparr>TotalLoan := TotalLoan p + amount\<rparr>),
        mutate (\<lambda>p. p\<lparr>TotalProfit := TotalProfit p + interest\<rparr>),
        loan_event (LoanDrawn i amount)])))))))))"

definition get_collateral_loan ::
  "balance \<Rightarrow> balance \<Rightarrow> ('z loan_store_scheme world, CollateralLoan) op" where
  "get_collateral_loan collateral_amount loan_amount =
     (if collateral_amount = 0 \<and> loan_amount = 0 then throw (Msg ''both amount are zero'')
      else
        reads_pallet CurrentBTCPrice (\<lambda>btc_price.
        reads_pallet GlobalLTVLimit (\<lambda>l.
        if collateral_amount = 0 then
          and_then (udiv (loan_amount * ucast LTV_PREC * ucast PRICE_PREC) (btc_price * ucast l)) (\<lambda>must.
          return \<lparr>cl_collateral_amount = must, cl_loan_amount = loan_amount\<rparr>)
        else if loan_amount = 0 then
          and_then (udiv (collateral_amount * btc_price * ucast l) (ucast LTV_PREC * ucast PRICE_PREC)) (\<lambda>can.
          return \<lparr>cl_collateral_amount = collateral_amount, cl_loan_amount = can\<rparr>)
        else
          and_then (udiv (loan_amount * ucast LTV_PREC * ucast PRICE_PREC) collateral_amount) (\<lambda>q.
          and_then (udiv q btc_price) (\<lambda>r.
          if ucast l < r then throw (Msg ''over LTV limit'')
          else return \<lparr>cl_collateral_amount = collateral_amount, cl_loan_amount = loan_amount\<rparr>)))))"

definition apply_for_loan ::
  "'z loan_store_scheme hooks \<Rightarrow> account_id \<Rightarrow> loan_package_id \<Rightarrow> balance \<Rightarrow> balance \<Rightarrow>
   ('z loan_store_scheme world, unit) op" where
  "apply_for_loan hk who package_id collateral_amount loan_amount =
     and_then (ensure (\<not> (collateral_amount = 0 \<and> loan_amount = 0))
                 ''invalid combination of collateral & loan amount'') (\<lambda>_.
     reads_pallet (\<lambda>p. ActiveLoanPackages p package_id) (\<lambda>found.
     and_then (ok_or found ''invalid package id'') (\<lambda>pk.
     reads_pallet PawnShop (\<lambda>shop.
     reads_pallet LoanProfitPool (\<lambda>profit_pool.
     reads_pallet LoanCap (\<lambda>cap.
     reads_pallet TotalLoan (\<lambda>total_loan.
     and_then (ensure (case cap of None \<Rightarrow> True | Some c \<Rightarrow> total_loan < c) ''reach loan limit'') (\<lambda>_.
     and_then (get_collateral_loan collateral_amount loan_amount) (\<lambda>cl.
     let actual_collateral = cl_collateral_amount cl; actual_loan = cl_loan_amount cl in
     and_then (ensure (pkg_min pk \<le> actual_loan) ''not reach min loan amount'') (\<lambda>_.
     reads_pallet MinimumCollateral (\<lambda>minimum.
     and_then (ensure (minimum \<le> collateral_amount) ''not reach min collateral amount'') (\<lambda>_.
     let interest = get_interest pk actual_loan in
     and_then (ensure (interest < actual_loan) ''interest is too high'') (\<lambda>_.
     and_then (make_transfer_with_event (pkg_collateral_asset_id pk) who shop actual_collateral) (\<lambda>_.
     reads Timestamp (\<lambda>now.
     and_then get_next_loan_id (\<lambda>i.
     let (due, due_extend) = get_dues pk now;
         ln = \<lparr>loan_loan_id = i, loan_package_id = package_id, loan_who = who, loan_due = due,
               loan_due_extend = due_extend, collateral_balance_original = actual_collateral,
               collateral_balance_available = actual_collateral, loan_balance_total = actual_loan,
               loan_status = Well\<rparr>
     in steps
       [on_err (mint hk Root (pkg_loan_asset_id pk) profit_pool interest)
          (make_transfer_with_event (pkg_collateral_asset_id pk) shop who actual_collateral),
        on_err (mint hk Root (pkg_loan_asset_id pk) who (actual_loan - interest))
          (steps
            [burn hk Root (pkg_loan_asset_id pk) profit_pool interest,
             make_transfer_with_event (pkg_collateral_asset_id pk) shop who actual_collateral]),
        insert_loan i ln,
        mutate (\<lambda>p. p\<lparr>LoansByAccount := (LoansByAccount p)(who := LoansByAccount p who @ [i])\<rparr>),
        mutate (\<lambda>p. p\<lparr>TotalLoan := TotalLoan p + actual_loan\<rparr>),
        mutate (\<lambda>p. p\<lparr>TotalCollateral := TotalCollateral p + actual_collateral\<rparr>),
        mutate (\<lambda>p. p\<lparr>TotalProfit := TotalProfit p + interest\<rparr>),
        loan_event (LoanCreated ln)]))))))))))))))))"

definition settle_leftover ::
  "LoanPackage \<Rightarrow> Loan \<Rightarrow> account_id \<Rightarrow> account_id \<Rightarrow> balance \<Rightarrow> ('z loan_store_scheme world, balance) op" where
  "settle_leftover pk ln liquidation_account pawnshop leftover =
     reads_pallet LiquidationPenalty (\<lambda>penalty_rate.
     reads_pallet LoanProfitPool (\<lambda>profit_pool.
     let penalty = leftover * ucast penalty_rate div ucast LTV_PREC;
         loan_asset = pkg_loan_asset_id pk
     in and_then
       (on_err (make_transfer_with_event loan_asset liquidation_account profit_pool penalty)
         (make_transfer_with_event loan_asset pawnshop liquidation_account (loan_balance_total ln)))
       (\<lambda>_. and_then
         (on_err (make_transfer_with_event loan_asset liquidation_account (loan_who ln) (leftover - penalty))
           (steps
             [make_transfer_with_event loan_asset profit_pool liquidation_account penalty,
              make_transfer_with_event loan_asset pawnshop liquidation_account (loan_balance_total ln)]))
         (\<lambda>_. return (leftover - penalty)))))"

text \<open>\<open>leftover\<close> is unwrapped for the event, so an auction below the debt panics there.\<close>

definition mark_loan_liquidated ::
  "Loan \<Rightarrow> account_id \<Rightarrow> balance \<Rightarrow> ('z loan_store_scheme world, unit) op" where
  "mark_loan_liquidated ln liquidation_account auction_balance =
     reads_pallet (\<lambda>p. check_loan_in_liquidation p (loan_loan_id ln)) (\<lambda>liq.
     and_then (ensure liq ''loan id not in liquidating'') (\<lambda>_.
     reads_pallet PawnShop (\<lambda>pawnshop.
     reads_pallet (\<lambda>p. loan_package p (loan_package_id ln)) (\<lambda>pk.
     reads (\<lambda>w. free_balance w (pkg_loan_asset_id pk) liquidation_account) (\<lambda>own.
     and_then (ensure (auction_balance \<le> own) ''not enough asset to liquidate'') (\<lambda>_.
     and_then (make_transfer_with_event (pkg_loan_asset_id pk) liquidation_account pawnshop (loan_balance_total ln)) (\<lambda>_.
     and_then
       (case checked_sub auction_balance (loan_balance_total ln) of
          Some l \<Rightarrow> if 0 < l then and_then (settle_leftover pk ln liquidation_account pawnshop l) (\<lambda>r. return (Some r))
                    else return (Some l)
        | None \<Rightarrow> return None)
       (\<lambda>leftover.
        steps
         [mutate (\<lambda>p. p\<lparr>Loans := (Loans p)(loan_loan_id ln := None)\<rparr>),
          mutate (\<lambda>p. p\<lparr>LoansByAccount := (LoansByAccount p)
            (loan_who ln := filter (\<lambda>e. e \<noteq> loan_loan_id ln) (LoansByAccount p (loan_who ln)))\<rparr>),
          mutate (\<lambda>p. p\<lparr>LiquidatingLoans := Some (filter (\<lambda>e. e \<noteq> loan_loan_id ln) (liquidating_loans p))\<rparr>),
          and_then (unwrap leftover) (\<lambda>l.
            loan_event (LoanLiquidated (loan_loan_id ln) (collateral_balance_original ln)
              (collateral_balance_available ln) auction_balance (loan_balance_total ln) l))]))))))))"

definition add_loan_collateral ::
  "Loan \<Rightarrow> account_id \<Rightarrow> balance \<Rightarrow> ('z loan_store_scheme world, unit) op" where
  "add_loan_collateral ln from amount =
     reads_pallet PawnShop (\<lambda>pawnshop.
     reads_pallet (\<lambda>p. loan_package p (loan_package_id ln)) (\<lambda>pk.
     reads (\<lambda>w. free_balance w (pkg_collateral_asset_id pk) from) (\<lambda>own.
     steps
       [ensure (amount \<le> own) ''not enough collateral asset in free balance'',
        make_transfer_with_event (pkg_collateral_asset_id pk) from pawnshop amount,
        mutate_loan (loan_loan_id ln) (\<lambda>l.
          l\<lparr>collateral_balance_original := collateral_balance_original l + amount,
            collateral_balance_available := collateral_balance_available l + amount\<rparr>),
        mutate (\<lambda>p. p\<lparr>TotalCollateral := TotalCollateral p + amount\<rparr>),
        loan_event (AddCollateral (loan_loan_id ln) amount)])))"

section \<open>The start of a block\<close>

definition liquidate_loan :: "loan_id \<Rightarrow> ltv \<Rightarrow> ('z loan_store_scheme world, unit) op" where
  "liquidate_loan i l = steps
     [mutate_loan i (\<lambda>v. v\<lparr>loan_status := Liquidating l\<rparr>),
      mutate (\<lambda>p. p\<lparr>LiquidatingLoans :=
        (case LiquidatingLoans p of Some v \<Rightarrow> Some (v @ [i]) | None \<Rightarrow> Some [i])\<rparr>)]"

definition check_loan_health :: "Loan \<Rightarrow> moment \<Rightarrow> price \<Rightarrow> ltv \<Rightarrow> ltv \<Rightarrow> ('s, LoanHealth) op" where
  "check_loan_health ln now btc_price liquidation warning =
     and_then (get_ltv (collateral_balance_available ln) (loan_balance_total ln) btc_price) (\<lambda>current_ltv.
     return
       (if liquidation \<le> current_ltv then Liquidating current_ltv
        else if warning \<le> current_ltv then Warning current_ltv
        else if loan_due_extend ln \<le> now then Expired
        else if loan_due ln \<le> now then Extended
        else Well))"

text \<open>What the loop carries: the cache of packages, the penalties and the interest so far.\<close>

type_synonym block_acc = "(loan_package_id \<Rightarrow> LoanPackage option) \<times> balance \<times> balance"

definition expire_loan ::
  "moment \<Rightarrow> price \<Rightarrow> ltv \<Rightarrow> ltv \<Rightarrow> loan_id \<Rightarrow> Loan \<Rightarrow> block_acc \<Rightarrow> ('z loan_store_scheme world, block_acc) op" where
  "expire_loan now btc_price liquidation_thd warning_thd i ln = (\<lambda>(packages, total_penalty, total_interest).
     reads_pallet (\<lambda>p. case packages (loan_package_id ln) of
         None \<Rightarrow> packages(loan_package_id ln \<mapsto> loan_package p (loan_package_id ln))
       | Some _ \<Rightarrow> packages) (\<lambda>packages'.
     and_then (unwrap (packages' (loan_package_id ln))) (\<lambda>pk.
     reads_pallet PenaltyRate (\<lambda>rate.
     and_then (expiration_penalty ln rate btc_price) (\<lambda>penalty.
     and_then (expiration_interest ln pk btc_price) (\<lambda>interest.
     let total_penalty' = total_penalty + penalty;
         total_interest' = total_interest + interest;
         new_loan = expire_then_update ln pk now penalty interest
     in and_then (get_ltv (collateral_balance_available new_loan) (loan_balance_total new_loan) btc_price) (\<lambda>new_ltv.
     and_then
       (if liquidation_thd \<le> new_ltv then steps
          [insert_loan i new_loan, liquidate_loan i new_ltv,
           loan_event (LoanLiquidating i (loan_who ln) (collateral_balance_available ln) (loan_balance_total ln))]
        else if warning_thd \<le> new_ltv then steps
          [insert_loan i (new_loan\<lparr>loan_status := Warning new_ltv\<rparr>), loan_event (LoanWarning i new_ltv)]
        else steps
          [insert_loan i new_loan, loan_event (LoanExpired i (loan_who ln) total_penalty' total_interest')])
       (\<lambda>_. return (packages', total_penalty', total_interest')))))))))"

definition check_loan ::
  "moment \<Rightarrow> price \<Rightarrow> ltv \<Rightarrow> ltv \<Rightarrow> loan_id \<Rightarrow> Loan \<Rightarrow> block_acc \<Rightarrow> ('z loan_store_scheme world, block_acc) op" where
  "check_loan now btc_price liquidation_thd warning_thd i ln acc =
     reads_pallet (\<lambda>p. check_loan_in_liquidation p i) (\<lambda>liq.
     if liq then return acc
     else and_then (check_loan_health ln now btc_price liquidation_thd warning_thd) (\<lambda>health.
       case health of
         Well \<Rightarrow> return acc
       | Warning l \<Rightarrow> and_then
           (whenever (loan_status ln \<noteq> Warning l)
             (steps [mutate_loan (loan_loan_id ln) (\<lambda>v. v\<lparr>loan_status := Warning l\<rparr>), loan_event (LoanWarning i l)]))
           (\<lambda>_. return acc)
       | Extended \<Rightarrow> and_then
           (whenever (loan_status ln \<noteq> Extended)
             (steps [mutate_loan (loan_loan_id ln) (\<lambda>v. v\<lparr>loan_status := Extended\<rparr>),
                     loan_event (LoanExtended i (loan_who ln))]))
           (\<lambda>_. return acc)
       | Liquidating l \<Rightarrow> and_then
           (steps
             [liquidate_loan i l,
              loan_event (LoanLiquidating i (loan_who ln) (collateral_balance_available ln) (loan_balance_total ln))])
           (\<lambda>_. return acc)
       | Expired \<Rightarrow> expire_loan now btc_price liquidation_thd warning_thd i ln acc))"

primrec check_loans ::
  "moment \<Rightarrow> price \<Rightarrow> ltv \<Rightarrow> ltv \<Rightarrow> (loan_id \<times> Loan) list \<Rightarrow> block_acc \<Rightarrow> ('z loan_store_scheme world, block_acc) op" where
  "check_loans now btc_price liquidation_thd warning_thd [] acc = return acc"
| "check_loans now btc_price liquidation_thd warning_thd (e # es) acc =
     and_then (check_loan now btc_price liquidation_thd warning_thd (fst e) (snd e) acc)
       (check_loans now btc_price liquidation_thd warning_thd es)"

definition collect_expiration_fees :: "balance \<Rightarrow> balance \<Rightarrow> ('z loan_store_scheme world, unit) op" where
  "collect_expiration_fees total_penalty total_interest =
     reads pallet (\<lambda>s.
     whenever (total_penalty + total_interest \<noteq> 0)
       (unwrap_or_default
         (and_then
           (make_transfer_with_event (CollateralAssetId s) (PawnShop s) (LoanProfitPool s) (total_penalty + total_interest))
           (\<lambda>_. reads_pallet TotalCollateral (\<lambda>v.
             and_then (ok_or (checked_sub v (total_interest + total_penalty)) ''total collateral underflows'')
               (\<lambda>left. mutate (\<lambda>p. p\<lparr>TotalCollateral := left\<rparr>)))))))"

definition on_each_block :: "(loan_id \<times> Loan) list \<Rightarrow> ('z loan_store_scheme world, unit) op" where
  "on_each_block loans =
     reads Timestamp (\<lambda>now.
     reads_pallet CurrentBTCPrice (\<lambda>btc_price.
     reads_pallet GlobalLiquidationThreshold (\<lambda>liquidation_thd.
     reads_pallet GlobalWarningThreshold (\<lambda>warning_thd.
     and_then (check_loans now btc_price liquidation_thd warning_thd loans (\<lambda>_. None, 0, 0))
       (\<lambda>(_, total_penalty, total_interest). collect_expiration_fees total_penalty total_interest)))))"

definition loan_on_initialize :: "(loan_id \<times> Loan) list \<Rightarrow> ('z loan_store_scheme world, unit) op" where
  "loan_on_initialize loans = reads_pallet LoanPaused (\<lambda>paused. whenever (\<not> paused) (on_each_block loans))"

section \<open>Dispatchable calls\<close>

definition not_paused :: "('z loan_store_scheme world, unit) op" where
  "not_paused = reads_pallet LoanPaused (\<lambda>paused. ensure (\<not> paused) ''module is paused'')"

definition loan_pause :: "origin \<Rightarrow> ('z loan_store_scheme world, unit) op" where
  "loan_pause og = steps [ensure_root og, mutate (\<lambda>p. p\<lparr>LoanPaused := True\<rparr>)]"

definition loan_resume :: "origin \<Rightarrow> ('z loan_store_scheme world, unit) op" where
  "loan_resume og = steps [ensure_root og, mutate (\<lambda>p. p\<lparr>LoanPaused := False\<rparr>)]"

definition set_collateral_asset_id :: "origin \<Rightarrow> asset_id \<Rightarrow> ('z loan_store_scheme world, unit) op" where
  "set_collateral_asset_id og i = steps [ensure_root og, mutate (\<lambda>p. p\<lparr>CollateralAssetId := i\<rparr>)]"

definition set_global_ltv_limit :: "origin \<Rightarrow> ltv \<Rightarrow> ('z loan_store_scheme world, unit) op" where
  "set_global_ltv_limit og limit = steps [ensure_root og, mutate (\<lambda>p. p\<lparr>GlobalLTVLimit := limit\<rparr>)]"

definition set_loan_asset_id :: "origin \<Rightarrow> asset_id \<Rightarrow> ('z loan_store_scheme world, unit) op" where
  "set_loan_asset_id og i = steps [ensure_root og, mutate (\<lambda>p. p\<lparr>LoanAssetId := i\<rparr>)]"

text \<open>The two setters of the thresholds write the item of the other.\<close>

definition set_global_liquidation_threshold :: "origin \<Rightarrow> ltv \<Rightarrow> ('z loan_store_scheme world, unit) op" where
  "set_global_liquidation_threshold og threshold = steps
     [ensure_root og, mutate (\<lambda>p. p\<lparr>GlobalWarningThreshold := threshold\<rparr>)]"

definition set_global_warning_threshold :: "origin \<Rightarrow> ltv \<Rightarrow> ('z loan_store_scheme world, unit) op" where
  "set_global_warning_threshold og threshold = steps
     [ensure_root og, mutate (\<lambda>p. p\<lparr>GlobalLiquidationThreshold := threshold\<rparr>)]"

definition set_loan_cap :: "origin \<Rightarrow> balance \<Rightarrow> ('z loan_store_scheme world, unit) op" where
  "set_loan_cap og b = steps
     [ensure_root og, mutate (\<lambda>p. p\<lparr>LoanCap := (if b = 0 then None else Some b)\<rparr>)]"

definition set_liquidation_account :: "origin \<Rightarrow> account_id \<Rightarrow> ('z loan_store_scheme world, unit) op" where
  "set_liquidation_account og who = steps [ensure_root og, mutate (\<lambda>p. p\<lparr>LiquidationAccount := who\<rparr>)]"

definition set_penalty_rate :: "origin \<Rightarrow> u32 \<Rightarrow> ('z loan_store_scheme world, unit) op" where
  "set_penalty_rate og rate = steps [ensure_root og, mutate (\<lambda>p. p\<lparr>PenaltyRate := rate\<rparr>)]"

definition create_package :: "origin \<Rightarrow> u32 \<Rightarrow> u32 \<Rightarrow> balance \<Rightarrow> ('z loan_store_scheme world, unit) op" where
  "create_package og terms rate min_rio = steps
     [not_paused,
      ensure_root og,
      ensure (0 < terms \<and> 0 < rate \<and> 0 < min_rio) ''zero is not allowed'',
      ensure (rate < INTEREST_RATE_PREC) ''invalid interest rate'',
      create_loan_package terms rate min_rio]"

definition disable_package :: "origin \<Rightarrow> loan_package_id \<Rightarrow> ('z loan_store_scheme world, unit) op" where
  "disable_package og i = steps [not_paused, ensure_root og, disable_loan_package i]"

definition set_price :: "origin \<Rightarrow> price \<Rightarrow> ('z loan_store_scheme world, unit) op" where
  "set_price og p = steps [ensure_root og, mutate (\<lambda>s. s\<lparr>CurrentBTCPrice := p\<rparr>)]"

definition repay :: "'z loan_store_scheme hooks \<Rightarrow> origin \<Rightarrow> loan_id \<Rightarrow> ('z loan_store_scheme world, unit) op" where
  "repay hk og i =
     and_then not_paused (\<lambda>_. and_then (ensure_signed og) (\<lambda>who. repay_loan hk who i))"

definition apply_call ::
  "'z loan_store_scheme hooks \<Rightarrow> origin \<Rightarrow> balance \<Rightarrow> balance \<Rightarrow> loan_package_id \<Rightarrow> ('z loan_store_scheme world, unit) op" where
  "apply_call hk og collateral_amount loan_amount i =
     and_then not_paused (\<lambda>_. and_then (ensure_signed og) (\<lambda>who. apply_for_loan hk who i collateral_amount loan_amount))"

definition mark_liquidated :: "origin \<Rightarrow> loan_id \<Rightarrow> balance \<Rightarrow> ('z loan_store_scheme world, unit) op" where
  "mark_liquidated og i auction_balance =
     and_then not_paused (\<lambda>_.
     and_then (ensure_signed og) (\<lambda>account.
     reads_pallet LiquidationAccount (\<lambda>liquidation_account.
     and_then (ensure (account = liquidation_account) ''liquidation account only'') (\<lambda>_.
     reads_pallet (\<lambda>p. Loans p i) (\<lambda>found.
     and_then (ok_or found ''loan doesn't exists'') (\<lambda>ln.
     mark_loan_liquidated ln account auction_balance))))))"

definition add_collateral :: "origin \<Rightarrow> loan_id \<Rightarrow> balance \<Rightarrow> ('z loan_store_scheme world, unit) op" where
  "add_collateral og i amount =
     and_then not_paused (\<lambda>_.
     and_then (ensure_signed og) (\<lambda>who.
     reads_pallet (\<lambda>p. Loans p i) (\<lambda>found.
     and_then (ok_or found ''loan doesn't exists'') (\<lambda>ln.
     and_then (ensure (who = loan_who ln) ''adding collateral to other's loan is not allowed'') (\<lambda>_.
     add_loan_collateral ln (loan_who ln) amount)))))"

definition draw ::
  "'z loan_store_scheme hooks \<Rightarrow> origin \<Rightarrow> loan_id \<Rightarrow> balance \<Rightarrow> ('z loan_store_scheme world, unit) op" where
  "draw hk og i amount =
     and_then not_paused (\<lambda>_. and_then (ensure_signed og) (\<lambda>who. draw_from_loan hk who i amount))"

text \<open>The listeners the pallet offers to the assets and the price pallet.\<close>

definition loan_on_asset_transfer ::
  "asset_id \<Rightarrow> account_id \<Rightarrow> account_id \<Rightarrow> balance \<Rightarrow> ('z loan_store_scheme world, unit) op" where
  "loan_on_asset_transfer i from to amount = return ()"

definition loan_on_change :: "price \<Rightarrow> ('z loan_store_scheme world, unit) op" where
  "loan_on_change p = mutate (\<lambda>s. s\<lparr>CurrentBTCPrice := p\<rparr>)"

datatype LoanCall =
    LcPause | LcResume
  | LcSetCollateralAssetId asset_id
  | LcSetGlobalLtvLimit ltv
  | LcSetLoanAssetId asset_id
  | LcSetGlobalLiquidationThreshold ltv
  | LcSetGlobalWarningThreshold ltv
  | LcSetLoanCap balance
  | LcSetLiquidationAccount account_id
  | LcSetPenaltyRate u32
  | LcCreatePackage u32 u32 balance
  | LcDisablePackage loan_package_id
  | LcSetPrice price
  | LcRepay loan_id
  | LcApply balance balance loan_package_id
  | LcMarkLiquidated loan_id balance
  | LcAddCollateral loan_id balance
  | LcDraw loan_id balance

fun dispatch_loan ::
  "'z loan_store_scheme hooks \<Rightarrow> origin \<Rightarrow> LoanCall \<Rightarrow> ('z loan_store_scheme world, unit) op" where
  "dispatch_loan hk og LcPause = loan_pause og"
| "dispatch_loan hk og LcResume = loan_resume og"
| "dispatch_loan hk og (LcSetCollateralAssetId i) = set_collateral_asset_id og i"
| "dispatch_loan hk og (LcSetGlobalLtvLimit l) = set_global_ltv_limit og l"
| "dispatch_loan hk og (LcSetLoanAssetId i) = set_loan_asset_id og i"
| "dispatch_loan hk og (LcSetGlobalLiquidationThreshold l) = set_global_liquidation_threshold og l"
| "dispatch_loan hk og (LcSetGlobalWarningThreshold l) = set_global_warning_threshold og l"
| "dispatch_loan hk og (LcSetLoanCap b) = set_loan_cap og b"
| "dispatch_loan hk og (LcSetLiquidationAccount who) = set_liquidation_account og who"
| "dispatch_loan hk og (LcSetPenaltyRate r) = set_penalty_rate og r"
| "dispatch_loan hk og (LcCreatePackage terms rate b) = create_package og terms rate b"
| "dispatch_loan hk og (LcDisablePackage i) = disable_package og i"
| "dispatch_loan hk og (LcSetPrice p) = set_price og p"
| "dispatch_loan hk og (LcRepay i) = repay hk og i"
| "dispatch_loan hk og (LcApply c l i) = apply_call hk og c l i"
| "dispatch_loan hk og (LcMarkLiquidated i b) = mark_liquidated og i b"
| "dispatch_loan hk og (LcAddCollateral i b) = add_collateral og i b"
| "dispatch_loan hk og (LcDraw i b) = draw hk og i b"

text \<open>
  The book of loans: the total is the sum of what all loans owe (in the arithmetic of the balance
  type) and a gap \<open>d\<close>, every loan is stored under its own identifier, and identifiers not yet
  handed out are free. The book is right when the gap is zero.
\<close>

definition owed :: "Loan option \<Rightarrow> balance" where
  "owed x = (case x of Some ln \<Rightarrow> loan_balance_total ln | None \<Rightarrow> 0)"

definition loan_book_gap :: "balance \<Rightarrow> 'z loan_store_scheme \<Rightarrow> bool" where
  "loan_book_gap d p \<longleftrightarrow>
     TotalLoan p = sum (\<lambda>i. owed (Loans p i)) UNIV + d \<and>
     (\<forall>i ln. Loans p i = Some ln \<longrightarrow> loan_loan_id ln = i) \<and>
     (\<forall>i. NextLoanId p \<le> i \<longrightarrow> Loans p i = None)"

abbreviation loan_book_ok :: "'z loan_store_scheme \<Rightarrow> bool" where
  "loan_book_ok p \<equiv> loan_book_gap 0 p"

text \<open>The debt that a call removes from the loans by reporting a finished liquidation.\<close>

definition liquidated_debt :: "LoanCall \<Rightarrow> 'z loan_store_scheme \<Rightarrow> 'z loan_store_scheme \<Rightarrow> balance" where
  "liquidated_debt c p q = (case c of
     LcMarkLiquidated i b \<Rightarrow> if Loans q i = None then owed (Loans p i) else 0
   | _ \<Rightarrow> 0)"

definition debt :: "Loan \<Rightarrow> loan_id \<times> balance" where
  "debt ln = (loan_loan_id ln, loan_balance_total ln)"

definition same_debts :: "'z loan_store_scheme world \<Rightarrow> 'z loan_store_scheme world \<Rightarrow> bool" where
  "same_debts w t \<longleftrightarrow> TotalLoan (pallet t) = TotalLoan (pallet w) \<and> NextLoanId (pallet t) = NextLoanId (pallet w) \<and>
     (\<forall>j. map_option debt (Loans (pallet t) j) = map_option debt (Loans (pallet w) j))"

section \<open>Supply\<close>

text \<open>
  Any relation that the assets operations, the hooks and every write to the pallet's own storage
  satisfy is satisfied by every call and by the block hook.
\<close>

locale loan_listener = hooked R hk for R and hk :: "'z loan_store_scheme hooks" +
  assumes writes: "effects R (mutate f)"
begin

lemmas loan_intros = effects_intros writes moves mint_effects burn_effects

lemma loan_store_effects:
  "effects R (loan_event e)"
  "effects R (mutate_loan i g)"
  "effects R (insert_loan i ln)"
  "effects R (liquidate_loan i l)"
  "effects R (repay_revert ln who)"
  "effects R get_next_loan_id"
  "effects R get_next_loan_package_id"
  "effects R not_paused"
  unfolding loan_event_def mutate_loan_def insert_loan_def liquidate_loan_def repay_revert_def
    get_next_loan_id_def get_next_loan_package_id_def not_paused_def
  by (intro loan_intros)+

lemma loan_pure_effects:
  "effects R (get_ltv c l pr)"
  "effects R (expiration_penalty ln rate pr)"
  "effects R (expiration_interest ln pk pr)"
  "effects R (check_loan_health ln now pr l1 l2)"
  "effects R (get_collateral_loan c l)"
  unfolding get_ltv_def expiration_penalty_def expiration_interest_def check_loan_health_def get_collateral_loan_def
  by (intro loan_intros)+

lemmas loan_all = loan_intros loan_store_effects loan_pure_effects

lemma repay_loan_effects: "effects R (repay_loan hk who i)"
  unfolding repay_loan_def by (intro loan_all)

lemma draw_from_loan_effects: "effects R (draw_from_loan hk who i amount)"
  unfolding draw_from_loan_def by (intro loan_all)

lemma apply_for_loan_effects: "effects R (apply_for_loan hk who i c l)"
  unfolding apply_for_loan_def by (intro loan_all)

lemma mark_loan_liquidated_effects: "effects R (mark_loan_liquidated ln who b)"
  unfolding mark_loan_liquidated_def settle_leftover_def by (intro loan_all)

lemma add_loan_collateral_effects: "effects R (add_loan_collateral ln who b)"
  unfolding add_loan_collateral_def by (intro loan_all)

lemma dispatch_loan_effects: "effects R (dispatch_loan hk og c)"
  by (cases c; simp only: dispatch_loan.simps loan_pause_def loan_resume_def set_collateral_asset_id_def
      set_global_ltv_limit_def set_loan_asset_id_def set_global_liquidation_threshold_def
      set_global_warning_threshold_def set_loan_cap_def set_liquidation_account_def set_penalty_rate_def
      create_package_def create_loan_package_def disable_package_def disable_loan_package_def set_price_def repay_def
      apply_call_def mark_liquidated_def add_collateral_def draw_def;
      intro loan_all repay_loan_effects draw_from_loan_effects apply_for_loan_effects
      mark_loan_liquidated_effects add_loan_collateral_effects)

lemma check_loan_effects: "effects R (check_loan now pr l1 l2 i ln acc)"
  unfolding check_loan_def expire_loan_def
  by (intro loan_all; simp split: LoanHealth.splits; intro conjI allI impI; intro loan_all)

lemma check_loans_effects: "effects R (check_loans now pr l1 l2 es acc)"
proof (induction es arbitrary: acc)
  case Nil
  show ?case by (simp only: check_loans.simps effects_return)
next
  case (Cons e es)
  show ?case unfolding check_loans.simps by (intro loan_all check_loan_effects Cons.IH)
qed

lemma loan_on_initialize_effects: "effects R (loan_on_initialize es)"
  unfolding loan_on_initialize_def on_each_block_def collect_expiration_fees_def
  by (intro loan_all check_loans_effects)

end

interpretation unit_loan: loan_listener "keeps_supply :: 'z loan_store_scheme world \<Rightarrow> _" unit_hooks
  by unfold_locales (rule mutate_keeps_supply)

end
