(* ===== verification/Loan_Book.thy ===== *)
theory Loan_Book
  imports Loan
begin

text \<open>
  The bookkeeping of the loan pallet: the recorded total of all loans is the sum of what the
  running loans owe, and a gap. Every call but the report of a finished liquidation keeps the gap,
  that report widens it by the debt of the loan it removes, and the block hook changes nothing
  anyone owes.
\<close>

section \<open>The book of loans\<close>

text \<open>
  The state \<open>q\<close> of the book after some calls on \<open>p\<close>: right up to the gap, the counter of identifiers
  has not gone back, and no identifier handed out before and free at the start is in use again.
\<close>

definition book_after :: "balance \<Rightarrow> 'z loan_store_scheme \<Rightarrow> 'z loan_store_scheme \<Rightarrow> bool" where
  "book_after d p q \<longleftrightarrow> loan_book_gap d q \<and> NextLoanId p \<le> NextLoanId q \<and>
     (\<forall>j < NextLoanId p. Loans p j = None \<longrightarrow> Loans q j = None)"

lemma book_after_refl [simp]: "book_after d p p = loan_book_gap d p"
  by (simp add: book_after_def)

lemma book_after_upd:
  assumes ok: "loan_book_gap d p" and total: "TotalLoan q = TotalLoan p + owed x - owed (Loans p i)"
    and loans: "Loans q = (Loans p)(i := x)" and id: "\<And>ln. x = Some ln \<Longrightarrow> loan_loan_id ln = i"
    and nxt: "NextLoanId p \<le> NextLoanId q" "x \<noteq> None \<Longrightarrow> i < NextLoanId q"
    and fresh: "x = None \<or> Loans p i \<noteq> None \<or> NextLoanId p \<le> i"
  shows "book_after d p q"
proof -
  have "(\<lambda>j. owed (Loans q j)) = (\<lambda>j. owed (Loans p j))(i := owed x)"
    by (auto simp: loans)
  with sum_update [of "\<lambda>j. owed (Loans p j)" i "owed x"]
  have "sum (\<lambda>j. owed (Loans q j)) UNIV = sum (\<lambda>j. owed (Loans p j)) UNIV + owed x - owed (Loans p i)"
    by (simp only: eq_diff_eq)
  moreover have "TotalLoan p = sum (\<lambda>j. owed (Loans p j)) UNIV + d"
    using ok by (simp add: loan_book_gap_def)
  ultimately have "TotalLoan q = sum (\<lambda>j. owed (Loans q j)) UNIV + d"
    by (simp add: total)
  moreover have "Loans q j = None" if "NextLoanId q \<le> j" for j
  proof (cases "j = i")
    case True
    with nxt(2) that show ?thesis by (cases x) (auto simp: loans)
  next
    case False
    moreover have "NextLoanId p \<le> j" using nxt(1) that by simp
    ultimately show ?thesis using ok by (simp add: loan_book_gap_def loans)
  qed
  ultimately have "loan_book_gap d q"
    using ok id unfolding loan_book_gap_def by (auto simp: loans)
  with nxt(1) fresh show ?thesis by (auto simp: book_after_def loans)
qed

lemma book_after_same:
  assumes "loan_book_gap d p" and "TotalLoan q = TotalLoan p" and "Loans q = Loans p" and "NextLoanId p \<le> NextLoanId q"
  shows "book_after d p q"
  using assms unfolding book_after_def loan_book_gap_def by (auto dest: order_trans)

lemma book_after_irrelevant [simp]:
  "book_after d p (q\<lparr>CollateralAssetId := x1\<rparr>) = book_after d p q"
  "book_after d p (q\<lparr>LoanAssetId := x2\<rparr>) = book_after d p q"
  "book_after d p (q\<lparr>GlobalLTVLimit := x3\<rparr>) = book_after d p q"
  "book_after d p (q\<lparr>GlobalLiquidationThreshold := x4\<rparr>) = book_after d p q"
  "book_after d p (q\<lparr>GlobalWarningThreshold := x5\<rparr>) = book_after d p q"
  "book_after d p (q\<lparr>NextLoanPackageId := x6\<rparr>) = book_after d p q"
  "book_after d p (q\<lparr>ActiveLoanPackages := x7\<rparr>) = book_after d p q"
  "book_after d p (q\<lparr>LoanPackages := x8\<rparr>) = book_after d p q"
  "book_after d p (q\<lparr>LoansByAccount := x9\<rparr>) = book_after d p q"
  "book_after d p (q\<lparr>CurrentBTCPrice := x10\<rparr>) = book_after d p q"
  "book_after d p (q\<lparr>TotalCollateral := x11\<rparr>) = book_after d p q"
  "book_after d p (q\<lparr>TotalProfit := x12\<rparr>) = book_after d p q"
  "book_after d p (q\<lparr>PenaltyRate := x13\<rparr>) = book_after d p q"
  "book_after d p (q\<lparr>LiquidationAccount := x14\<rparr>) = book_after d p q"
  "book_after d p (q\<lparr>LiquidatingLoans := x15\<rparr>) = book_after d p q"
  "book_after d p (q\<lparr>LoanCap := x16\<rparr>) = book_after d p q"
  "book_after d p (q\<lparr>LoanPaused := x17\<rparr>) = book_after d p q"
  "book_after d p (q\<lparr>LoanEvents := x18\<rparr>) = book_after d p q"
  by (simp_all add: book_after_def loan_book_gap_def)

text \<open>Operations of the assets pallet leave the book alone.\<close>

lemma wp_mutate [wp_simps]: "wp (mutate f) Q E w = Q () (w\<lparr>pallet := f (pallet w)\<rparr>)"
  by (simp add: wp_def)

lemma wp_framed:
  assumes "effects keeps_pallet m" and "\<And>a t. pallet t = pallet w \<Longrightarrow> Q a t"
    and "\<And>t. pallet t = pallet w \<Longrightarrow> E t"
  shows "wp m Q E w"
  using assms by (rule wp_effects)

lemmas wp_transfer = wp_framed [OF make_transfer_with_event_keeps_pallet]
lemmas wp_mint = wp_framed [OF unit_framed.mint_effects]
lemmas wp_burn = wp_framed [OF unit_framed.burn_effects]

lemmas loan_wp = wp_simps loan_event_def mutate_loan_def insert_loan_def get_next_loan_id_def
  get_next_loan_package_id_def not_paused_def

lemma repay_book:
  fixes w :: "'z loan_store_scheme world"
  assumes ok: "loan_book_gap d (pallet w)"
  shows "wp (repay unit_hooks og i) (\<lambda>_ t. book_after d (pallet w) (pallet t)) (\<lambda>t. book_after d (pallet w) (pallet t)) w"
proof (cases "Loans (pallet w) i")
  case None
  then show ?thesis using ok by (simp add: repay_def repay_loan_def loan_wp split: origin.splits)
next
  case (Some ln)
  have id: "loan_loan_id ln = i" using ok Some by (auto simp: loan_book_gap_def)
  have get: "get_loan_by_id (pallet w) i = ln" by (simp add: get_loan_by_id_def Some)
  have book: "book_after d (pallet w) q" if "NextLoanId q = NextLoanId (pallet w)"
    "Loans q = (Loans (pallet w))(i := None) \<and> TotalLoan q = TotalLoan (pallet w) - loan_balance_total ln \<or>
     Loans q = (Loans (pallet w))(i \<mapsto> ln) \<and> TotalLoan q = TotalLoan (pallet w)" for q :: "'z loan_store_scheme"
    using that(2)
  proof
    assume "Loans q = (Loans (pallet w))(i := None) \<and> TotalLoan q = TotalLoan (pallet w) - loan_balance_total ln"
    then show ?thesis
      by (intro book_after_upd [OF ok, of _ None i]) (simp_all add: owed_def Some that(1))
  next
    assume "Loans q = (Loans (pallet w))(i \<mapsto> ln) \<and> TotalLoan q = TotalLoan (pallet w)"
    then show ?thesis
      using that(1) Some by (intro book_after_same [OF ok]) auto
  qed
  show ?thesis
    unfolding repay_def repay_loan_def repay_revert_def
    using ok by (auto simp: loan_wp get id Some intro!: wp_transfer wp_burn book
        simp del: book_after_irrelevant split: origin.splits)
qed

lemma loan_book_id:
  "loan_book_gap d p \<Longrightarrow> Loans p i = Some ln \<Longrightarrow> loan_loan_id ln = i \<and> i < NextLoanId p"
  by (auto simp: loan_book_gap_def not_le [symmetric])

text \<open>Rewriting one loan, with the total adjusted by what it owes more or less.\<close>

lemma book_after_edit:
  assumes ok: "loan_book_gap d p" and ln: "Loans p i = Some ln"
    and q: "NextLoanId q = NextLoanId p" "Loans q = (Loans p)(i \<mapsto> ln')" "loan_loan_id ln' = i"
      "TotalLoan q = TotalLoan p + loan_balance_total ln' - loan_balance_total ln"
  shows "book_after d p q"
  by (rule book_after_upd [OF ok, of _ "Some ln'" i]) (use loan_book_id [OF ok ln] in \<open>simp_all add: owed_def ln q\<close>)

lemma add_collateral_book:
  fixes w :: "'z loan_store_scheme world"
  assumes ok: "loan_book_gap d (pallet w)"
  shows "wp (add_collateral og i x) (\<lambda>_ t. book_after d (pallet w) (pallet t)) (\<lambda>t. book_after d (pallet w) (pallet t)) w"
proof (cases "Loans (pallet w) i")
  case None
  then show ?thesis using ok by (simp add: add_collateral_def loan_wp split: origin.splits)
next
  case (Some ln)
  have id: "loan_loan_id ln = i" using loan_book_id [OF ok Some] by simp
  let ?ln = "ln\<lparr>collateral_balance_original := collateral_balance_original ln + x,
    collateral_balance_available := collateral_balance_available ln + x\<rparr>"
  have book: "book_after d (pallet w) q" if "q = pallet w \<or> NextLoanId q = NextLoanId (pallet w) \<and>
      TotalLoan q = TotalLoan (pallet w) \<and> Loans q = (Loans (pallet w))(i \<mapsto> ?ln)" for q :: "'z loan_store_scheme"
    using that ok book_after_edit [OF ok Some, of q ?ln] id by auto
  have get: "get_loan_by_id (pallet w) i = ln" by (simp add: get_loan_by_id_def Some)
  show ?thesis
    unfolding add_collateral_def add_loan_collateral_def
    by (auto simp: loan_wp Some id get ok intro!: wp_transfer book simp del: book_after_irrelevant split: origin.splits)
qed

lemma draw_book:
  fixes w :: "'z loan_store_scheme world"
  assumes ok: "loan_book_gap d (pallet w)"
  shows "wp (draw unit_hooks og i x) (\<lambda>_ t. book_after d (pallet w) (pallet t)) (\<lambda>t. book_after d (pallet w) (pallet t)) w"
proof (cases "Loans (pallet w) i")
  case None
  then show ?thesis using ok by (simp add: draw_def draw_from_loan_def loan_wp split: origin.splits)
next
  case (Some ln)
  let ?ln = "ln\<lparr>loan_balance_total := loan_balance_total ln + x\<rparr>"
  have book: "book_after d (pallet w) q" if "q = pallet w \<or> NextLoanId q = NextLoanId (pallet w) \<and>
      TotalLoan q = TotalLoan (pallet w) + x \<and> Loans q = (Loans (pallet w))(i \<mapsto> ?ln)" for q :: "'z loan_store_scheme"
    using that ok book_after_edit [OF ok Some, of q ?ln] loan_book_id [OF ok Some] by auto
  have get: "get_loan_by_id (pallet w) i = ln" by (simp add: get_loan_by_id_def Some)
  show ?thesis
    unfolding draw_def draw_from_loan_def
    by (auto simp: loan_wp Some get ok Let_def intro!: wp_mint wp_burn book simp del: book_after_irrelevant
        split: origin.splits)
qed

lemma apply_book:
  fixes w :: "'z loan_store_scheme world"
  assumes ok: "loan_book_gap d (pallet w)" and nxt: "NextLoanId (pallet w) \<noteq> max_value"
  shows "wp (apply_call unit_hooks og c l i) (\<lambda>_ t. book_after d (pallet w) (pallet t)) (\<lambda>t. book_after d (pallet w) (pallet t)) w"
proof -
  let ?n = "NextLoanId (pallet w)"
  have lt: "?n < ?n + 1"
    using nxt by (rule word_less_succ)
  have book: "book_after d (pallet w) q" if "(NextLoanId q = ?n \<or> NextLoanId q = ?n + 1) \<and> TotalLoan q = TotalLoan (pallet w) \<and>
        Loans q = Loans (pallet w) \<or>
      NextLoanId q = ?n + 1 \<and> (Loans q)(?n := None) = (Loans (pallet w))(?n := None) \<and>
        (case Loans q ?n of None \<Rightarrow> False
         | Some ln \<Rightarrow> TotalLoan q = TotalLoan (pallet w) + loan_balance_total ln \<and> loan_loan_id ln = ?n)"
    for q :: "'z loan_store_scheme"
    using that
  proof
    assume new: "NextLoanId q = ?n + 1 \<and> (Loans q)(?n := None) = (Loans (pallet w))(?n := None) \<and>
        (case Loans q ?n of None \<Rightarrow> False
         | Some ln \<Rightarrow> TotalLoan q = TotalLoan (pallet w) + loan_balance_total ln \<and> loan_loan_id ln = ?n)"
    then obtain ln where ln: "Loans q ?n = Some ln" "TotalLoan q = TotalLoan (pallet w) + loan_balance_total ln"
      "loan_loan_id ln = ?n" by (auto split: option.splits)
    have "Loans q = (Loans (pallet w))(?n \<mapsto> ln)"
      using new ln(1) by (metis fun_upd_triv fun_upd_upd)
    with new ln have "NextLoanId q = ?n + 1 \<and> (\<exists>ln. TotalLoan q = TotalLoan (pallet w) + loan_balance_total ln \<and>
        Loans q = (Loans (pallet w))(?n \<mapsto> ln) \<and> loan_loan_id ln = ?n)" by blast
    moreover have "Loans (pallet w) ?n = None" using ok by (simp add: loan_book_gap_def)
    ultimately show ?thesis
      using lt by (auto intro!: book_after_upd [OF ok, of _ "Some _" ?n] simp: owed_def)
  next
    assume same: "(NextLoanId q = ?n \<or> NextLoanId q = ?n + 1) \<and> TotalLoan q = TotalLoan (pallet w) \<and>
        Loans q = Loans (pallet w)"
    then have "?n \<le> NextLoanId q" using lt by auto
    with same show ?thesis by (intro book_after_same [OF ok]) simp_all
  qed
  show ?thesis
    unfolding apply_call_def apply_for_loan_def get_collateral_loan_def
    by (auto simp: loan_wp ok Let_def get_dues_def intro!: wp_transfer wp_mint wp_burn book simp del: book_after_irrelevant
        split: origin.splits option.splits)
qed

subsection \<open>The block hook leaves what is owed alone\<close>

lemma same_debts_refl: "same_debts w w"
  and same_debts_trans: "same_debts w t \<Longrightarrow> same_debts t u \<Longrightarrow> same_debts w u"
  by (simp_all add: same_debts_def)

lemma same_debts_at:
  "same_debts w t \<Longrightarrow> map_option debt (Loans (pallet t) j) = map_option debt (Loans (pallet w) j)"
  unfolding same_debts_def by blast

lemma same_debts_owed:
  assumes "same_debts w t"
  shows "map_option loan_balance_total (Loans (pallet t) j) = map_option loan_balance_total (Loans (pallet w) j)"
  using same_debts_at [OF assms, of j] by (cases "Loans (pallet w) j") (auto simp: debt_def)

lemma same_debts_book:
  assumes ok: "loan_book_gap d (pallet w)" and same: "same_debts w t"
  shows "loan_book_gap d (pallet t)"
proof -
  have eq: "Loans (pallet t) j = None \<and> Loans (pallet w) j = None \<or>
      (\<exists>a b. Loans (pallet t) j = Some a \<and> Loans (pallet w) j = Some b \<and> debt a = debt b)" for j
    using same_debts_at [OF same, of j] by (cases "Loans (pallet w) j") auto
  have "(\<lambda>j. owed (Loans (pallet t) j)) = (\<lambda>j. owed (Loans (pallet w) j))"
  proof
    fix j show "owed (Loans (pallet t) j) = owed (Loans (pallet w) j)"
      using eq [of j] by (auto simp: owed_def debt_def)
  qed
  moreover have "loan_loan_id ln = j" if "Loans (pallet t) j = Some ln" for j ln
    using eq [of j] that ok by (auto simp: loan_book_gap_def debt_def)
  moreover have "Loans (pallet t) j = None" if "NextLoanId (pallet t) \<le> j" for j
    using eq [of j] that ok same by (auto simp: loan_book_gap_def same_debts_def)
  moreover have "TotalLoan (pallet t) = TotalLoan (pallet w)" using same by (simp add: same_debts_def)
  ultimately show ?thesis
    using ok unfolding loan_book_gap_def by metis
qed

abbreviation keeps_debts where
  "keeps_debts w s t \<equiv> same_debts w s \<longrightarrow> same_debts w t"

interpretation debts: effect_order "keeps_debts w" for w
  by unfold_locales auto

lemma same_debts_field:
  assumes "same_debts w s" and "map_option debt (Loans (pallet w) i) = Some d" and "debt ln = d"
    and "TotalLoan (pallet t) = TotalLoan (pallet s)" and "NextLoanId (pallet t) = NextLoanId (pallet s)"
    and "Loans (pallet t) = (Loans (pallet s))(i \<mapsto> ln)"
  shows "same_debts w t"
proof -
  have "map_option debt (Loans (pallet t) j) = map_option debt (Loans (pallet w) j)" for j
    using same_debts_at [OF assms(1), of j] assms(2,3)
    by (cases "j = i") (simp_all add: assms(6) del: map_option_eq_Some)
  with assms(1,4,5) show ?thesis by (simp add: same_debts_def)
qed

lemma same_debts_other:
  assumes "same_debts w s" and "TotalLoan (pallet t) = TotalLoan (pallet s)"
    and "NextLoanId (pallet t) = NextLoanId (pallet s)" and "Loans (pallet t) = Loans (pallet s)"
  shows "same_debts w t"
  using assms unfolding same_debts_def by simp

lemma other_writes_debts:
  "effects (keeps_debts w) (loan_event e)"
  "effects (keeps_debts w) (mutate (\<lambda>p. p\<lparr>LiquidatingLoans := g p\<rparr>))"
  unfolding loan_event_def by (rule effects_mutateI, rule impI, erule same_debts_other; simp)+

lemma insert_loan_debts:
  assumes cur: "map_option debt (Loans (pallet w) i) = Some d" and ln: "debt ln = d"
  shows "effects (keeps_debts w) (insert_loan i ln)"
proof (rule effectsI, rule impI)
  fix s t assume "final (insert_loan i ln s) = Some t" and s: "same_debts w s"
  then have "t = s\<lparr>pallet := (pallet s)\<lparr>Loans := (Loans (pallet s))(i \<mapsto> ln)\<rparr>\<rparr>"
    by (simp add: insert_loan_def)
  then show "same_debts w t"
    by (intro same_debts_field [OF s cur ln]) simp_all
qed

lemma mutate_loan_debts:
  assumes cur: "map_option debt (Loans (pallet w) i) = Some d" and f: "\<And>v. debt (f v) = debt v"
  shows "effects (keeps_debts w) (mutate_loan i f)"
proof (rule effectsI, rule impI)
  fix s t assume run: "final (mutate_loan i f s) = Some t" and s: "same_debts w s"
  have "map_option debt (Loans (pallet s) i) = Some d"
    using same_debts_at [OF s] cur by (rule trans)
  then obtain v where v: "Loans (pallet s) i = Some v" "debt v = d" by auto
  then have fv: "debt (f v) = d" by (simp add: f)
  from run v(1) have "t = s\<lparr>pallet := (pallet s)\<lparr>Loans := (Loans (pallet s))(i \<mapsto> f v)\<rparr>\<rparr>"
    by (simp add: mutate_loan_def get_loan_by_id_def)
  then show "same_debts w t"
    by (intro same_debts_field [OF s cur fv]) simp_all
qed

lemma debt_simps [simp]:
  "debt (v\<lparr>loan_status := s\<rparr>) = debt v"
  "debt (expire_then_update v pk now a b) = debt v"
  by (simp_all add: debt_def expire_then_update_def Let_def split: prod.splits)

lemma liquidate_loan_debts:
  "map_option debt (Loans (pallet w) i) = Some d \<Longrightarrow> effects (keeps_debts w) (liquidate_loan i l)"
  unfolding liquidate_loan_def by (intro debts.effects_intros other_writes_debts mutate_loan_debts) simp_all

lemma loan_pure_debts:
  "effects (keeps_debts w) (get_ltv c l pr)"
  "effects (keeps_debts w) (expiration_penalty ln rate pr)"
  "effects (keeps_debts w) (expiration_interest ln pk pr)"
  "effects (keeps_debts w) (check_loan_health ln now pr l1 l2)"
  unfolding get_ltv_def expiration_penalty_def expiration_interest_def check_loan_health_def
  by (intro debts.effects_intros)+

lemma expire_loan_debts:
  assumes cur: "map_option debt (Loans (pallet w) i) = Some (debt ln)"
  shows "effects (keeps_debts w) (expire_loan now pr l1 l2 i ln acc)"
proof -
  have ins: "effects (keeps_debts w) (insert_loan i (expire_then_update ln pk now a b))"
    "effects (keeps_debts w) (insert_loan i ((expire_then_update ln pk now a b)\<lparr>loan_status := s\<rparr>))" for pk a b s
    by (intro insert_loan_debts [OF cur], simp)+
  show ?thesis
    unfolding expire_loan_def Let_def
    by (intro debts.effects_intros loan_pure_debts other_writes_debts liquidate_loan_debts [OF cur] ins)
qed

lemma check_loan_debts:
  assumes cur: "map_option debt (Loans (pallet w) i) = Some (debt ln)" and id: "loan_loan_id ln = i"
  shows "effects (keeps_debts w) (check_loan now pr l1 l2 i ln acc)"
proof -
  have mut: "effects (keeps_debts w) (mutate_loan i (\<lambda>v. v\<lparr>loan_status := s\<rparr>))" for s
    by (intro mutate_loan_debts [OF cur]) simp
  note rules = debts.effects_intros loan_pure_debts other_writes_debts liquidate_loan_debts [OF cur] mut
    expire_loan_debts [OF cur]
  have body: "effects (keeps_debts w) (case h of
         Well \<Rightarrow> return acc
       | Warning l \<Rightarrow> and_then
           (whenever (loan_status ln \<noteq> Warning l)
             (steps [mutate_loan i (\<lambda>v. v\<lparr>loan_status := Warning l\<rparr>), loan_event (LoanWarning i l)]))
           (\<lambda>_. return acc)
       | Extended \<Rightarrow> and_then
           (whenever (loan_status ln \<noteq> Extended)
             (steps [mutate_loan i (\<lambda>v. v\<lparr>loan_status := Extended\<rparr>),
                     loan_event (LoanExtended i (loan_who ln))]))
           (\<lambda>_. return acc)
       | Liquidating l \<Rightarrow> and_then
           (steps
             [liquidate_loan i l,
              loan_event (LoanLiquidating i (loan_who ln) (collateral_balance_available ln) (loan_balance_total ln))])
           (\<lambda>_. return acc)
       | Expired \<Rightarrow> expire_loan now pr l1 l2 i ln acc)" for h
    by (cases h) (simp_all only: LoanHealth.case, (intro rules)+)
  show ?thesis
    unfolding check_loan_def id by (intro rules body)
qed

lemma check_loans_debts:
  assumes "\<forall>(i, ln) \<in> set es. Loans (pallet w) i = Some ln \<and> loan_loan_id ln = i"
  shows "effects (keeps_debts w) (check_loans now pr l1 l2 es acc)"
  using assms
proof (induction es arbitrary: acc)
  case Nil
  show ?case by (simp only: check_loans.simps debts.effects_return)
next
  case (Cons e es)
  obtain i ln where e: "e = (i, ln)" by (cases e)
  have "effects (keeps_debts w) (check_loan now pr l1 l2 (fst e) (snd e) acc)"
    using Cons.prems by (intro check_loan_debts) (simp_all add: e)
  with Cons show ?case
    unfolding check_loans.simps by (intro debts.effects_and_then) simp_all
qed

lemma collect_fees_debts: "effects (keeps_debts w) (collect_expiration_fees a b)"
proof -
  have "effects (keeps_debts w) (make_transfer_with_event i x y z)" for i x y z
  proof (rule effectsI, rule impI)
    fix s t assume "final (make_transfer_with_event i x y z s) = Some t" and s: "same_debts w s"
    then have "pallet t = pallet s" using effectsD [OF make_transfer_with_event_keeps_pallet] by blast
    then show "same_debts w t" by (intro same_debts_other [OF s]) simp_all
  qed
  moreover have "effects (keeps_debts w) (mutate (\<lambda>p. p\<lparr>TotalCollateral := x\<rparr>))" for x
    by (rule effects_mutateI, rule impI, erule same_debts_other; simp)
  ultimately show ?thesis
    unfolding collect_expiration_fees_def by (intro debts.effects_intros)
qed

lemma loan_on_initialize_book:
  assumes ok: "loan_book_gap d (pallet w)" and es: "\<forall>(i, ln) \<in> set es. Loans (pallet w) i = Some ln"
    and run: "final (loan_on_initialize es w) = Some w'"
  shows "loan_book_gap d (pallet w') \<and> same_debts w w'"
proof -
  have "\<forall>(i, ln) \<in> set es. Loans (pallet w) i = Some ln \<and> loan_loan_id ln = i"
    using es loan_book_id [OF ok] by fast
  note loop = check_loans_debts [OF this]
  have "effects (keeps_debts w) (loan_on_initialize es)"
    unfolding loan_on_initialize_def on_each_block_def
    by (intro debts.effects_intros loop collect_fees_debts)
  from effectsD [OF this run] same_debts_refl have "same_debts w w'" by blast
  with same_debts_book [OF ok this] show ?thesis by blast
qed

subsection \<open>A finished liquidation widens the gap\<close>

lemma book_after_liquidated:
  assumes ok: "loan_book_gap d p" and same: "TotalLoan q = TotalLoan p" "NextLoanId q = NextLoanId p"
    and loans: "Loans q = (Loans p)(i := None)"
  shows "book_after (d + owed (Loans p i)) p q"
proof -
  have "(\<lambda>j. owed (Loans q j)) = (\<lambda>j. owed (Loans p j))(i := 0)"
    by (auto simp: loans owed_def)
  with sum_update [of "\<lambda>j. owed (Loans p j)" i 0]
  have "sum (\<lambda>j. owed (Loans q j)) UNIV + owed (Loans p i) = sum (\<lambda>j. owed (Loans p j)) UNIV"
    by (simp only: add_0_right)
  then show ?thesis
    using ok by (auto simp: book_after_def loan_book_gap_def same loans algebra_simps)
qed

lemma mark_liquidated_book:
  fixes w :: "'z loan_store_scheme world" and i :: loan_id and b :: balance
  assumes ok: "loan_book_gap d (pallet w)"
  defines "I \<equiv> \<lambda>t. book_after (d + liquidated_debt (LcMarkLiquidated i b) (pallet w) (pallet t)) (pallet w) (pallet t)"
  shows "wp (mark_liquidated og i b) (\<lambda>_. I) I w"
proof (cases "Loans (pallet w) i")
  case None
  then have "I w" using ok by (simp add: I_def liquidated_debt_def owed_def)
  then show ?thesis using None by (simp add: mark_liquidated_def loan_wp split: origin.splits)
next
  case (Some ln)
  have id: "loan_loan_id ln = i" using loan_book_id [OF ok Some] by simp
  have inv: "I t" if "pallet t = pallet w \<or> TotalLoan (pallet t) = TotalLoan (pallet w) \<and>
      NextLoanId (pallet t) = NextLoanId (pallet w) \<and> Loans (pallet t) = (Loans (pallet w))(i := None)" for t
    using that ok book_after_liquidated [OF ok, of "pallet t" i] by (auto simp: I_def liquidated_debt_def Some)
  show ?thesis
    unfolding mark_liquidated_def mark_loan_liquidated_def settle_leftover_def
    by (auto simp: loan_wp Some id Let_def intro!: wp_transfer inv split: origin.splits option.splits)
qed

lemma dispatch_loan_book:
  assumes ok: "loan_book_gap d (pallet w)" and nxt: "NextLoanId (pallet w) \<noteq> max_value"
    and run: "final (dispatch_loan unit_hooks og c w) = Some w'"
  shows "book_after (d + liquidated_debt c (pallet w) (pallet w')) (pallet w) (pallet w')"
proof -
  let ?I = "\<lambda>t. book_after (d + liquidated_debt c (pallet w) (pallet t)) (pallet w) (pallet t)"
  have "wp (dispatch_loan unit_hooks og c) (\<lambda>_. ?I) ?I w"
  proof (cases c)
    case (LcMarkLiquidated i b)
    then show ?thesis using mark_liquidated_book [OF ok] by simp
  qed (simp_all add: liquidated_debt_def repay_book [OF ok] add_collateral_book [OF ok] draw_book [OF ok]
      apply_book [OF ok nxt],
      simp_all add: ok loan_wp loan_pause_def loan_resume_def set_collateral_asset_id_def
      set_global_ltv_limit_def set_loan_asset_id_def set_global_liquidation_threshold_def
      set_global_warning_threshold_def set_loan_cap_def set_liquidation_account_def set_penalty_rate_def
      create_package_def create_loan_package_def disable_package_def disable_loan_package_def set_price_def Let_def)
  with run show ?thesis by (simp add: wp_final [of _ ?I])
qed

end
