(* ===== verification/Loan_Calls.thy ===== *)
theory Loan_Calls
  imports Loan_Book
begin

text \<open>
  What the calls of the loan pallet do: the limit a new loan respects, the exact effect of a
  repayment, what a pause stops, and the situations in which the code does not do what it is
  meant to. The properties of the pallet are stated here.
\<close>

section \<open>The loan-to-value limit\<close>

lemma precisions [simp]:
  "(ucast LTV_PREC :: balance) = 10000" "(ucast PRICE_PREC :: balance) = 10000"
  "(ucast INTEREST_RATE_PREC :: balance) = 100000000"
  by (simp_all add: LTV_PREC_def PRICE_PREC_def PRICE_PRECISION_def INTEREST_RATE_PREC_def)

definition within_ltv :: "balance \<Rightarrow> balance \<Rightarrow> price \<Rightarrow> ltv \<Rightarrow> bool" where
  "within_ltv collateral amount pr limit \<longleftrightarrow>
     unat amount * 100000000 div (unat collateral * unat pr) \<le> unat limit"

lemma unat_ucast_ltv [simp]: "unat (ucast (l :: ltv) :: balance) = unat l"
  using unat_bound [of l] by (simp add: unsigned_ucast_eq take_bit_nat_eq_self_iff)

lemma unat_times3:
  assumes "unat (a :: balance) * unat b * unat c < 2 ^ 128"
  shows "unat (a * b * c) = unat a * unat b * unat c"
  using assms by (simp add: unat_word_ariths mod_mult_left_eq)

lemma can_loan_within:
  assumes "unat c * unat p * unat l < 2 ^ 128" and "c \<noteq> 0" and "p \<noteq> 0"
  shows "within_ltv c (c * p * ucast (l :: ltv) div 100000000) p l"
proof -
  have pos: "0 < unat c * unat p" using assms(2,3) by (simp add: unat_gt_0)
  have "unat (c * p * ucast l) = unat c * unat p * unat l"
    using unat_times3 [of c p "ucast l"] assms(1) by simp
  then have "unat (c * p * ucast l div 100000000) * 100000000 \<le> unat c * unat p * unat l"
    by (simp add: unat_div)
  then have "unat (c * p * ucast l div 100000000) * 100000000 div (unat c * unat p)
    \<le> (unat c * unat p) * unat l div (unat c * unat p)"
    by (intro div_le_mono) (simp add: ac_simps)
  with pos show ?thesis by (simp add: within_ltv_def)
qed

lemma checked_loan_within:
  assumes "unat a * 100000000 < 2 ^ 128" and "a * 10000 * 10000 div c div p \<le> (ucast (l :: ltv) :: balance)"
  shows "within_ltv c a p l"
proof -
  have "unat (a * 10000 * 10000) = unat a * 100000000"
    using assms(1) unat_times3 [of a 10000 10000] by simp
  then have "unat (a * 10000 * 10000 div c div p) = unat a * 100000000 div (unat c * unat p)"
    by (simp add: unat_div div_mult2_eq)
  with assms(2) show ?thesis
    by (simp add: within_ltv_def word_le_nat_alt)
qed

lemma wp_get_collateral_loan:
  assumes c: "c \<noteq> 0" "CurrentBTCPrice (pallet w) \<noteq> 0"
    and fits: "unat c * unat (CurrentBTCPrice (pallet w)) * unat (GlobalLTVLimit (pallet w)) < 2 ^ 128"
      "unat l * 100000000 < 2 ^ 128"
  shows "wp (get_collateral_loan c l) (\<lambda>cl t. t = w \<and> cl_collateral_amount cl = c \<and>
      within_ltv c (cl_loan_amount cl) (CurrentBTCPrice (pallet w)) (GlobalLTVLimit (pallet w))) (\<lambda>_. True) w"
  using c can_loan_within [OF fits(1) c] checked_loan_within [OF fits(2)]
  by (simp add: get_collateral_loan_def wp_simps not_less)

section \<open>Repayment\<close>

lemma swap_and_burn:
  assumes ok: "supply_ok w" and ne: "a \<noteq> c" "who \<noteq> shop" and funds: "x \<le> FreeBalance w a who" "y \<le> FreeBalance w c shop"
    and asset: "Symbols w a \<noteq> None" "Symbols w c \<noteq> None" "Restrictions w a Transferable = None"
      "Restrictions w c Transferable = None" "check_permission w a (RootKey w) Burn"
  shows "\<exists>w1 w2 w3. make_transfer_with_event a who shop x w = Ok () w1 \<and> make_transfer_with_event c shop who y w1 = Ok () w2 \<and>
    burn unit_hooks Root a shop x w2 = Ok () w3 \<and> supply_ok w3 \<and> pallet w3 = pallet w \<and>
    unat (TotalIssuance w3 a) + unat x = unat (TotalIssuance w a) \<and>
    unat (FreeBalance w3 a who) + unat x = unat (FreeBalance w a who) \<and>
    unat (FreeBalance w3 c who) = unat (FreeBalance w c who) + unat y"
proof -
  define w1 where "w1 = sent w a who shop x"
  define w2 where "w2 = sent w1 c shop who y"
  define w3 where "w3 = burnt w2 a shop x"
  note t1 = transfer_run [OF ok funds(1) asset(1,3), of shop, folded w1_def]
  have f1: "y \<le> FreeBalance w1 c shop" "Symbols w1 c \<noteq> None" "Restrictions w1 c Transferable = None"
    using funds(2) ne(1) asset by (simp_all add: w1_def)
  note t2 = transfer_run [OF t1(2) f1, of who, folded w2_def]
  have f2: "x \<le> FreeBalance w2 a shop"
    using free_moved(1) [OF ok funds(1) ne(2)] ne(1) by (simp add: w2_def w1_def word_le_nat_alt)
  have as2: "Symbols w2 a \<noteq> None" "check_permission w2 a (RootKey w2) Burn" using asset by (simp_all add: w2_def w1_def)
  have "x \<le> TotalIssuance w a" using funds(1) free_le_issuance [OF ok, of a who] by simp
  then have "unat (TotalIssuance w3 a) + unat x = unat (TotalIssuance w a)"
    by (simp add: w3_def w2_def w1_def unat_minus word_le_nat_alt)
  moreover have "unat (FreeBalance w3 a who) + unat x = unat (FreeBalance w a who)"
    using free_moved(2) [OF ok funds(1) ne(2)] ne funds(1) by (simp add: w3_def w2_def w1_def word_le_nat_alt)
  moreover have "unat (FreeBalance w3 c who) = unat (FreeBalance w c who) + unat y"
    using free_moved(1) [OF t1(2) f1(1)] ne by (simp add: w3_def w2_def) (simp add: w1_def)
  moreover have "supply_ok w3" unfolding w3_def by (rule supply_ok_burnt [OF t2(2) as2(1) f2])
  ultimately show ?thesis
    using t1(1) t2(1) burn_run [OF t2(2) as2 f2, folded w3_def] by (intro exI [of _ w1] exI [of _ w2] exI [of _ w3]) (simp add: w3_def w2_def w1_def)
qed

lemma repay_run:
  fixes w :: "'z loan_store_scheme world"
  assumes ok: "supply_ok w" and book: "loan_book_gap d (pallet w)" and live: "\<not> LoanPaused (pallet w)"
    and ln: "Loans (pallet w) i = Some ln" "\<not> check_loan_in_liquidation (pallet w) i"
    and pk: "LoanPackages (pallet w) (loan_package_id ln) = Some pk" "a = pkg_loan_asset_id pk" "c = pkg_collateral_asset_id pk"
      "a \<noteq> c"
    and who: "who = loan_who ln" "shop = PawnShop (pallet w)" "who \<noteq> shop"
    and funds: "loan_balance_total ln \<le> FreeBalance w a who" "collateral_balance_available ln \<le> FreeBalance w c shop"
    and asset: "Symbols w a \<noteq> None" "Symbols w c \<noteq> None" "Restrictions w a Transferable = None"
      "Restrictions w c Transferable = None" "check_permission w a (RootKey w) Burn"
  shows "\<exists>w'. repay unit_hooks (Signed who) i w = Ok () w' \<and> supply_ok w' \<and> Loans (pallet w') = (Loans (pallet w))(i := None) \<and>
    TotalLoan (pallet w') = TotalLoan (pallet w) - loan_balance_total ln \<and>
    unat (TotalIssuance w' a) + unat (loan_balance_total ln) = unat (TotalIssuance w a) \<and>
    unat (FreeBalance w' a who) + unat (loan_balance_total ln) = unat (FreeBalance w a who) \<and>
    unat (FreeBalance w' c who) = unat (FreeBalance w c who) + unat (collateral_balance_available ln)"
proof -
  let ?t = "loan_balance_total ln" and ?x = "collateral_balance_available ln"
  have id: "loan_loan_id ln = i" using loan_book_id [OF book ln(1)] by simp
  define p1 where "p1 = (pallet w)\<lparr>Loans := (Loans (pallet w))(i := None),
      LoansByAccount := (LoansByAccount (pallet w))(who := filter (\<lambda>e. e \<noteq> i) (LoansByAccount (pallet w) who)),
      TotalLoan := TotalLoan (pallet w) - ?t, TotalCollateral := TotalCollateral (pallet w) - ?x\<rparr>"
  define w1 where "w1 = w\<lparr>pallet := p1\<rparr>"
  have pre: "supply_ok w1" "?t \<le> FreeBalance w1 a who" "?x \<le> FreeBalance w1 c shop" "Symbols w1 a \<noteq> None" "Symbols w1 c \<noteq> None"
    "Restrictions w1 a Transferable = None" "Restrictions w1 c Transferable = None" "check_permission w1 a (RootKey w1) Burn"
    using ok funds asset by (simp_all add: w1_def)
  obtain w2 w3 w4 where run: "make_transfer_with_event a who shop ?t w1 = Ok () w2" "make_transfer_with_event c shop who ?x w2 = Ok () w3"
    "burn unit_hooks Root a shop ?t w3 = Ok () w4" and w4: "supply_ok w4" "pallet w4 = p1"
      "unat (TotalIssuance w4 a) + unat ?t = unat (TotalIssuance w a)" "unat (FreeBalance w4 a who) + unat ?t = unat (FreeBalance w a who)"
      "unat (FreeBalance w4 c who) = unat (FreeBalance w c who) + unat ?x"
    using swap_and_burn [OF pre(1) pk(4) who(3) pre(2-8)] by (auto simp: w1_def)
  have get: "get_loan_by_id (pallet w) i = ln" "loan_package (pallet w) (loan_package_id ln) = pk"
    by (simp_all add: get_loan_by_id_def loan_package_def ln pk)
  define w' where "w' = w4\<lparr>pallet := p1\<lparr>LoanEvents := LoanEvents p1 @ [LoanRepaid i ?t ?x]\<rparr>\<rparr>"
  have "repay unit_hooks (Signed who) i w = Ok () w'"
    using live ln pk(1) funds
    by (simp add: repay_def not_paused_def repay_loan_def get who(1) [symmetric] who(2) [symmetric] pk(2) [symmetric] pk(3) [symmetric]
        getter_defs id p1_def [symmetric] w1_def [symmetric] on_err_apply run loan_event_def w4(2) w'_def)
  with w4 show ?thesis by (intro exI [of _ w']) (simp add: w'_def, simp add: p1_def)
qed

section \<open>Drawing\<close>

definition available_credit :: "'z loan_store_scheme \<Rightarrow> Loan \<Rightarrow> balance" where
  "available_credit p ln =
     collateral_balance_available ln * CurrentBTCPrice p * ucast (GlobalLTVLimit p) div 10000 div 10000
       - loan_balance_total ln"

lemma two_mints_run:
  assumes ok: "supply_ok w" and asset: "Symbols w a \<noteq> None" "check_permission w a (RootKey w) Mint"
    and le: "f \<le> x" and room: "unat (TotalIssuance w a) + unat x < 2 ^ 128"
  shows "\<exists>w1 w2. mint unit_hooks Root a pool f w = Ok () w1 \<and> mint unit_hooks Root a who (x - f) w1 = Ok () w2 \<and>
    pallet w2 = pallet w \<and> supply_ok w2 \<and> unat (TotalIssuance w2 a) = unat (TotalIssuance w a) + unat x \<and>
    (who \<noteq> pool \<longrightarrow> unat (FreeBalance w2 a who) = unat (FreeBalance w a who) + unat (x - f) \<and>
       unat (FreeBalance w2 a pool) = unat (FreeBalance w a pool) + unat f)"
proof -
  have split: "unat f + unat (x - f) = unat x" using le by (simp add: unat_minus word_le_nat_alt)
  have r1: "unat (TotalIssuance w a) + unat f < 2 ^ 128" using room split by simp
  define w1 where "w1 = minted w a pool f"
  define w2 where "w2 = minted w1 a who (x - f)"
  note m1 = mint_run [OF asset r1 mint_room [OF ok r1], of pool, folded w1_def]
  have ok1: "supply_ok w1" unfolding w1_def by (rule supply_ok_minted [OF ok asset(1) r1])
  have ti1: "unat (TotalIssuance w1 a) = unat (TotalIssuance w a) + unat f" using r1 by (simp add: w1_def unat_plus)
  have r2: "unat (TotalIssuance w1 a) + unat (x - f) < 2 ^ 128" using ti1 room split by simp
  have asset1: "Symbols w1 a \<noteq> None" "check_permission w1 a (RootKey w1) Mint" using asset by (simp_all add: w1_def)
  note m2 = mint_run [OF asset1 r2 mint_room [OF ok1 r2], of who, folded w2_def]
  have "unat (TotalIssuance w2 a) = unat (TotalIssuance w a) + unat x"
    using unat_plus [of "TotalIssuance w1 a" "x - f"] r2 ti1 split by (simp add: w2_def)
  moreover have "unat (FreeBalance w2 a who) = unat (FreeBalance w a who) + unat (x - f)"
    "unat (FreeBalance w2 a pool) = unat (FreeBalance w a pool) + unat f" if "who \<noteq> pool"
    using that unat_plus [of "FreeBalance w1 a who" "x - f"] mint_room [OF ok1 r2, of who]
      unat_plus [of "FreeBalance w a pool" f] mint_room [OF ok r1, of pool]
    by (simp_all add: w2_def) (simp_all add: w1_def)
  moreover have "supply_ok w2" unfolding w2_def by (rule supply_ok_minted [OF ok1 asset1(1) r2])
  moreover have "pallet w2 = pallet w" by (simp add: w2_def w1_def)
  ultimately show ?thesis using m1 m2 by blast
qed

lemma draw_run:
  fixes w :: "'z loan_store_scheme world"
  assumes ok: "supply_ok w" and live: "\<not> LoanPaused (pallet w)"
    and ln: "Loans (pallet w) i = Some ln" "who = loan_who ln"
    and pk: "LoanPackages (pallet w) (loan_package_id ln) = Some pk" "a = pkg_loan_asset_id pk"
    and x: "x \<le> available_credit (pallet w) ln" "get_interest pk x \<le> x"
    and asset: "Symbols w a \<noteq> None" "check_permission w a (RootKey w) Mint"
    and room: "unat (TotalIssuance w a) + unat x < 2 ^ 128"
  shows "\<exists>w'. draw unit_hooks (Signed who) i x w = Ok () w' \<and> supply_ok w' \<and>
    Loans (pallet w') = (Loans (pallet w))(i \<mapsto> ln\<lparr>loan_balance_total := loan_balance_total ln + x\<rparr>) \<and>
    unat (TotalIssuance w' a) = unat (TotalIssuance w a) + unat x \<and>
    (who \<noteq> LoanProfitPool (pallet w) \<longrightarrow>
       unat (FreeBalance w' a who) = unat (FreeBalance w a who) + unat (x - get_interest pk x) \<and>
       unat (FreeBalance w' a (LoanProfitPool (pallet w)))
         = unat (FreeBalance w a (LoanProfitPool (pallet w))) + unat (get_interest pk x))"
proof -
  obtain w1 w2 where m: "mint unit_hooks Root a (LoanProfitPool (pallet w)) (get_interest pk x) w = Ok () w1"
    "mint unit_hooks Root a who (x - get_interest pk x) w1 = Ok () w2"
    and w2: "pallet w2 = pallet w" "supply_ok w2" "unat (TotalIssuance w2 a) = unat (TotalIssuance w a) + unat x"
      "who \<noteq> LoanProfitPool (pallet w) \<longrightarrow>
         unat (FreeBalance w2 a who) = unat (FreeBalance w a who) + unat (x - get_interest pk x) \<and>
         unat (FreeBalance w2 a (LoanProfitPool (pallet w)))
           = unat (FreeBalance w a (LoanProfitPool (pallet w))) + unat (get_interest pk x)"
    using two_mints_run [OF ok asset x(2) room, of "LoanProfitPool (pallet w)" who] by blast
  have get: "get_loan_by_id (pallet w) i = ln" "loan_package (pallet w) (loan_package_id ln) = pk"
    by (simp_all add: get_loan_by_id_def loan_package_def ln pk)
  define w' where "w' = w2\<lparr>pallet := (pallet w)
    \<lparr>Loans := (Loans (pallet w))(i \<mapsto> ln\<lparr>loan_balance_total := loan_balance_total ln + x\<rparr>),
     TotalLoan := TotalLoan (pallet w) + x, TotalProfit := TotalProfit (pallet w) + get_interest pk x,
     LoanEvents := LoanEvents (pallet w) @ [LoanDrawn i x]\<rparr>\<rparr>"
  have "draw unit_hooks (Signed who) i x w = Ok () w'"
    using live ln(1) x(1) by (simp add: draw_def not_paused_def draw_from_loan_def get pk(2) [symmetric] available_credit_def
        Let_def m on_err_apply mutate_loan_def w2(1) loan_event_def w'_def ln(2) [symmetric])
  with w2 show ?thesis by (intro exI [of _ w']) (simp add: w'_def)
qed

section \<open>A concrete storage\<close>

text \<open>
  One active package over the collateral asset 10 and the loan asset 30, a price of 5 with four
  decimals, a limit of 50 percent, and the loans given as argument.
\<close>

definition demo_package :: LoanPackage where
  "demo_package = \<lparr>pkg_id = 0, pkg_status = Active, pkg_terms = 10, pkg_min = 1, interest_rate_hourly = 1000,
     pkg_collateral_asset_id = 10, pkg_loan_asset_id = 30\<rparr>"

definition demo_debt :: "balance \<Rightarrow> balance \<Rightarrow> Loan" where
  "demo_debt collateral amount = \<lparr>loan_loan_id = 0, loan_package_id = 0, loan_who = 1, loan_due = 5000, loan_due_extend = 6000,
     collateral_balance_original = collateral, collateral_balance_available = collateral, loan_balance_total = amount,
     loan_status = Well\<rparr>"

definition demo_loan :: "(loan_id \<Rightarrow> Loan option) \<Rightarrow> balance \<Rightarrow> loan_id list option \<Rightarrow> loan_store" where
  "demo_loan loans total_loan liquidating = bridge_store.extend demo_bridge
     (loan_store.fields 20 21 10 30 5000 9000 8000 1 [0 \<mapsto> demo_package] [0 \<mapsto> demo_package] 1 loans (\<lambda>_. [])
        50000 total_loan 0 0 100 1 liquidating None False 1 1000 [])"

lemma demo_parts:
  "loan_loan_id (demo_debt c m) = 0" "loan_package_id (demo_debt c m) = 0" "loan_who (demo_debt c m) = 1"
  "collateral_balance_available (demo_debt c m) = c" "loan_balance_total (demo_debt c m) = m"
  "pkg_loan_asset_id demo_package = 30" "pkg_collateral_asset_id demo_package = 10"
  by (simp_all add: demo_debt_def demo_package_def)

lemma demo_loan_simps [simp]:
  "PawnShop (demo_loan ls tt lq) = 20" "LoanProfitPool (demo_loan ls tt lq) = 21"
  "CollateralAssetId (demo_loan ls tt lq) = 10" "LoanAssetId (demo_loan ls tt lq) = 30"
  "GlobalLTVLimit (demo_loan ls tt lq) = 5000" "GlobalLiquidationThreshold (demo_loan ls tt lq) = 9000"
  "GlobalWarningThreshold (demo_loan ls tt lq) = 8000" "NextLoanPackageId (demo_loan ls tt lq) = 1"
  "ActiveLoanPackages (demo_loan ls tt lq) = [0 \<mapsto> demo_package]" "LoanPackages (demo_loan ls tt lq) = [0 \<mapsto> demo_package]"
  "NextLoanId (demo_loan ls tt lq) = 1" "Loans (demo_loan ls tt lq) = ls" "LoansByAccount (demo_loan ls tt lq) = (\<lambda>_. [])"
  "CurrentBTCPrice (demo_loan ls tt lq) = 50000" "TotalLoan (demo_loan ls tt lq) = tt" "TotalCollateral (demo_loan ls tt lq) = 0"
  "TotalProfit (demo_loan ls tt lq) = 0" "PenaltyRate (demo_loan ls tt lq) = 100" "LiquidationAccount (demo_loan ls tt lq) = 1"
  "LiquidatingLoans (demo_loan ls tt lq) = lq" "LoanCap (demo_loan ls tt lq) = None" "LoanPaused (demo_loan ls tt lq) = False"
  "MinimumCollateral (demo_loan ls tt lq) = 1" "LiquidationPenalty (demo_loan ls tt lq) = 1000" "LoanEvents (demo_loan ls tt lq) = []"
  by (simp_all add: demo_loan_def bridge_store.defs loan_store.defs demo_bridge_def bridge_genesis_def)

lemma demo_loan_book: "loan_book_ok (demo_loan [0 \<mapsto> demo_debt c x] x lq)"
proof -
  have "(\<lambda>i :: loan_id. owed ([0 \<mapsto> demo_debt c x] i)) = (\<lambda>_. 0)(0 := x)"
    by (auto simp: owed_def demo_debt_def)
  moreover have "sum ((\<lambda>_. 0)(0 := x)) (UNIV :: loan_id set) = x"
    using sum_update [of "\<lambda>_. 0 :: balance" "0 :: loan_id" x] by (simp del: fun_upd_apply)
  ultimately have "sum (\<lambda>i :: loan_id. owed ([0 \<mapsto> demo_debt c x] i)) UNIV = x" by (simp only:)
  then show ?thesis
    by (simp add: loan_book_gap_def demo_debt_def del: fun_upd_apply) (auto split: if_splits)
qed

section \<open>Properties\<close>

text \<open>C5: the book of loans. Every call of the loan pallet, successful or failing, keeps every loan
  under its own identifier and, as long as identifiers are left, never reuses one: the counter of
  identifiers does not go back, and an identifier handed out before whose loan is gone stays free,
  so a new loan always takes an identifier not handed out before. Every call also keeps
  the difference between the recorded total of all loans and the sum of what the running loans
  owe; only the report of a finished liquidation, which removes the loan and leaves the total as
  it was, widens the difference by exactly the debt of the loan removed.\<close>

theorem loan_calls_keep_book:
  assumes "loan_book_gap d (pallet w)" and "NextLoanId (pallet w) \<noteq> max_value"
    and "final (dispatch_loan unit_hooks og c w) = Some w'"
  shows "loan_book_gap (d + liquidated_debt c (pallet w) (pallet w')) (pallet w') \<and>
    NextLoanId (pallet w) \<le> NextLoanId (pallet w') \<and>
    (\<forall>j < NextLoanId (pallet w). Loans (pallet w) j = None \<longrightarrow> Loans (pallet w') j = None)"
  using dispatch_loan_book [OF assms] by (simp add: book_after_def)

theorem loan_calls_keep_book_witness:
  "\<exists>w'. final (dispatch_loan unit_hooks (Signed 1) (LcMarkLiquidated 0 300)
       (demo_world [(10, 5000), (30, 700)] (demo_loan [0 \<mapsto> demo_debt 1000 100] 100 (Some [0])))) = Some w' \<and>
     Loans (pallet w') 0 = None \<and> loan_book_gap 100 (pallet w')"
proof -
  let ?w = "demo_world [(10, 5000), (30, 700)] (demo_loan [0 \<mapsto> demo_debt 1000 100] 100 (Some [0]))"
  obtain w' where w': "final (dispatch_loan unit_hooks (Signed 1) (LcMarkLiquidated 0 300) ?w) = Some w'"
    "Loans (pallet w') 0 = None"
    by (simp add: mark_liquidated_def mark_loan_liquidated_def settle_leftover_def check_loan_in_liquidation_def
        liquidating_loans_def not_paused_def demo_debt_def demo_package_def loan_package_def
        getter_defs make_transfer_with_event_sent loan_event_def LTV_PREC_def checked_sub_def moved_def op_defs)
  have "loan_book_ok (pallet ?w)" by (simp add: demo_loan_book)
  from loan_calls_keep_book [OF this _ w'(1)] w' show ?thesis
    by (auto simp: max_value_def liquidated_debt_def owed_def demo_debt_def)
qed

text \<open>C15: the start of a block never changes what is owed. Whatever the health check does to the
  loans it is given in the order of the storage (warnings, extensions, liquidations, expirations
  with their penalties), the same loans run afterwards, each owes exactly what it owed before, the
  recorded total and the counter of identifiers are the same, and the book of loans stays as right as it was.\<close>

theorem block_start_keeps_book:
  assumes "loan_book_gap d (pallet w)" and "\<forall>(i, ln) \<in> set es. Loans (pallet w) i = Some ln"
    and "final (loan_on_initialize es w) = Some w'"
  shows "loan_book_gap d (pallet w') \<and> TotalLoan (pallet w') = TotalLoan (pallet w) \<and>
    NextLoanId (pallet w') = NextLoanId (pallet w) \<and>
    (\<forall>j. map_option loan_balance_total (Loans (pallet w') j) = map_option loan_balance_total (Loans (pallet w) j))"
  using loan_on_initialize_book [OF assms] same_debts_owed by (auto simp: same_debts_def)

theorem block_start_keeps_book_witness:
  "\<exists>w'. final (loan_on_initialize [(0, demo_debt 1000 4800)]
       (demo_world [(10, 5000), (30, 700)] (demo_loan [0 \<mapsto> demo_debt 1000 4800] 4800 None))) = Some w' \<and>
     LiquidatingLoans (pallet w') = Some [0] \<and> loan_book_ok (pallet w')"
proof -
  let ?w = "demo_world [(10, 5000), (30, 700)] (demo_loan [0 \<mapsto> demo_debt 1000 4800] 4800 None)"
  obtain w' where w': "final (loan_on_initialize [(0, demo_debt 1000 4800)] ?w) = Some w'"
    "LiquidatingLoans (pallet w') = Some [0]"
    by (simp add: loan_on_initialize_def on_each_block_def check_loan_def check_loan_in_liquidation_def liquidating_loans_def
        check_loan_health_def get_ltv_def demo_debt_def try_into_u64_def liquidate_loan_def mutate_loan_def get_loan_by_id_def
        loan_event_def collect_expiration_fees_def)
  have "loan_book_ok (pallet ?w)" by (simp add: demo_loan_book)
  from block_start_keeps_book [OF this _ w'(1)] w' show ?thesis by auto
qed

text \<open>C12: a new loan respects the limit. When an application that names its collateral succeeds and the
  products it computes fit the balance type, the stored loan belongs to the applicant, locks
  exactly the collateral offered, and its loan-to-value ratio, rounded down to the precision of
  the pallet, is at most the global limit.\<close>

theorem apply_respects_ltv_limit:
  assumes c: "c \<noteq> 0" "CurrentBTCPrice (pallet w) \<noteq> 0"
    and fits: "unat c * unat (CurrentBTCPrice (pallet w)) * unat (GlobalLTVLimit (pallet w)) < 2 ^ 128"
      "unat l * 100000000 < 2 ^ 128"
    and run: "apply_call unit_hooks (Signed who) c l i w = Ok () w'"
  shows "\<exists>ln. Loans (pallet w') (NextLoanId (pallet w)) = Some ln \<and> loan_who ln = who \<and>
    collateral_balance_available ln = c \<and>
    within_ltv c (loan_balance_total ln) (CurrentBTCPrice (pallet w)) (GlobalLTVLimit (pallet w))"
proof -
  let ?Q = "\<lambda>t. \<exists>ln. Loans (pallet t) (NextLoanId (pallet w)) = Some ln \<and> loan_who ln = who \<and>
    collateral_balance_available ln = c \<and>
    within_ltv c (loan_balance_total ln) (CurrentBTCPrice (pallet w)) (GlobalLTVLimit (pallet w))"
  have "wp (apply_call unit_hooks (Signed who) c l i) (\<lambda>_. ?Q) (\<lambda>_. True) w"
    unfolding apply_call_def apply_for_loan_def
    by (auto simp: loan_wp c(1) Let_def get_dues_def split: option.splits
        intro!: wp_mono [OF wp_get_collateral_loan [OF c fits]] wp_transfer wp_mint wp_burn)
  with run show ?thesis by (simp add: wp_def)
qed

theorem apply_respects_ltv_limit_witness:
  "\<exists>w' ln. apply_call unit_hooks (Signed 1) 1000 2000 0
       (demo_world [(10, 5000), (30, 700)] (demo_loan [0 \<mapsto> demo_debt 1000 100] 100 None)) = Ok () w' \<and>
     Loans (pallet w') 1 = Some ln \<and> loan_who ln = 1 \<and> within_ltv 1000 (loan_balance_total ln) 50000 5000"
proof -
  let ?w = "demo_world [(10, 5000), (30, 700)] (demo_loan [0 \<mapsto> demo_debt 1000 100] 100 None)"
  obtain w' where w': "apply_call unit_hooks (Signed 1) 1000 2000 0 ?w = Ok () w'"
    by (simp add: apply_call_def not_paused_def apply_for_loan_def get_collateral_loan_def demo_package_def get_interest_def
        make_transfer_with_event_sent Let_def get_next_loan_id_def get_dues_def mint_run minted_def on_err_apply insert_loan_def
        loan_event_def)
  from apply_respects_ltv_limit [OF _ _ _ _ w'] w' show ?thesis by auto
qed

text \<open>C13: repaying closes a loan exactly. The owner of a running loan that is not in liquidation, who
  holds the debt, with a pawn shop (another account) that holds the collateral, in two different existing assets without
  transfer restriction, repays successfully while the pallet is not paused: the loan leaves the
  book, the debt is taken from the owner and destroyed, the collateral comes back in full, and
  issuance equals the holdings. The book may have any gap, so this holds before and after loans
  were liquidated.\<close>

theorem repay_closes_loan:
  assumes "supply_ok w" and "loan_book_gap d (pallet w)" and "\<not> LoanPaused (pallet w)"
    and "Loans (pallet w) i = Some ln" and "\<not> check_loan_in_liquidation (pallet w) i"
    and "LoanPackages (pallet w) (loan_package_id ln) = Some pk"
    and "a = pkg_loan_asset_id pk" and "c = pkg_collateral_asset_id pk" and "a \<noteq> c"
    and "who = loan_who ln" and "shop = PawnShop (pallet w)" and "who \<noteq> shop"
    and "loan_balance_total ln \<le> FreeBalance w a who" and "collateral_balance_available ln \<le> FreeBalance w c shop"
    and "Symbols w a \<noteq> None" and "Symbols w c \<noteq> None" and "Restrictions w a Transferable = None"
    and "Restrictions w c Transferable = None" and "check_permission w a (RootKey w) Burn"
  shows "\<exists>w'. repay unit_hooks (Signed who) i w = Ok () w' \<and> supply_ok w' \<and> Loans (pallet w') = (Loans (pallet w))(i := None) \<and>
    TotalLoan (pallet w') = TotalLoan (pallet w) - loan_balance_total ln \<and>
    unat (TotalIssuance w' a) + unat (loan_balance_total ln) = unat (TotalIssuance w a) \<and>
    unat (FreeBalance w' a who) + unat (loan_balance_total ln) = unat (FreeBalance w a who) \<and>
    unat (FreeBalance w' c who) = unat (FreeBalance w c who) + unat (collateral_balance_available ln)"
  by (rule repay_run) (fact assms)+

theorem repay_closes_loan_witness:
  "\<exists>w'. repay unit_hooks (Signed 1) 0 (moved (demo_world [(10, 5000), (30, 700)]
       (demo_loan [0 \<mapsto> demo_debt 1000 100] 100 None)) 10 1 20 1000) = Ok () w' \<and>
     Loans (pallet w') 0 = None \<and> unat (TotalIssuance w' 30) = 600 \<and> unat (FreeBalance w' 10 1) = 5000"
proof -
  let ?v = "demo_world [(10, 5000), (30, 700)] (demo_loan [0 \<mapsto> demo_debt 1000 100] 100 None)"
  define w where "w = moved ?v 10 1 20 1000"
  have ok: "supply_ok w" unfolding w_def by (rule supply_ok_moved [OF supply_ok_demo]) simp
  have p: "pallet w = demo_loan [0 \<mapsto> demo_debt 1000 100] 100 None" by (simp add: w_def)
  have bal: "FreeBalance w 30 1 = 700" "FreeBalance w 10 20 = 1000" "FreeBalance w 10 1 = 4000" "TotalIssuance w 30 = 700"
    by (simp_all add: w_def moved_def)
  have assets: "Symbols w 30 \<noteq> None" "Symbols w 10 \<noteq> None" "Restrictions w 30 Transferable = None"
    "Restrictions w 10 Transferable = None" "check_permission w 30 (RootKey w) Burn"
    by (simp_all add: w_def)
  have book: "loan_book_ok (pallet w)" by (simp add: p demo_loan_book)
  have ln: "Loans (pallet w) 0 = Some (demo_debt 1000 100)" by (simp add: p)
  have pk: "LoanPackages (pallet w) (loan_package_id (demo_debt 1000 100)) = Some demo_package"
    by (simp add: p demo_debt_def)
  have d: "loan_balance_total (demo_debt 1000 100) = 100" "collateral_balance_available (demo_debt 1000 100) = 1000"
    by (simp_all add: demo_debt_def)
  have "\<exists>w'. repay unit_hooks (Signed 1) 0 w = Ok () w' \<and> supply_ok w' \<and> Loans (pallet w') = (Loans (pallet w))(0 := None) \<and>
    TotalLoan (pallet w') = TotalLoan (pallet w) - loan_balance_total (demo_debt 1000 100) \<and>
    unat (TotalIssuance w' 30) + unat (loan_balance_total (demo_debt 1000 100)) = unat (TotalIssuance w 30) \<and>
    unat (FreeBalance w' 30 1) + unat (loan_balance_total (demo_debt 1000 100)) = unat (FreeBalance w 30 1) \<and>
    unat (FreeBalance w' 10 1) = unat (FreeBalance w 10 1) + unat (collateral_balance_available (demo_debt 1000 100))"
    by (rule repay_closes_loan [OF ok book _ ln _ pk _ _ _ _ _ _ _ _ assets, where shop = 20])
      (simp_all add: p bal d demo_debt_def demo_package_def check_loan_in_liquidation_def liquidating_loans_def)
  then show ?thesis
    unfolding w_def [symmetric] by (elim ex_forward) (simp add: bal d)
qed

text \<open>C14: drawing within the credit is exact. A draw of at most the available credit raises the debt
  and the issuance by exactly the amount, gives the amount less the interest to the borrower and
  the interest to the profit pool, and keeps issuance equal to the holdings.\<close>

theorem draw_exact:
  assumes "supply_ok w" and "\<not> LoanPaused (pallet w)" and "Loans (pallet w) i = Some ln" and "who = loan_who ln"
    and "LoanPackages (pallet w) (loan_package_id ln) = Some pk" and "a = pkg_loan_asset_id pk"
    and "x \<le> available_credit (pallet w) ln" and "get_interest pk x \<le> x"
    and "Symbols w a \<noteq> None" and "check_permission w a (RootKey w) Mint"
    and "unat (TotalIssuance w a) + unat x < 2 ^ 128" and "who \<noteq> LoanProfitPool (pallet w)"
  shows "\<exists>w'. draw unit_hooks (Signed who) i x w = Ok () w' \<and> supply_ok w' \<and>
    Loans (pallet w') = (Loans (pallet w))(i \<mapsto> ln\<lparr>loan_balance_total := loan_balance_total ln + x\<rparr>) \<and>
    unat (TotalIssuance w' a) = unat (TotalIssuance w a) + unat x \<and>
    unat (FreeBalance w' a who) = unat (FreeBalance w a who) + unat (x - get_interest pk x) \<and>
    unat (FreeBalance w' a (LoanProfitPool (pallet w)))
      = unat (FreeBalance w a (LoanProfitPool (pallet w))) + unat (get_interest pk x)"
  using draw_run [OF assms(1-11)] assms(12) by simp

theorem draw_exact_witness:
  "\<exists>w'. draw unit_hooks (Signed 1) 0 2000
       (demo_world [(10, 5000), (30, 700)] (demo_loan [0 \<mapsto> demo_debt 1000 100] 100 None)) = Ok () w' \<and>
     supply_ok w' \<and> unat (TotalIssuance w' 30) = 2700 \<and> unat (FreeBalance w' 30 1) = 2696 \<and> unat (FreeBalance w' 30 21) = 4"
proof -
  let ?w = "demo_world [(10, 5000), (30, 700)] (demo_loan [0 \<mapsto> demo_debt 1000 100] 100 None)"
  have i: "get_interest demo_package 2000 = 4" by (simp add: get_interest_def demo_package_def)
  have pk: "LoanPackages (pallet ?w) (loan_package_id (demo_debt 1000 100)) = Some demo_package"
    by (simp add: demo_parts)
  have "\<exists>w'. draw unit_hooks (Signed 1) 0 2000 ?w = Ok () w' \<and> supply_ok w' \<and>
    Loans (pallet w') = (Loans (pallet ?w))(0 \<mapsto> (demo_debt 1000 100)\<lparr>loan_balance_total := loan_balance_total (demo_debt 1000 100) + 2000\<rparr>) \<and>
    unat (TotalIssuance w' 30) = unat (TotalIssuance ?w 30) + unat (2000 :: balance) \<and>
    unat (FreeBalance w' 30 1) = unat (FreeBalance ?w 30 1) + unat (2000 - get_interest demo_package 2000) \<and>
    unat (FreeBalance w' 30 (LoanProfitPool (pallet ?w)))
      = unat (FreeBalance ?w 30 (LoanProfitPool (pallet ?w))) + unat (get_interest demo_package 2000)"
    by (rule draw_exact [OF supply_ok_demo _ _ _ pk]) (simp_all add: i demo_parts available_credit_def)
  then show ?thesis by (elim ex_forward) (simp add: i)
qed

text \<open>C40: the credit of a draw is computed with a subtraction that wraps. When the collateral is worth
  less than the debt, every further draw that still fits the balance type passes the credit check
  and is paid out, although no credit is left.\<close>

theorem draw_underwater_accepted:
  assumes "supply_ok w" and "\<not> LoanPaused (pallet w)" and "Loans (pallet w) i = Some ln" and "who = loan_who ln"
    and "LoanPackages (pallet w) (loan_package_id ln) = Some pk" and "a = pkg_loan_asset_id pk"
    and under: "collateral_balance_available ln * CurrentBTCPrice (pallet w) * ucast (GlobalLTVLimit (pallet w)) div 10000 div 10000
      < loan_balance_total ln"
    and fits: "unat x + unat (loan_balance_total ln) < 2 ^ 128" and "get_interest pk x \<le> x"
    and "Symbols w a \<noteq> None" and "check_permission w a (RootKey w) Mint"
    and "unat (TotalIssuance w a) + unat x < 2 ^ 128"
  shows "\<exists>w'. draw unit_hooks (Signed who) i x w = Ok () w' \<and>
    Loans (pallet w') i = Some (ln\<lparr>loan_balance_total := loan_balance_total ln + x\<rparr>)"
proof -
  have "unat x \<le> unat (v - t)" if "v < t" "unat x + unat t < 2 ^ 128" for v t :: balance
  proof -
    have "unat (v - t) = 2 ^ 128 + unat v - unat t"
      using that(1) by (simp add: unat_sub_if' word_less_nat_alt word_le_nat_alt)
    with that(2) show ?thesis by linarith
  qed
  from this [OF under fits] have "x \<le> available_credit (pallet w) ln"
    by (simp add: available_credit_def word_le_nat_alt)
  from draw_run [OF assms(1-6) this assms(9-12)] show ?thesis
    by (elim ex_forward) simp
qed

theorem draw_underwater_accepted_witness:
  "\<exists>w' ln. draw unit_hooks (Signed 1) 0 1000000
       (demo_world [(10, 5000), (30, 700)] (demo_loan [0 \<mapsto> demo_debt 10 4000] 4000 None)) = Ok () w' \<and>
     Loans (pallet w') 0 = Some ln \<and> loan_balance_total ln = 1004000"
proof -
  let ?w = "demo_world [(10, 5000), (30, 700)] (demo_loan [0 \<mapsto> demo_debt 10 4000] 4000 None)"
  have i: "get_interest demo_package 1000000 = 2400" by (simp add: get_interest_def demo_package_def)
  have pk: "LoanPackages (pallet ?w) (loan_package_id (demo_debt 10 4000)) = Some demo_package"
    by (simp add: demo_debt_def)
  have "\<exists>w'. draw unit_hooks (Signed 1) 0 1000000 ?w = Ok () w' \<and>
    Loans (pallet w') 0 = Some ((demo_debt 10 4000)\<lparr>loan_balance_total := loan_balance_total (demo_debt 10 4000) + 1000000\<rparr>)"
    by (rule draw_underwater_accepted [OF supply_ok_demo _ _ _ pk, where a = 30])
      (simp_all add: i demo_parts)
  then show ?thesis by (elim ex_forward) (simp add: demo_parts)
qed

text \<open>C35: every call of the loan pallet by any origin, successful or failing, and the start of a block
  keep issuance equal to the holdings of every asset.\<close>

theorem loan_keeps_supply:
  assumes "supply_ok w"
    and "final (dispatch_loan unit_hooks og c w) = Some w' \<or> final (loan_on_initialize es w) = Some w'"
  shows "supply_ok w'"
  using assms(2)
proof
  assume "final (dispatch_loan unit_hooks og c w) = Some w'"
  from effectsD [OF unit_loan.dispatch_loan_effects this] assms(1) show ?thesis by simp
next
  assume "final (loan_on_initialize es w) = Some w'"
  from effectsD [OF unit_loan.loan_on_initialize_effects this] assms(1) show ?thesis by simp
qed

theorem loan_keeps_supply_witness:
  "\<exists>w'. final (dispatch_loan unit_hooks (Signed 1) (LcAddCollateral 0 50)
       (demo_world [(10, 5000), (30, 700)] (demo_loan [0 \<mapsto> demo_debt 1000 100] 100 None))) = Some w' \<and>
     FreeBalance w' 10 20 = 50 \<and> supply_ok w'"
proof -
  let ?w = "demo_world [(10, 5000), (30, 700)] (demo_loan [0 \<mapsto> demo_debt 1000 100] 100 None)"
  obtain w' where w': "final (dispatch_loan unit_hooks (Signed 1) (LcAddCollateral 0 50) ?w) = Some w'" "FreeBalance w' 10 20 = 50"
    by (simp add: add_collateral_def not_paused_def add_loan_collateral_def demo_debt_def demo_package_def loan_package_def
        getter_defs make_transfer_with_event_sent mutate_loan_def get_loan_by_id_def loan_event_def moved_def)
  from loan_keeps_supply [OF supply_ok_demo disjI1 [OF w'(1)]] have "supply_ok w'" .
  with w' show ?thesis by (intro exI conjI)
qed

text \<open>A pause stops the pallet. While it is paused, creating and disabling packages, applying,
  drawing, repaying, adding collateral and reporting a liquidation fail without any change, and
  the start of a block does nothing.\<close>

theorem loan_pause_stops:
  assumes "LoanPaused (pallet w)"
    and "c \<in> {LcCreatePackage t r b, LcDisablePackage pk, LcRepay i, LcApply b b' pk, LcMarkLiquidated i b, LcAddCollateral i b, LcDraw i b}"
  shows "dispatch_loan hk og c w = Err (Msg ''module is paused'') w \<and> loan_on_initialize es w = Ok () w"
  using assms
  by (auto simp: create_package_def disable_package_def repay_def apply_call_def mark_liquidated_def add_collateral_def
      draw_def not_paused_def loan_on_initialize_def)

theorem loan_pause_stops_witness:
  "dispatch_loan unit_hooks (Signed 1) (LcDraw 0 5)
      (demo_world [] ((demo_loan [0 \<mapsto> demo_debt 1000 100] 100 None)\<lparr>LoanPaused := True\<rparr>))
    = Err (Msg ''module is paused'') (demo_world [] ((demo_loan [0 \<mapsto> demo_debt 1000 100] 100 None)\<lparr>LoanPaused := True\<rparr>))"
  using loan_pause_stops [of "demo_world [] ((demo_loan [0 \<mapsto> demo_debt 1000 100] 100 None)\<lparr>LoanPaused := True\<rparr>)"
      "LcDraw 0 5" 0 0 5 0 0 0 unit_hooks "Signed 1" "[]"] by simp

text \<open>A liquidation that did not bring in the debt cannot be reported. When the auction brought less
  than the loan owes and the liquidation account can still pay the debt, the call panics instead
  of recording the loss.\<close>

theorem mark_liquidated_loss_panics:
  assumes "\<not> LoanPaused (pallet w)" and "who = LiquidationAccount (pallet w)" and "Loans (pallet w) i = Some ln"
    and "check_loan_in_liquidation (pallet w) (loan_loan_id ln)" and "LoanPackages (pallet w) (loan_package_id ln) = Some pk"
    and "b < loan_balance_total ln" and "loan_balance_total ln \<le> FreeBalance w (pkg_loan_asset_id pk) who"
    and "Symbols w (pkg_loan_asset_id pk) \<noteq> None" and "Restrictions w (pkg_loan_asset_id pk) Transferable = None"
  shows "mark_liquidated (Signed who) i b w = Panic"
proof -
  have "b \<le> FreeBalance w (pkg_loan_asset_id pk) who" using assms(6,7) by simp
  moreover have "checked_sub b (loan_balance_total ln) = None" using assms(6) by (simp add: checked_sub_def)
  moreover have "loan_package (pallet w) (loan_package_id ln) = pk" by (simp add: loan_package_def assms(5))
  ultimately show ?thesis
    using assms(1,3,4,7-9)
    by (simp add: mark_liquidated_def not_paused_def mark_loan_liquidated_def assms(2) [symmetric] getter_defs
        make_transfer_with_event_sent not_less)
qed

theorem mark_liquidated_loss_panics_witness:
  "mark_liquidated (Signed 1) 0 60
     (demo_world [(10, 5000), (30, 700)] (demo_loan [0 \<mapsto> demo_debt 1000 100] 100 (Some [0]))) = Panic"
  by (rule mark_liquidated_loss_panics [where ln = "demo_debt 1000 100" and pk = demo_package])
    (simp_all add: demo_debt_def demo_package_def check_loan_in_liquidation_def liquidating_loans_def)

text \<open>A loan without collateral stops the chain. If the product of collateral and price of a loan that
  is checked first at the start of a block is zero, the division of its loan-to-value ratio
  panics and with it the block.\<close>

theorem worthless_collateral_panics:
  assumes "\<not> LoanPaused (pallet w)" and "\<not> check_loan_in_liquidation (pallet w) i"
    and "collateral_balance_available ln * CurrentBTCPrice (pallet w) = 0"
  shows "loan_on_initialize ((i, ln) # es) w = Panic"
  using assms
  by (simp add: loan_on_initialize_def on_each_block_def check_loan_def check_loan_health_def get_ltv_def)

theorem worthless_collateral_panics_witness:
  "loan_on_initialize [(0, demo_debt 0 100)]
     (demo_world [(10, 5000), (30, 700)] (demo_loan [0 \<mapsto> demo_debt 0 100] 100 None)) = Panic"
  by (rule worthless_collateral_panics)
    (simp_all add: demo_debt_def check_loan_in_liquidation_def liquidating_loans_def)

text \<open>The setters of the two thresholds are swapped: setting the liquidation threshold changes the
  warning threshold and leaves the liquidation threshold as it was, and the other way round.\<close>

theorem threshold_setters_swapped:
  "\<exists>w1 w2. set_global_liquidation_threshold Root l w = Ok () w1 \<and> set_global_warning_threshold Root l w = Ok () w2 \<and>
     GlobalLiquidationThreshold (pallet w1) = GlobalLiquidationThreshold (pallet w) \<and> GlobalWarningThreshold (pallet w1) = l \<and>
     GlobalWarningThreshold (pallet w2) = GlobalWarningThreshold (pallet w) \<and> GlobalLiquidationThreshold (pallet w2) = l"
  by (simp add: set_global_liquidation_threshold_def set_global_warning_threshold_def)

end
