(* ===== verification/Release_Pack.thy ===== *)
theory Release_Pack
  imports Price
begin

text \<open>
  The locked shares of the pallet \<^verbatim>\<open>modules/rio-saving\<close>: a saving earns shares that are paid out in
  equal terms, one at once and one at every change of phase. A release pack counts the terms that
  are left; a second, smaller package levels what does not divide evenly.
\<close>

section \<open>Types\<close>

type_synonym phase_id = u32

datatype ReleaseTrigger = PhaseChange | AtBlockNumber u64

definition default_release_trigger :: ReleaseTrigger where
  "default_release_trigger = PhaseChange"

record SharePackage =
  terms_total :: u32
  terms_left :: u32
  per_term :: balance

record ShareReleasePack =
  pack_asset_id :: asset_id
  pack_owner :: account_id
  pack_phase_id :: phase_id
  pack_empty :: bool
  pack_major :: SharePackage
  pack_minor :: "SharePackage option"
  pack_release_trigger :: ReleaseTrigger

datatype BalanceChange = PositiveChange balance | NegativeChange balance

fun is_positive :: "BalanceChange \<Rightarrow> bool" where
  "is_positive (PositiveChange _) = True"
| "is_positive (NegativeChange _) = False"

fun is_negative :: "BalanceChange \<Rightarrow> bool" where
  "is_negative (NegativeChange _) = True"
| "is_negative (PositiveChange _) = False"

fun get_value :: "BalanceChange \<Rightarrow> balance" where
  "get_value (PositiveChange v) = v"
| "get_value (NegativeChange v) = v"

section \<open>Operations\<close>

definition package_total_balance :: "SharePackage \<Rightarrow> balance" where
  "package_total_balance k = ucast (terms_left k) * per_term k"

definition pack_terms_left :: "ShareReleasePack \<Rightarrow> u32" where
  "pack_terms_left pk =
     terms_left (pack_major pk) + (case pack_minor pk of Some m \<Rightarrow> terms_left m | None \<Rightarrow> 0)"

definition pack_total_balance :: "ShareReleasePack \<Rightarrow> balance" where
  "pack_total_balance pk =
     (if pack_empty pk then 0
      else package_total_balance (pack_major pk) +
        (case pack_minor pk of Some m \<Rightarrow> package_total_balance m | None \<Rightarrow> 0))"

definition check_release_trigger :: "ShareReleasePack \<Rightarrow> ReleaseTrigger \<Rightarrow> bool" where
  "check_release_trigger pk t \<longleftrightarrow> pack_release_trigger pk = t"

text \<open>One release: what is paid out, and the pack that is left.\<close>

definition release :: "ShareReleasePack \<Rightarrow> balance option \<times> ShareReleasePack" where
  "release pk =
     (if pack_empty pk then (None, pk)
      else if 0 < terms_left (pack_major pk) then
        let major = (pack_major pk)\<lparr>terms_left := terms_left (pack_major pk) - 1\<rparr>;
            drained = (terms_left major = 0 \<and> (case pack_minor pk of None \<Rightarrow> True | Some m \<Rightarrow> terms_left m = 0))
        in (Some (per_term major), pk\<lparr>pack_major := major, pack_empty := drained\<rparr>)
      else case pack_minor pk of
          None \<Rightarrow> (None, pk\<lparr>pack_empty := True\<rparr>)
        | Some m \<Rightarrow>
            if 0 < terms_left m then
              let minor = m\<lparr>terms_left := terms_left m - 1\<rparr>
              in (Some (per_term minor), pk\<lparr>pack_minor := Some minor, pack_empty := (terms_left minor = 0)\<rparr>)
            else (None, pk\<lparr>pack_empty := True\<rparr>))"

definition create_share_release_pack ::
  "account_id \<Rightarrow> asset_id \<Rightarrow> phase_id \<Rightarrow> balance \<Rightarrow> u32 \<Rightarrow> ('s, ShareReleasePack) op" where
  "create_share_release_pack owner i phase b terms =
     and_then (if terms = 1 then return b else udiv (b + ucast (terms - 1)) (ucast terms)) (\<lambda>portion.
     let pk = \<lparr>pack_asset_id = i, pack_owner = owner, pack_phase_id = phase, pack_empty = False,
               pack_major = \<lparr>terms_total = terms, terms_left = terms - 1, per_term = portion\<rparr>,
               pack_minor = None, pack_release_trigger = PhaseChange\<rparr>;
         virtual_share_balance = portion * ucast terms
     in return
       (if b = virtual_share_balance then
          pk\<lparr>pack_major := (pack_major pk)\<lparr>terms_left := terms_left (pack_major pk) + 1\<rparr>\<rparr>
        else if virtual_share_balance < b then
          pk\<lparr>pack_minor := Some \<lparr>terms_total = 1, terms_left = 1, per_term = b - virtual_share_balance\<rparr>\<rparr>
        else
          pk\<lparr>pack_minor := Some \<lparr>terms_total = 1, terms_left = 1,
            per_term = portion - (virtual_share_balance - b)\<rparr>\<rparr>))"

text \<open>
  The packs of one phase are merged: the loop keeps the other packs, and sums the balance and
  takes the terms of those that belong to the phase.
\<close>

definition collect_pack ::
  "phase_id \<Rightarrow> asset_id \<Rightarrow> ShareReleasePack \<Rightarrow> ShareReleasePack list \<times> balance \<times> u32 \<times> u32 \<Rightarrow>
   ShareReleasePack list \<times> balance \<times> u32 \<times> u32" where
  "collect_pack phase i pk = (\<lambda>(new_list, total, t_total, t_left).
     if pack_asset_id pk \<noteq> i \<or> pack_phase_id pk \<noteq> phase then (new_list @ [pk], total, t_total, t_left)
     else if t_total \<noteq> terms_total (pack_major pk)
       then (new_list, total + pack_total_balance pk, terms_total (pack_major pk), pack_terms_left pk)
     else (new_list, total + pack_total_balance pk, t_total, t_left))"

definition push_aggregated ::
  "account_id \<Rightarrow> asset_id \<Rightarrow> phase_id \<Rightarrow> ShareReleasePack list \<Rightarrow> balance \<Rightarrow> u32 \<Rightarrow> u32 \<Rightarrow>
   ('s, ShareReleasePack list) op" where
  "push_aggregated who i phase new_list b t_total t_left =
     and_then (create_share_release_pack who i phase b t_left) (\<lambda>aggregated.
     return (new_list @ [aggregated\<lparr>pack_major := (pack_major aggregated)\<lparr>terms_total := t_total\<rparr>\<rparr>]))"

definition aggregate_phase_unreleased ::
  "ShareReleasePack list \<Rightarrow> phase_id \<Rightarrow> asset_id \<Rightarrow> account_id \<Rightarrow> BalanceChange option \<Rightarrow>
   ('s, ShareReleasePack list) op" where
  "aggregate_phase_unreleased unreleased_list phase i who change =
     (let (new_list, total, t_total, t_left) = fold (collect_pack phase i) unreleased_list ([], 0, 0, 0)
      in case change of
          None \<Rightarrow> push_aggregated who i phase new_list total t_total t_left
        | Some c \<Rightarrow>
            if is_positive c then push_aggregated who i phase new_list (total + get_value c) t_total t_left
            else and_then (ensure (get_value c \<le> total) ''not enought locked balance'') (\<lambda>_.
              if get_value c < total then push_aggregated who i phase new_list (total - get_value c) t_total t_left
              else return new_list))"

text \<open>Releasing until nothing is left, with the number of releases as a bound.\<close>

primrec payouts :: "nat \<Rightarrow> ShareReleasePack \<Rightarrow> balance list" where
  "payouts 0 pk = []"
| "payouts (Suc n) pk = (case release pk of (None, _) \<Rightarrow> [] | (Some b, pk') \<Rightarrow> b # payouts n pk')"

section \<open>What a pack pays\<close>

lemma unat_ucast_u32 [simp]: "unat (ucast (t :: u32) :: u128) = unat t"
proof -
  have "unat t < 2 ^ 128" using unat_bound [of t] by simp
  then show ?thesis by (simp add: unsigned_ucast_eq take_bit_nat_eq_self)
qed

lemma ucast_pred:
  assumes "0 < (t :: u32)"
  shows "(ucast (t - 1) :: u128) = ucast t - 1"
proof -
  have "(1 :: u32) \<le> t" "(1 :: u128) \<le> ucast t"
    using assms by (simp_all add: word_le_nat_alt word_less_nat_alt)
  then show ?thesis by (simp add: word_unat_eq_iff unat_minus)
qed

lemma package_release: "0 < terms_left k \<Longrightarrow>
  package_total_balance (k\<lparr>terms_left := terms_left k - 1\<rparr>) + per_term k = package_total_balance k"
  by (simp add: package_total_balance_def ucast_pred algebra_simps)

lemma package_drained: "terms_left k = 0 \<Longrightarrow> package_total_balance k = 0"
  by (simp add: package_total_balance_def)

text \<open>A release pays out of the pack what it no longer holds.\<close>

lemma release_total:
  assumes "release pk = (Some b, pk')"
  shows "pack_total_balance pk = pack_total_balance pk' + b"
proof (cases "0 < terms_left (pack_major pk)")
  case True
  then show ?thesis
    using assms package_release [OF True]
    by (cases "pack_minor pk") (auto simp: release_def pack_total_balance_def Let_def package_drained split: if_splits)
next
  case False
  then have "terms_left (pack_major pk) = 0" by (simp add: word_gt_0)
  then show ?thesis
    using assms package_release [of "the (pack_minor pk)"]
    by (cases "pack_minor pk") (auto simp: release_def pack_total_balance_def Let_def package_drained split: if_splits)
qed

text \<open>The payouts of a pack whose second package is absent, or has its single term.\<close>

lemma payouts_major:
  assumes "\<not> pack_empty pk" and "pack_minor pk = None" and "unat (terms_left (pack_major pk)) = n" and "0 < n" and "n \<le> m"
  shows "payouts m pk = replicate n (per_term (pack_major pk))"
  using assms
proof (induction n arbitrary: m pk)
  case (Suc n)
  then obtain m' where m: "m = Suc m'" by (cases m) auto
  let ?k = "(pack_major pk)\<lparr>terms_left := terms_left (pack_major pk) - 1\<rparr>"
  let ?pk = "pk\<lparr>pack_major := ?k, pack_empty := (terms_left ?k = 0)\<rparr>"
  have pos: "0 < terms_left (pack_major pk)" using Suc.prems(3) by (simp add: word_less_nat_alt)
  have left: "unat (terms_left ?k) = n"
    using Suc.prems(3) pos by (simp add: unat_minus word_le_nat_alt word_less_nat_alt)
  have rel: "release pk = (Some (per_term (pack_major pk)), ?pk)"
    using Suc.prems(1,2) pos by (simp add: release_def Let_def)
  show ?case
  proof (cases "n = 0")
    case True
    then have "pack_empty ?pk" using left by (simp add: unat_eq_0)
    then have "payouts m' ?pk = []" by (cases m') (simp_all add: release_def)
    then show ?thesis by (simp add: m rel True)
  next
    case False
    have "payouts m' ?pk = replicate n (per_term (pack_major ?pk))"
      by (rule Suc.IH) (use False left Suc.prems m in \<open>auto simp: unat_eq_0\<close>)
    then show ?thesis by (simp add: m rel)
  qed
qed simp

lemma payouts_minor:
  assumes "\<not> pack_empty pk" and "pack_minor pk = Some k" and "terms_left k = 1"
    and "unat (terms_left (pack_major pk)) = n" and "n < m"
  shows "payouts m pk = replicate n (per_term (pack_major pk)) @ [per_term k]"
  using assms
proof (induction n arbitrary: m pk)
  case 0
  then obtain m' where m: "m = Suc m'" by (cases m) auto
  have "payouts m' (pk\<lparr>pack_minor := Some (k\<lparr>terms_left := 0\<rparr>), pack_empty := True\<rparr>) = []"
    by (cases m') (simp_all add: release_def)
  with 0 show ?case by (simp add: m release_def unat_eq_0 Let_def)
next
  case (Suc n)
  then obtain m' where m: "m = Suc m'" by (cases m) auto
  let ?k = "(pack_major pk)\<lparr>terms_left := terms_left (pack_major pk) - 1\<rparr>"
  let ?pk = "pk\<lparr>pack_major := ?k, pack_empty := False\<rparr>"
  have pos: "0 < terms_left (pack_major pk)" using Suc.prems(4) by (simp add: word_less_nat_alt)
  have left: "unat (terms_left ?k) = n"
    using Suc.prems(4) pos by (simp add: unat_minus word_le_nat_alt word_less_nat_alt)
  have rel: "release pk = (Some (per_term (pack_major pk)), ?pk)"
    using Suc.prems(1-3) pos by (simp add: release_def Let_def)
  have "payouts m' ?pk = replicate n (per_term (pack_major ?pk)) @ [per_term k]"
    by (rule Suc.IH) (use left Suc.prems m in auto)
  then show ?case by (simp add: m rel)
qed

section \<open>Splitting a balance into terms\<close>

text \<open>The arithmetic of the split: one term is the balance divided by the terms, rounded up.\<close>

definition portion_of :: "nat \<Rightarrow> nat \<Rightarrow> nat" where
  "portion_of b n = (b + n - 1) div n"

lemma portion_bounds:
  assumes "0 < n"
  shows "b \<le> portion_of b n * n" and "portion_of b n * n \<le> b + n - 1"
    and "(n - 1) * (n - 1) \<le> b \<Longrightarrow> portion_of b n * (n - 1) \<le> b"
proof -
  let ?q = "portion_of b n"
  have q: "?q * n + (b + n - 1) mod n = b + n - 1" by (simp add: portion_of_def)
  have r: "(b + n - 1) mod n < n" using assms by simp
  from q r show "b \<le> ?q * n" by linarith
  from q show le: "?q * n \<le> b + n - 1" by linarith
  assume big: "(n - 1) * (n - 1) \<le> b"
  obtain k where n: "n = Suc k" using assms by (cases n) auto
  have "?q * Suc k \<le> b + k" using le by (simp add: n)
  then have "(?q * Suc k) * k \<le> (b + k) * k" by (rule mult_le_mono1)
  then have "(?q * k) * Suc k \<le> (b + k) * k" by (simp only: ac_simps)
  also have "\<dots> \<le> b * Suc k" using big by (simp add: n algebra_simps)
  finally have "(?q * k) * Suc k \<le> b * Suc k" .
  then have "?q * k \<le> b" by (simp only: Suc_mult_le_cancel1 mult.commute [of _ "Suc k"])
  then show "?q * (n - 1) \<le> b" by (simp add: n)
qed

definition portion_word :: "balance \<Rightarrow> u32 \<Rightarrow> balance" where
  "portion_word b t = (if t = 1 then b else (b + ucast (t - 1)) div ucast t)"

lemma portion_word_run:
  "t \<noteq> 0 \<Longrightarrow> (if t = 1 then return b else udiv (b + ucast (t - 1)) (ucast t)) s = Ok (portion_word b t) s"
  by (auto simp: portion_word_def word_unat_eq_iff)

lemma portion_word_facts:
  assumes "t \<noteq> 0" and fits: "unat b + unat t \<le> 2 ^ 128"
  shows "unat (portion_word b t) = portion_of (unat b) (unat t)"
    and "unat (portion_word b t * ucast t) = portion_of (unat b) (unat t) * unat t"
    and "b \<le> portion_word b t * ucast t"
proof -
  let ?n = "unat t" let ?q = "portion_of (unat b) ?n"
  have n: "0 < ?n" using assms(1) by (simp add: unat_gt_0)
  note bounds = portion_bounds(1,2) [OF n, of "unat b"]
  have t1: "(1 :: u32) \<le> t" using n by (simp add: word_le_nat_alt)
  show p: "unat (portion_word b t) = ?q"
  proof (cases "t = 1")
    case False
    have "unat (b + ucast (t - 1)) = unat b + (?n - 1)"
      using fits n t1 by (subst unat_plus) (simp_all add: unat_minus)
    then show ?thesis using False n by (simp add: portion_word_def portion_of_def unat_div)
  qed (simp add: portion_word_def portion_of_def)
  show v: "unat (portion_word b t * ucast t) = ?q * ?n"
    using bounds(2) fits n by (subst unat_times) (simp_all add: p)
  show "b \<le> portion_word b t * ucast t" using bounds(1) by (simp add: word_le_nat_alt v)
qed

lemma create_pack_run:
  assumes "t \<noteq> 0" and "unat b + unat t \<le> 2 ^ 128"
  shows "create_share_release_pack owner i phase b t s = Ok
    \<lparr>pack_asset_id = i, pack_owner = owner, pack_phase_id = phase, pack_empty = False,
     pack_major = \<lparr>terms_total = t, terms_left = (if b = portion_word b t * ucast t then t else t - 1),
       per_term = portion_word b t\<rparr>,
     pack_minor = (if b = portion_word b t * ucast t then None
       else Some \<lparr>terms_total = 1, terms_left = 1, per_term = portion_word b t - (portion_word b t * ucast t - b)\<rparr>),
     pack_release_trigger = PhaseChange\<rparr> s"
  using portion_word_run [OF assms(1), of b s] portion_word_facts(3) [OF assms]
  by (simp add: create_share_release_pack_def Let_def not_less [symmetric])

lemma minor_word:
  assumes "t \<noteq> 0" and fits: "unat b + unat t \<le> 2 ^ 128" and big: "(unat t - 1) * (unat t - 1) \<le> unat b"
  shows "unat (portion_word b t - (portion_word b t * ucast t - b)) = unat b - portion_of (unat b) (unat t) * (unat t - 1)"
proof -
  let ?p = "portion_word b t" and ?n = "unat t" and ?q = "portion_of (unat b) (unat t)"
  note facts = portion_word_facts [OF assms(1,2)]
  have n: "0 < ?n" using assms(1) by (simp add: unat_gt_0)
  note bounds = portion_bounds(1,2) [OF n, of "unat b"] portion_bounds(3) [OF n big]
  have e: "?q * ?n = ?q * (?n - 1) + ?q" using n by (cases ?n) simp_all
  have "?p * ucast t - b \<le> ?p"
    using bounds(3) e by (simp add: word_le_nat_alt unat_minus [OF facts(3)] facts(1,2))
  then show ?thesis using bounds(1,3) e by (simp add: unat_minus unat_minus [OF facts(3)] facts(1,2))
qed

lemma payouts_created:
  assumes t: "t \<noteq> 0" and fits: "unat b + unat t \<le> 2 ^ 128" and big: "(unat t - 1) * (unat t - 1) \<le> unat b"
    and "unat t \<le> m"
  shows "\<exists>pk. create_share_release_pack owner i phase b t s = Ok pk s \<and>
    length (payouts m pk) = unat t \<and> sum_list (map unat (payouts m pk)) = unat b"
proof -
  let ?p = "portion_word b t" and ?q = "portion_of (unat b) (unat t)"
  have n: "0 < unat t" using t by (simp add: unat_gt_0)
  obtain pk where run: "create_share_release_pack owner i phase b t s = Ok pk s" and live: "\<not> pack_empty pk"
    and major: "per_term (pack_major pk) = ?p" "terms_left (pack_major pk) = (if b = ?p * ucast t then t else t - 1)"
    and minor: "pack_minor pk = (if b = ?p * ucast t then None
      else Some \<lparr>terms_total = 1, terms_left = 1, per_term = ?p - (?p * ucast t - b)\<rparr>)"
    using create_pack_run [OF t fits, of owner i phase s] by simp
  note facts = portion_word_facts [OF t fits] minor_word [OF t fits big]
  have "length (payouts m pk) = unat t \<and> sum_list (map unat (payouts m pk)) = unat b"
  proof (cases "b = ?p * ucast t")
    case True
    then have "payouts m pk = replicate (unat t) ?p"
      using n assms(4) live major minor payouts_major [of pk "unat t" m] by simp
    then show ?thesis using True facts(1,2) by (simp add: sum_list_replicate mult.commute)
  next
    case False
    have "unat (terms_left (pack_major pk)) = unat t - 1"
      using False major(2) n by (simp add: unat_minus word_le_nat_alt)
    then have "payouts m pk = replicate (unat t - 1) ?p @ [?p - (?p * ucast t - b)]"
      using False n assms(4) live major minor payouts_minor [of pk _ "unat t - 1" m] by simp
    then show ?thesis
      using facts(1,4) portion_bounds(3) [OF n big] n by (simp add: sum_list_replicate mult.commute)
  qed
  with run show ?thesis by blast
qed

section \<open>Merging the packs of a phase\<close>

definition of_phase :: "phase_id \<Rightarrow> asset_id \<Rightarrow> ShareReleasePack \<Rightarrow> bool" where
  "of_phase phase i pk \<longleftrightarrow> pack_asset_id pk = i \<and> pack_phase_id pk = phase"

definition phase_total :: "phase_id \<Rightarrow> asset_id \<Rightarrow> ShareReleasePack list \<Rightarrow> balance" where
  "phase_total phase i pks = sum_list (map pack_total_balance (filter (of_phase phase i) pks))"

lemma phase_total_append [simp]: "phase_total ph i (xs @ ys) = phase_total ph i xs + phase_total ph i ys"
  by (simp add: phase_total_def)

lemma phase_total_others:
  "phase_total ph i (filter (\<lambda>pk. \<not> of_phase phase j pk) xs) = (if ph = phase \<and> i = j then 0 else phase_total ph i xs)"
  by (induction xs) (auto simp: phase_total_def of_phase_def)

text \<open>A new pack holds exactly the balance it was created for, and belongs to its owner and phase.\<close>

lemma create_pack_total:
  assumes run: "create_share_release_pack owner i phase b t s = Ok pk s'" and fits: "unat b + unat t \<le> 2 ^ 128"
  shows "s' = s \<and> pack_total_balance pk = b \<and> of_phase phase i pk \<and> pack_owner pk = owner"
proof -
  have t: "t \<noteq> 0" using run by (auto simp: create_share_release_pack_def)
  then have t1: "(ucast (t - 1) :: u128) = ucast t - 1" by (intro ucast_pred) (simp add: word_gt_0)
  have "ucast (t - 1) * p + (p - (p * ucast t - b)) = b" for p :: balance by (simp add: t1 algebra_simps)
  then show ?thesis
    using run create_pack_run [OF t fits, of owner i phase s]
    by (auto simp: pack_total_balance_def package_total_balance_def of_phase_def mult.commute [of "ucast t"])
qed

lemma collect_packs:
  "\<exists>tt tn. fold (collect_pack phase i) xs (nl, b, a, c)
     = (nl @ filter (\<lambda>pk. \<not> of_phase phase i pk) xs, b + phase_total phase i xs, tt, tn)"
proof (induction xs arbitrary: nl b a c)
  case (Cons pk xs)
  show ?case
  proof (cases "of_phase phase i pk")
    case True
    then show ?thesis
      using Cons [of nl "b + pack_total_balance pk"]
      by (auto simp: collect_pack_def of_phase_def phase_total_def add.assoc)
  next
    case False
    then show ?thesis
      using Cons [of "nl @ [pk]" b] by (auto simp: collect_pack_def of_phase_def phase_total_def)
  qed
qed (simp add: phase_total_def)

lemma push_aggregated_total:
  assumes "push_aggregated who i phase nl b tt tn s = Ok ys s'" and "unat b + 2 ^ 32 \<le> 2 ^ 128"
  shows "\<exists>pk. s' = s \<and> ys = nl @ [pk] \<and> pack_total_balance pk = b \<and> of_phase phase i pk \<and> pack_owner pk = who"
proof -
  from assms(1) obtain pk where pk: "create_share_release_pack who i phase b tn s = Ok pk s'"
    "ys = nl @ [pk\<lparr>pack_major := (pack_major pk)\<lparr>terms_total := tt\<rparr>\<rparr>]"
    by (auto simp: push_aggregated_def and_then_eq_Ok)
  have "unat b + unat tn \<le> 2 ^ 128" using assms(2) unat_bound [of tn] by simp
  from create_pack_total [OF pk(1) this] pk(2) show ?thesis
    by (auto simp: of_phase_def pack_total_balance_def package_total_balance_def)
qed

text \<open>
  Merging leaves at most one pack of the phase; it holds the old total with the change applied,
  and no other pack changes.
\<close>

definition changed_total :: "BalanceChange option \<Rightarrow> balance \<Rightarrow> balance" where
  "changed_total change b = (case change of None \<Rightarrow> b
     | Some (PositiveChange x) \<Rightarrow> b + x | Some (NegativeChange x) \<Rightarrow> b - x)"

lemma aggregate_total:
  assumes run: "aggregate_phase_unreleased xs phase i who change s = Ok ys s'"
    and fits: "unat (changed_total change (phase_total phase i xs)) + 2 ^ 32 \<le> 2 ^ 128"
  shows "s' = s \<and> phase_total phase i ys = changed_total change (phase_total phase i xs) \<and>
    filter (\<lambda>pk. \<not> of_phase phase i pk) ys = filter (\<lambda>pk. \<not> of_phase phase i pk) xs \<and>
    length (filter (of_phase phase i) ys) \<le> 1"
proof -
  let ?nl = "filter (\<lambda>pk. \<not> of_phase phase i pk) xs" and ?b = "phase_total phase i xs"
  obtain tt tn where f: "fold (collect_pack phase i) xs ([], 0, 0, 0) = (?nl, ?b, tt, tn)"
    using collect_packs [of phase i xs "[]" 0 0 0] by auto
  have pushed: ?thesis if "push_aggregated who i phase ?nl (changed_total change ?b) tt tn s = Ok ys s'"
    using push_aggregated_total [OF that fits] phase_total_others [of phase i phase i xs] by (auto simp: phase_total_def)
  have drained: ?thesis if "changed_total change ?b = 0" "ys = ?nl" "s' = s"
    using that phase_total_others [of phase i phase i xs] by simp
  consider "change = None" | x where "change = Some (PositiveChange x)" | x where "change = Some (NegativeChange x)"
    by (metis BalanceChange.exhaust option.exhaust)
  then show ?thesis
  proof cases
    case (3 x)
    then show ?thesis
      using run pushed drained unfolding aggregate_phase_unreleased_def f
      by (cases "x < ?b"; cases "x \<le> ?b") (simp_all add: changed_total_def order.not_eq_order_implies_strict and_then_apply)
  qed (use run pushed in \<open>simp_all add: aggregate_phase_unreleased_def f changed_total_def\<close>)
qed

text \<open>The packs of a phase that are still to be released; their merger exists.\<close>

definition packs_live :: "phase_id \<Rightarrow> asset_id \<Rightarrow> ShareReleasePack list \<Rightarrow> bool" where
  "packs_live ph i pks \<longleftrightarrow> (\<forall>pk\<in>set pks. of_phase ph i pk \<longrightarrow> terms_total (pack_major pk) \<noteq> 0 \<and> pack_terms_left pk \<noteq> 0)"

lemma collect_pack_step:
  "of_phase ph i pk \<Longrightarrow> collect_pack ph i pk (nl, b, tt, tn) = (nl, b + pack_total_balance pk, terms_total (pack_major pk),
     if tt \<noteq> terms_total (pack_major pk) then pack_terms_left pk else tn)"
  "\<not> of_phase ph i pk \<Longrightarrow> collect_pack ph i pk (nl, b, tt, tn) = (nl @ [pk], b, tt, tn)"
  by (auto simp: collect_pack_def of_phase_def)

lemma collect_terms:
  assumes "packs_live ph i xs" and "tt \<noteq> 0 \<longrightarrow> tn \<noteq> 0" and "fold (collect_pack ph i) xs (nl, b, tt, tn) = (nl', b', tt', tn')"
  shows "(tt' \<noteq> 0 \<longrightarrow> tn' \<noteq> 0) \<and> ((\<exists>pk\<in>set xs. of_phase ph i pk) \<or> tt \<noteq> 0 \<longrightarrow> tt' \<noteq> 0)"
  using assms
proof (induction xs arbitrary: nl b tt tn)
  case (Cons pk xs)
  then have live: "packs_live ph i xs" by (simp add: packs_live_def)
  show ?case
  proof (cases "of_phase ph i pk")
    case True
    with Cons.prems(1) have "terms_total (pack_major pk) \<noteq> 0" "pack_terms_left pk \<noteq> 0" by (auto simp: packs_live_def)
    with Cons.IH [OF live _ Cons.prems(3) [simplified fold_Cons comp_apply collect_pack_step(1) [OF True]]] Cons.prems(2)
    show ?thesis by auto
  next
    case False
    with Cons.IH [OF live Cons.prems(2) Cons.prems(3) [simplified fold_Cons comp_apply collect_pack_step(2) [OF False]]]
    show ?thesis by auto
  qed
qed simp

lemma phase_total_some: "phase_total ph i pks \<noteq> 0 \<Longrightarrow> \<exists>pk\<in>set pks. of_phase ph i pk"
  by (rule ccontr) (simp add: phase_total_def filter_empty_conv [THEN iffD2])

lemma aggregate_run:
  assumes live: "packs_live ph i xs" and fits: "unat (changed_total change (phase_total ph i xs)) + 2 ^ 32 \<le> 2 ^ 128"
    and change: "change = None \<and> (\<exists>pk\<in>set xs. of_phase ph i pk) \<or> (\<exists>x. change = Some (NegativeChange x) \<and> x \<le> phase_total ph i xs)"
  shows "\<exists>ys. aggregate_phase_unreleased xs ph i who change s = Ok ys s \<and>
    phase_total ph i ys = changed_total change (phase_total ph i xs)"
proof -
  let ?nl = "filter (\<lambda>pk. \<not> of_phase ph i pk) xs"
  obtain tt tn where f: "fold (collect_pack ph i) xs ([], 0, 0, 0) = (?nl, phase_total ph i xs, tt, tn)"
    using collect_packs [of ph i xs "[]" 0 0 0] by auto
  have push: "\<exists>ys. push_aggregated who i ph ?nl b tt tn s = Ok ys s"
    if "unat b + 2 ^ 32 \<le> 2 ^ 128" "\<exists>pk\<in>set xs. of_phase ph i pk" for b
  proof -
    have "tn \<noteq> 0" using collect_terms [OF live _ f] that(2) by simp
    from create_pack_run [OF this, of b who i ph s] that(1) unat_bound [of tn] show ?thesis by (simp add: push_aggregated_def)
  qed
  from change obtain ys where "aggregate_phase_unreleased xs ph i who change s = Ok ys s"
  proof (elim disjE exE conjE)
    assume "change = None" "\<exists>pk\<in>set xs. of_phase ph i pk"
    with push [of "phase_total ph i xs"] fits that show ?thesis
      by (auto simp: aggregate_phase_unreleased_def f changed_total_def)
  next
    fix x assume x: "change = Some (NegativeChange x)" "x \<le> phase_total ph i xs"
    show ?thesis
    proof (cases "x < phase_total ph i xs")
      case True
      then have "phase_total ph i xs \<noteq> 0" by auto
      with push [OF _ phase_total_some, of "phase_total ph i xs - x"] fits x True that show ?thesis
        by (auto simp: aggregate_phase_unreleased_def f changed_total_def)
    qed (use x that in \<open>auto simp: aggregate_phase_unreleased_def f\<close>)
  qed
  with aggregate_total [OF this fits] show ?thesis by blast
qed

text \<open>The first release of a new pack.\<close>

lemma first_release:
  assumes t: "t \<noteq> 0" and fits: "unat b + unat t \<le> 2 ^ 128"
  shows "\<exists>pk pk'. create_share_release_pack who i ph b t s = Ok pk s \<and> release pk = (Some (portion_word b t), pk') \<and>
    pack_total_balance pk' = b - portion_word b t \<and> pack_asset_id pk' = i \<and> pack_phase_id pk' = ph \<and> pack_owner pk' = who \<and>
    (pack_empty pk' \<longleftrightarrow> t = 1) \<and> terms_total (pack_major pk') \<noteq> 0 \<and> (t \<noteq> 1 \<longrightarrow> pack_terms_left pk' \<noteq> 0)"
proof -
  obtain pk where run: "create_share_release_pack who i ph b t s = Ok pk s" and live: "\<not> pack_empty pk"
    and ids: "pack_asset_id pk = i" "pack_phase_id pk = ph" "pack_owner pk = who"
    and major: "pack_major pk = \<lparr>terms_total = t, terms_left = (if b = portion_word b t * ucast t then t else t - 1), per_term = portion_word b t\<rparr>"
    and minor: "pack_minor pk = (if b = portion_word b t * ucast t then None
      else Some \<lparr>terms_total = 1, terms_left = 1, per_term = portion_word b t - (portion_word b t * ucast t - b)\<rparr>)"
    using create_pack_run [OF t fits, of who i ph s] by simp
  have one: "b = portion_word b t * ucast t" if "t = 1" using that by (simp add: portion_word_def)
  have pos: "0 < terms_left (pack_major pk)" using one t by (auto simp: major word_gt_0)
  obtain pk' where rel: "release pk = (Some (portion_word b t), pk')"
    and pk': "pack_asset_id pk' = i" "pack_phase_id pk' = ph" "pack_owner pk' = who"
      "pack_major pk' = (pack_major pk)\<lparr>terms_left := terms_left (pack_major pk) - 1\<rparr>" "pack_minor pk' = pack_minor pk"
      "pack_empty pk' = (terms_left (pack_major pk) - 1 = 0 \<and> (case pack_minor pk of None \<Rightarrow> True | Some m \<Rightarrow> terms_left m = 0))"
    using live pos ids by (simp add: release_def Let_def major)
  have "pack_total_balance pk' = b - portion_word b t"
    using release_total [OF rel] create_pack_total [OF run fits] by (metis add_diff_cancel)
  moreover have "pack_empty pk' \<longleftrightarrow> t = 1" using one by (auto simp: pk' major minor)
  moreover have "pack_terms_left pk' \<noteq> 0" if "t \<noteq> 1" using that by (auto simp: pack_terms_left_def pk' major minor)
  ultimately show ?thesis using run rel t pk' by (auto simp: major)
qed

section \<open>Properties\<close>

text \<open>C22: the schedule of a saving pays exactly what was earned. A balance split into terms is paid
  out in exactly that many releases, whose sum is the balance, and then nothing more, for every
  balance that is at least the square of the number of terms less one.\<close>

theorem release_pays_exactly:
  assumes "t \<noteq> 0" and "unat b + unat t \<le> 2 ^ 128" and "(unat t - 1) * (unat t - 1) \<le> unat b"
    and "unat t \<le> m"
  shows "\<exists>pk. create_share_release_pack owner i phase b t s = Ok pk s \<and>
    length (payouts m pk) = unat t \<and> sum_list (map unat (payouts m pk)) = unat b"
  by (rule payouts_created [OF assms])

theorem release_pays_exactly_witness:
  "\<exists>pk. create_share_release_pack 1 2 3 103 (5 :: u32) () = Ok pk () \<and>
     length (payouts 9 pk) = 5 \<and> sum_list (map unat (payouts 9 pk)) = 103"
  using release_pays_exactly [of 5 103 9 1 2 3 "()"] by simp

text \<open>A balance smaller than that breaks the schedule. The last package of five units split into
  four terms holds a wrapped negative amount, close to the largest balance.\<close>

theorem dust_pack_wraps:
  "\<exists>pk k. create_share_release_pack owner i phase 5 4 s = Ok pk s \<and> pack_minor pk = Some k \<and> per_term k = max_value"
  by (simp add: create_share_release_pack_def Let_def max_value_def)

text \<open>C23: merging the locked packs of a phase conserves the locked balance. The packs of the phase
  become at most one, which holds their total with the requested change applied, and the packs
  of other phases and assets stay as they are.\<close>

theorem aggregate_conserves:
  assumes "aggregate_phase_unreleased xs phase i who change s = Ok ys s'"
    and "unat (changed_total change (phase_total phase i xs)) + 2 ^ 32 \<le> 2 ^ 128"
  shows "phase_total phase i ys = changed_total change (phase_total phase i xs) \<and>
    filter (\<lambda>pk. \<not> of_phase phase i pk) ys = filter (\<lambda>pk. \<not> of_phase phase i pk) xs \<and>
    length (filter (of_phase phase i) ys) \<le> 1"
  using aggregate_total [OF assms] by simp

theorem aggregate_conserves_witness:
  "\<exists>pk qk ys. create_share_release_pack 1 2 3 100 4 () = Ok pk () \<and> create_share_release_pack 1 2 3 60 4 () = Ok qk () \<and>
     aggregate_phase_unreleased [pk, qk] 3 2 1 (Some (NegativeChange 30)) () = Ok ys () \<and> phase_total 3 2 ys = 130"
proof -
  obtain pk qk ys where run: "create_share_release_pack 1 2 3 100 4 () = Ok pk ()"
    "create_share_release_pack 1 2 3 60 4 () = Ok qk ()"
    "aggregate_phase_unreleased [pk, qk] 3 2 1 (Some (NegativeChange 30)) () = Ok ys ()"
    by (simp add: create_share_release_pack_def Let_def aggregate_phase_unreleased_def collect_pack_def
        pack_total_balance_def package_total_balance_def push_aggregated_def pack_terms_left_def)
  moreover have "phase_total 3 2 [pk, qk] = 160"
    using create_pack_total [OF run(1)] create_pack_total [OF run(2)] by (simp add: phase_total_def)
  ultimately show ?thesis
    using aggregate_conserves [OF run(3)] by (auto simp: changed_total_def)
qed

end
