(* ===== verification/Saving.thy ===== *)
theory Saving
  imports Release_Pack
begin

text \<open>
  The pallet \<^verbatim>\<open>modules/rio-saving\<close>: a saver hands in the collection asset and receives the asset
  of the running phase together with shares, part of them locked in release packs; a full quota
  starts the next phase and releases one term of every pack; redemption returns phase asset and
  shares for the collection asset; a daily bonus is split over the shares. The order in which the
  storage lists the accounts of a linked map is an argument, a function of the storage. The
  mints and burns of the assets pallet run its hooks, which are an argument of the operations;
  \<open>saving_hooks\<close> is the pallet's own implementation of them.
\<close>

section \<open>Types and storage\<close>

definition DAY_IN_MILLI :: u32 where "DAY_IN_MILLI = 86400000"
definition RESERVED_MINT_RATIO :: u32 where "RESERVED_MINT_RATIO = 6500"
definition RESERVED_MINT_DIV :: u32 where "RESERVED_MINT_DIV = 10000"

record PhaseInfo =
  phase_info_id :: phase_id
  phase_quota :: balance
  phase_exchange :: balance
  phase_iou_asset_id :: "asset_id option"

definition default_phase_info :: PhaseInfo where
  "default_phase_info = \<lparr>phase_info_id = 0, phase_quota = 0, phase_exchange = 0, phase_iou_asset_id = None\<rparr>"

record IOU =
  iou_asset_id :: asset_id
  iou_balance :: balance
  iou_owner :: account_id

datatype SavingEvent =
    PhaseChanged phase_id phase_id
  | ReleaseSavingShare account_id balance
  | StakingCreated account_id balance asset_id balance
  | StakingRedeemed account_id balance asset_id balance
  | SavingPausedAt u32 block_number u32
  | Bonus

record saving_store = price_store +
  CollectionAssetId :: asset_id
  CollectionAccountId :: account_id
  ShareAssetId :: asset_id
  ShareAssetCollected :: "account_id \<Rightarrow> balance"
  IOUAssetPhaseId :: "asset_id \<Rightarrow> phase_id option"
  CurrentPhaseId :: phase_id
  QuotaUsed :: balance
  NumOfPhasesLeft :: u32
  NumOfPhases :: u32
  PhaseInfos :: "phase_id \<Rightarrow> PhaseInfo option"
  ShareUnreleasedList :: "account_id \<Rightarrow> ShareReleasePack list option"
  AccountShares :: "account_id \<Rightarrow> balance option"
  SharesCirculation :: balance
  SavingPaused :: bool
  LastBonusTime :: moment
  ProfitAssetId :: asset_id
  SavingProfitPool :: account_id
  TeamAccountId :: account_id
  ReservedMintWallet :: account_id
  ReservedMintAssetId :: asset_id
  SavingEvents :: "SavingEvent list"

type_synonym 'z accounts_order = "'z saving_store_scheme \<Rightarrow> account_id list"

definition saving_event :: "SavingEvent \<Rightarrow> ('z saving_store_scheme world, unit) op" where
  "saving_event e = mutate (\<lambda>p. p\<lparr>SavingEvents := SavingEvents p @ [e]\<rparr>)"

definition phase_info :: "'z saving_store_scheme \<Rightarrow> phase_id \<Rightarrow> PhaseInfo" where
  "phase_info p ph = (case PhaseInfos p ph of Some pinfo \<Rightarrow> pinfo | None \<Rightarrow> default_phase_info)"

definition iou_asset_phase_id :: "'z saving_store_scheme \<Rightarrow> asset_id \<Rightarrow> phase_id" where
  "iou_asset_phase_id p i = (case IOUAssetPhaseId p i of Some ph \<Rightarrow> ph | None \<Rightarrow> 0)"

definition account_shares :: "'z saving_store_scheme \<Rightarrow> account_id \<Rightarrow> balance" where
  "account_shares p who = (case AccountShares p who of Some b \<Rightarrow> b | None \<Rightarrow> 0)"

definition account_future_releases :: "'z saving_store_scheme \<Rightarrow> account_id \<Rightarrow> ShareReleasePack list" where
  "account_future_releases p who = (case ShareUnreleasedList p who of Some pks \<Rightarrow> pks | None \<Rightarrow> [])"

definition put_unreleased :: "account_id \<Rightarrow> ShareReleasePack list option \<Rightarrow> ('z saving_store_scheme world, unit) op" where
  "put_unreleased who v = mutate (\<lambda>p. p\<lparr>ShareUnreleasedList := (ShareUnreleasedList p)(who := v)\<rparr>)"

definition put_shares :: "account_id \<Rightarrow> balance option \<Rightarrow> ('z saving_store_scheme world, unit) op" where
  "put_shares who v = mutate (\<lambda>p. p\<lparr>AccountShares := (AccountShares p)(who := v)\<rparr>)"

definition put_circulation :: "balance \<Rightarrow> ('z saving_store_scheme world, unit) op" where
  "put_circulation v = mutate (\<lambda>p. p\<lparr>SharesCirculation := v\<rparr>)"

section \<open>Tracking of shares\<close>

text \<open>The emergency stop, with the line of the source that raised it.\<close>

definition auto_pause :: "u32 \<Rightarrow> ('z saving_store_scheme world, unit) op" where
  "auto_pause linum = steps
     [mutate (\<lambda>p. p\<lparr>SavingPaused := True\<rparr>),
      reads BlockNumber (\<lambda>height.
      reads ExtrinsicIndex (\<lambda>x.
      and_then (unwrap x) (\<lambda>idx. saving_event (SavingPausedAt linum height idx))))]"

text \<open>A checked change of an item inside \<open>mutate\<close>: the item keeps its value when the check fails.\<close>

definition mutate_shares ::
  "u32 \<Rightarrow> account_id \<Rightarrow> (balance \<Rightarrow> balance option) \<Rightarrow> ('z saving_store_scheme world, unit) op" where
  "mutate_shares linum who change =
     reads_pallet (\<lambda>p. account_shares p who) (\<lambda>v.
     case change v of
       None \<Rightarrow> steps [auto_pause linum, put_shares who (Some v)]
     | Some shares \<Rightarrow> put_shares who (Some shares))"

definition mutate_circulation ::
  "u32 \<Rightarrow> (balance \<Rightarrow> balance option) \<Rightarrow> ('z saving_store_scheme world, unit) op" where
  "mutate_circulation linum change =
     reads_pallet SharesCirculation (\<lambda>v.
     case change v of
       None \<Rightarrow> steps [auto_pause linum, put_circulation v]
     | Some shares \<Rightarrow> put_circulation shares)"

definition add_shares :: "u32 \<Rightarrow> account_id \<Rightarrow> balance \<Rightarrow> ('z saving_store_scheme world, unit) op" where
  "add_shares linum to b =
     reads_pallet (\<lambda>p. AccountShares p to) (\<lambda>found.
     if found \<noteq> None then mutate_shares linum to (\<lambda>v. checked_add v b) else put_shares to (Some b))"

definition take_shares :: "account_id \<Rightarrow> balance \<Rightarrow> ('z saving_store_scheme world, unit) op" where
  "take_shares from b =
     reads_pallet (\<lambda>p. account_shares p from) (\<lambda>from_balance.
     if from_balance < b then auto_pause 1085
     else if from_balance = b then put_shares from None
     else put_shares from (Some (from_balance - b)))"

definition track_share_asset_movement ::
  "account_id \<Rightarrow> account_id \<Rightarrow> balance \<Rightarrow> ('z saving_store_scheme world, unit) op" where
  "track_share_asset_movement from to b =
     reads_pallet CollectionAccountId (\<lambda>collection.
     steps
       [if from \<noteq> collection then take_shares from b
        else reads_pallet SharesCirculation (\<lambda>v. put_circulation (v + b)),
        if to \<noteq> collection then add_shares 1104 to b
        else mutate_circulation 1116 (\<lambda>v. checked_sub v b)])"

section \<open>Minting and releasing\<close>

definition mint_assets ::
  "'z saving_store_scheme hooks \<Rightarrow> IOU option \<Rightarrow> ShareReleasePack option \<Rightarrow>
   ('z saving_store_scheme world, balance \<times> balance \<times> ShareReleasePack option) op" where
  "mint_assets hk iou_maybe share_pack_maybe =
     and_then
       (case iou_maybe of None \<Rightarrow> return 0
        | Some iou \<Rightarrow> and_then (mint hk Root (iou_asset_id iou) (iou_owner iou) (iou_balance iou)) (\<lambda>_.
            return (iou_balance iou))) (\<lambda>iou_minted.
     case share_pack_maybe of None \<Rightarrow> return (iou_minted, 0, None)
     | Some pk \<Rightarrow> (case release pk of
           (None, pk') \<Rightarrow> return (iou_minted, 0, Some pk')
         | (Some b, pk') \<Rightarrow> and_then (mint hk Root (pack_asset_id pk') (pack_owner pk') b) (\<lambda>_.
             return (iou_minted, b, Some pk'))))"

primrec release_packs ::
  "'z saving_store_scheme hooks \<Rightarrow> ShareReleasePack list \<Rightarrow> ('z saving_store_scheme world, ShareReleasePack list) op" where
  "release_packs hk [] = return []"
| "release_packs hk (pk # pks) =
     and_then (expect (mint_assets hk None (Some pk))) (\<lambda>(_, _, pk').
     and_then (release_packs hk pks) (\<lambda>rest.
     return (case pk' of Some q \<Rightarrow> if pack_empty q then rest else q # rest | None \<Rightarrow> rest)))"

definition shares_release_by_phase_change ::
  "'z accounts_order \<Rightarrow> 'z saving_store_scheme hooks \<Rightarrow> ('z saving_store_scheme world, unit) op" where
  "shares_release_by_phase_change listed hk =
     reads_pallet listed (\<lambda>accounts. for_each accounts (\<lambda>account.
     reads_pallet (\<lambda>p. account_future_releases p account) (\<lambda>pks.
     and_then (release_packs hk pks) (\<lambda>rest. steps
       [put_unreleased account None,
        whenever (0 < length rest) (put_unreleased account (Some rest))]))))"

definition shift_next_phase ::
  "'z accounts_order \<Rightarrow> 'z saving_store_scheme hooks \<Rightarrow> phase_id \<Rightarrow> ('z saving_store_scheme world, phase_id option) op" where
  "shift_next_phase listed hk current =
     and_then (unwrap (checked_add current 1)) (\<lambda>new_phase_id.
     and_then (expect (shares_release_by_phase_change listed hk)) (\<lambda>_.
     reads_pallet (\<lambda>p. PhaseInfos p new_phase_id) (\<lambda>found.
     if found \<noteq> None then
       and_then (steps
         [mutate (\<lambda>p. p\<lparr>QuotaUsed := 0\<rparr>),
          mutate (\<lambda>p. p\<lparr>CurrentPhaseId := new_phase_id\<rparr>),
          mutate (\<lambda>p. p\<lparr>NumOfPhasesLeft := (if 0 < NumOfPhasesLeft p then NumOfPhasesLeft p - 1 else NumOfPhasesLeft p)\<rparr>),
          saving_event (PhaseChanged current new_phase_id)])
         (\<lambda>_. return (Some new_phase_id))
     else
       and_then (mutate (\<lambda>p. p\<lparr>QuotaUsed := phase_quota (phase_info p current)\<rparr>)) (\<lambda>_. return None))))"

section \<open>Saving\<close>

definition create_iou :: "account_id \<Rightarrow> PhaseInfo \<Rightarrow> balance \<Rightarrow> ('s, IOU) op" where
  "create_iou owner pinfo saving =
     and_then (unwrap (phase_iou_asset_id pinfo)) (\<lambda>i.
     return \<lparr>iou_asset_id = i, iou_balance = saving, iou_owner = owner\<rparr>)"

definition create_release_pack_for_saving ::
  "account_id \<Rightarrow> asset_id \<Rightarrow> balance \<Rightarrow> PhaseInfo \<Rightarrow> ('z saving_store_scheme world, ShareReleasePack) op" where
  "create_release_pack_for_saving owner i b pinfo =
     (if b = 0 then throw (Msg ''saving balance must not be zero'')
      else and_then (unwrap (checked_mul b (phase_exchange pinfo))) (\<lambda>share_balance.
        reads_pallet NumOfPhasesLeft (\<lambda>effective_phases_count.
        if effective_phases_count < 1 then throw (Msg ''should not create share packages for the last phase'')
        else create_share_release_pack owner i (phase_info_id pinfo) share_balance effective_phases_count)))"

definition register_iou :: "IOU \<Rightarrow> ('s, unit) op" where
  "register_iou iou = return ()"

definition register_share_pack :: "ShareReleasePack \<Rightarrow> ('z saving_store_scheme world, unit) op" where
  "register_share_pack pk =
     whenever (\<not> pack_empty pk)
       (reads_pallet (\<lambda>p. ShareUnreleasedList p (pack_owner pk)) (\<lambda>found.
        case found of
          None \<Rightarrow> put_unreleased (pack_owner pk) (Some [pk])
        | Some v \<Rightarrow> and_then (put_unreleased (pack_owner pk) None) (\<lambda>_.
            and_then (expect (aggregate_phase_unreleased (v @ [pk]) (pack_phase_id pk) (pack_asset_id pk) (pack_owner pk) None))
              (\<lambda>v'. put_unreleased (pack_owner pk) (Some v')))))"

text \<open>The part of a saving that fits the running phase, and what goes over to the next one.\<close>

definition use_quota ::
  "PhaseInfo \<Rightarrow> balance \<Rightarrow> ('z saving_store_scheme world, bool \<times> balance \<times> balance) op" where
  "use_quota pinfo b =
     reads_pallet QuotaUsed (\<lambda>used.
     and_then (unwrap (checked_add used b)) (\<lambda>quota_will_be.
     if quota_will_be \<le> phase_quota pinfo then
       (if quota_will_be = phase_quota pinfo then return (True, 0, b)
        else and_then (mutate (\<lambda>p. p\<lparr>QuotaUsed := quota_will_be\<rparr>)) (\<lambda>_. return (False, 0, b)))
     else return (True, b - (phase_quota pinfo - used), phase_quota pinfo - used)))"

text \<open>Minting the phase asset and the first term of the shares, and locking the rest of them.\<close>

definition issue_saving ::
  "'z saving_store_scheme hooks \<Rightarrow> account_id \<Rightarrow> asset_id \<Rightarrow> PhaseInfo \<Rightarrow> balance \<Rightarrow> ('z saving_store_scheme world, unit) op" where
  "issue_saving hk who share_asset_id pinfo iou_amount =
     and_then (create_iou who pinfo iou_amount) (\<lambda>iou.
     and_then (create_release_pack_for_saving who share_asset_id iou_amount pinfo) (\<lambda>share_pack.
     and_then (mint_assets hk (Some iou) (Some share_pack)) (\<lambda>(_, share_asset_balance, share_pack'). steps
       [register_iou iou,
        register_share_pack (case share_pack' of Some pk \<Rightarrow> pk | None \<Rightarrow> share_pack),
        saving_event (StakingCreated who share_asset_balance (iou_asset_id iou) iou_amount)])))"

definition stake_in_phase ::
  "'z accounts_order \<Rightarrow> 'z saving_store_scheme hooks \<Rightarrow> account_id \<Rightarrow> balance \<Rightarrow>
   ('z saving_store_scheme world, balance \<times> balance option) op" where
  "stake_in_phase listed hk who b =
     and_then (ensure (b \<noteq> 0) ''saving can't be zero'') (\<lambda>_.
     reads_pallet ShareAssetId (\<lambda>share_asset_id.
     reads_pallet CurrentPhaseId (\<lambda>phase.
     reads_pallet (\<lambda>p. PhaseInfos p phase) (\<lambda>found.
     and_then (ok_or found ''current phase id is invalid'') (\<lambda>pinfo.
     and_then (use_quota pinfo b) (\<lambda>(next_phase, next_phase_iou, iou_amount).
     and_then (issue_saving hk who share_asset_id pinfo iou_amount) (\<lambda>_.
     if next_phase then
       and_then (shift_next_phase listed hk phase) (\<lambda>shifted.
       return (iou_amount, if shifted \<noteq> None \<and> 0 < next_phase_iou then Some next_phase_iou else None))
     else return (iou_amount, None))))))))"

text \<open>
  The recursion over the phases, bounded by the number \<open>n\<close> of phases it may enter; \<open>out\<close> is what is
  run in place of the next phase when the bound is used up. The code has no such case: with the bound
  \<open>phases_to_come\<close> the recursion ends before it, whatever \<open>out\<close> is, as \<open>Saving_Calls\<close> proves.
\<close>

primrec create_staking_upto ::
  "('z saving_store_scheme world, balance) op \<Rightarrow> nat \<Rightarrow> 'z accounts_order \<Rightarrow> 'z saving_store_scheme hooks \<Rightarrow>
   account_id \<Rightarrow> balance \<Rightarrow> ('z saving_store_scheme world, balance) op" where
  "create_staking_upto out 0 listed hk who b = out"
| "create_staking_upto out (Suc n) listed hk who b =
     and_then (stake_in_phase listed hk who b) (\<lambda>(iou_amount, next_phase_iou).
     case next_phase_iou of
       None \<Rightarrow> return iou_amount
     | Some rest \<Rightarrow> and_then (create_staking_upto out n listed hk who rest) (\<lambda>more. return (iou_amount + more)))"

definition phases_to_come :: "'z saving_store_scheme \<Rightarrow> nat" where
  "phases_to_come p = Suc (unat (max_value - CurrentPhaseId p))"

definition create_staking ::
  "'z accounts_order \<Rightarrow> 'z saving_store_scheme hooks \<Rightarrow> account_id \<Rightarrow> balance \<Rightarrow>
   ('z saving_store_scheme world, balance) op" where
  "create_staking listed hk who b =
     reads_pallet phases_to_come (\<lambda>n. create_staking_upto panic n listed hk who b)"

section \<open>Redemption\<close>

definition redeem_required_balances_in_ratio ::
  "phase_id \<Rightarrow> balance \<Rightarrow> u32 \<Rightarrow> u32 \<Rightarrow> ('s, balance \<times> balance) op" where
  "redeem_required_balances_in_ratio phase required total_phases phases_left =
     and_then (udiv (required * ucast (phases_left - 1)) (ucast (total_phases - phase + 1))) (\<lambda>locked.
     return (required - locked, locked))"

definition locked_of ::
  "(ShareReleasePack \<Rightarrow> bool) \<Rightarrow> ShareReleasePack list \<Rightarrow> balance" where
  "locked_of belongs pks = fold (\<lambda>pk acc. acc + pack_total_balance pk) (filter belongs pks) 0"

definition check_can_redeem :: "asset_id \<Rightarrow> account_id \<Rightarrow> balance \<Rightarrow> ('z saving_store_scheme world, unit) op" where
  "check_can_redeem i who amount =
     reads_pallet ShareAssetId (\<lambda>share_asset_id.
     whenever (share_asset_id \<noteq> 0)
       (reads_pallet (\<lambda>p. iou_asset_phase_id p i) (\<lambda>phase.
        reads_pallet (\<lambda>p. phase_info p phase) (\<lambda>pinfo.
        reads_pallet (\<lambda>p. ShareAssetCollected p who) (\<lambda>returned.
        reads (\<lambda>w. free_balance w share_asset_id who) (\<lambda>free.
        let required = amount * phase_exchange pinfo in
        reads_pallet NumOfPhases (\<lambda>num_of_phases.
        reads_pallet NumOfPhasesLeft (\<lambda>num_of_phases_left.
        and_then (redeem_required_balances_in_ratio phase required num_of_phases num_of_phases_left)
          (\<lambda>(free_required, locked_required).
        if required \<le> free + returned then return ()
        else
          reads_pallet (\<lambda>p. account_future_releases p who) (\<lambda>unreleased_list.
          let unreleased = locked_of (\<lambda>v. \<not> pack_empty v \<and> pack_asset_id v = share_asset_id \<and> pack_phase_id v = phase)
                unreleased_list
          in if free + returned < free_required \<and> free_required + locked_required \<noteq> unreleased + (free + returned)
               then throw (Msg ''not enough available share asset'')
             else if returned + unreleased + free < required then throw (Msg ''exceed allowed redeem limits'')
             else return ()))))))))))"

text \<open>
  The shares returned in advance pay first: what is left of them, what is burnt, and what is still
  to be taken from the free and from the locked shares.
\<close>

definition deduct_returned :: "balance \<Rightarrow> balance \<Rightarrow> balance \<Rightarrow> balance \<times> balance \<times> balance \<times> balance" where
  "deduct_returned returned free locked =
     (if 0 < returned then
        if returned < free then (0, returned, free - returned, locked)
        else
          let returned_left = returned - free in
          if locked < returned_left then (returned_left - locked, free + locked, 0, 0)
          else (0, free + returned_left, 0, locked - returned_left)
      else (returned, 0, free, locked))"

definition make_redeem ::
  "'z saving_store_scheme hooks \<Rightarrow> asset_id \<Rightarrow> account_id \<Rightarrow> asset_id \<Rightarrow> account_id \<Rightarrow> balance \<Rightarrow> asset_id \<Rightarrow>
   ('z saving_store_scheme world, unit) op" where
  "make_redeem hk i who collection_asset collection_account amount share_asset =
     reads_pallet (\<lambda>p. iou_asset_phase_id p i) (\<lambda>phase.
     reads_pallet (\<lambda>p. phase_info p phase) (\<lambda>pinfo.
     reads_pallet (\<lambda>p. ShareAssetCollected p who) (\<lambda>returned.
     let required = amount * phase_exchange pinfo in
     reads_pallet NumOfPhases (\<lambda>num_of_phases.
     reads_pallet NumOfPhasesLeft (\<lambda>num_of_phases_left.
     and_then (redeem_required_balances_in_ratio phase required num_of_phases num_of_phases_left)
       (\<lambda>(free_required, locked_required).
     let (returned_left, burn1, free1, locked1) = deduct_returned returned free_required locked_required in
     and_then (mutate (\<lambda>p. p\<lparr>ShareAssetCollected := (ShareAssetCollected p)(who := returned_left)\<rparr>)) (\<lambda>_.
     reads_pallet (\<lambda>p. account_future_releases p who) (\<lambda>unrel_list.
     and_then (put_unreleased who None) (\<lambda>_.
     let unrel_total = locked_of (\<lambda>v. pack_phase_id v = phase \<and> pack_owner v = who) unrel_list;
         locked_short = (if unrel_total < locked1 then locked1 - unrel_total else 0);
         locked2 = (if unrel_total < locked1 then unrel_total else locked1)
     in
     reads (\<lambda>w. free_balance w share_asset who) (\<lambda>free_share.
     and_then (whenever (0 < free1) (ensure (required \<le> free_share + unrel_total) ''total balance doesn't match'')) (\<lambda>_.
     let short = (0 < free1 \<and> free_share < free1);
         free_short = (if short then free1 - free_share else 0);
         free2 = (if short then free_share else free1);
         free3 = free2 + locked_short;
         locked3 = locked2 + free_short;
         burn2 = burn1 + free3
     in
     and_then (ensure (free3 + locked3 + returned = free_required + locked_required) ''in & out don't match'') (\<lambda>_.
     and_then (make_transfer_with_event share_asset who collection_account free3) (\<lambda>_.
     and_then (aggregate_phase_unreleased unrel_list phase share_asset who (Some (NegativeChange locked3))) (\<lambda>nl. steps
       [put_unreleased who (Some nl),
        whenever (burn2 \<noteq> 0) (burn hk Root share_asset collection_account burn2),
        make_transfer_with_event collection_asset collection_account who amount,
        saving_event (StakingRedeemed who burn2 i amount)]))))))))))))))"

definition sbtc_to_reserved_mint :: "price \<Rightarrow> balance \<Rightarrow> balance" where
  "sbtc_to_reserved_mint current_price amount =
     current_price * amount * ucast RESERVED_MINT_RATIO div (ucast PRICE_PRECISION * ucast RESERVED_MINT_DIV)"

definition create_reserved :: "'z saving_store_scheme hooks \<Rightarrow> balance \<Rightarrow> ('z saving_store_scheme world, unit) op" where
  "create_reserved hk amount =
     reads_pallet ReservedMintAssetId (\<lambda>i. reads_pallet ReservedMintWallet (\<lambda>wallet. mint hk Root i wallet amount))"

definition burn_reserved :: "'z saving_store_scheme hooks \<Rightarrow> balance \<Rightarrow> ('z saving_store_scheme world, unit) op" where
  "burn_reserved hk amount =
     reads_pallet ReservedMintAssetId (\<lambda>i. reads_pallet ReservedMintWallet (\<lambda>wallet. burn hk Root i wallet amount))"

section \<open>Bonus\<close>

definition check_bonus_time :: "('z saving_store_scheme world, bool) op" where
  "check_bonus_time =
     reads_pallet LastBonusTime (\<lambda>last.
     reads Timestamp (\<lambda>now.
     let day = ucast DAY_IN_MILLI in
     if last = 0 then and_then (mutate (\<lambda>p. p\<lparr>LastBonusTime := now div day * day\<rparr>)) (\<lambda>_. return False)
     else if now - last < day then return False
     else and_then (mutate (\<lambda>p. p\<lparr>LastBonusTime := LastBonusTime p + day\<rparr>)) (\<lambda>_. return True)))"

definition split_profit :: "balance \<Rightarrow> balance \<times> balance" where
  "split_profit amount = (let users = amount * 8 div 10 in (users, amount - users))"

definition pay_user_bonus ::
  "asset_id \<Rightarrow> account_id \<Rightarrow> balance \<Rightarrow> balance \<Rightarrow> account_id \<Rightarrow> ('z saving_store_scheme world, unit) op" where
  "pay_user_bonus profit_asset profit_pool users circulation user =
     reads_pallet (\<lambda>p. account_shares p user) (\<lambda>b.
     and_then (udiv (b * users) circulation) (\<lambda>user_bonus.
     unwrap_or_default (make_transfer_with_event profit_asset profit_pool user user_bonus)))"

definition dispatch_bonus :: "'z accounts_order \<Rightarrow> ('z saving_store_scheme world, unit) op" where
  "dispatch_bonus listed =
     reads_pallet TeamAccountId (\<lambda>team_account.
     reads_pallet SavingProfitPool (\<lambda>profit_pool.
     reads_pallet ProfitAssetId (\<lambda>profit_asset.
     reads (\<lambda>w. free_balance w profit_asset profit_pool) (\<lambda>total_profit.
     reads_pallet SharesCirculation (\<lambda>circulation.
     let (users, teams) = split_profit total_profit in
     steps
       [unwrap_or_default (make_transfer_with_event profit_asset profit_pool team_account teams),
        reads_pallet listed (\<lambda>accounts. for_each accounts (pay_user_bonus profit_asset profit_pool users circulation)),
        saving_event Bonus])))))"

definition saving_on_initialize :: "'z accounts_order \<Rightarrow> ('z saving_store_scheme world, unit) op" where
  "saving_on_initialize listed =
     reads_pallet SavingPaused (\<lambda>paused.
     whenever (\<not> paused) (and_then check_bonus_time (\<lambda>due. whenever due (dispatch_bonus listed))))"

section \<open>Dispatchable calls\<close>

definition saving_not_paused :: "('z saving_store_scheme world, unit) op" where
  "saving_not_paused = reads_pallet SavingPaused (\<lambda>paused. ensure (\<not> paused) ''module is paused'')"

definition saving_pause :: "origin \<Rightarrow> ('z saving_store_scheme world, unit) op" where
  "saving_pause og = steps [ensure_root og, mutate (\<lambda>p. p\<lparr>SavingPaused := True\<rparr>)]"

definition saving_resume :: "origin \<Rightarrow> ('z saving_store_scheme world, unit) op" where
  "saving_resume og = steps [ensure_root og, mutate (\<lambda>p. p\<lparr>SavingPaused := False\<rparr>)]"

definition set_share_asset_id :: "origin \<Rightarrow> asset_id \<Rightarrow> ('z saving_store_scheme world, unit) op" where
  "set_share_asset_id og i = steps
     [ensure_root og,
      reads (\<lambda>w. asset_exists w i) (\<lambda>found. ensure found ''invalid asset id for rio saving share asset''),
      mutate (\<lambda>p. p\<lparr>ShareAssetId := i\<rparr>)]"

definition set_iou_asset_id_for_phase ::
  "origin \<Rightarrow> phase_id \<Rightarrow> asset_id \<Rightarrow> ('z saving_store_scheme world, unit) op" where
  "set_iou_asset_id_for_phase og phase i = steps
     [ensure_root og,
      reads_pallet (\<lambda>p. PhaseInfos p phase) (\<lambda>found. ensure (found \<noteq> None) ''invalid phase id for rio saving''),
      reads (\<lambda>w. asset_exists w i) (\<lambda>found. ensure found ''invalid iou asset id for rio saving''),
      reads_pallet (\<lambda>p. IOUAssetPhaseId p i) (\<lambda>found.
        whenever (found \<noteq> None) (mutate (\<lambda>p. p\<lparr>IOUAssetPhaseId := (IOUAssetPhaseId p)(i := None)\<rparr>))),
      mutate (\<lambda>p. p\<lparr>PhaseInfos := (PhaseInfos p)(phase \<mapsto> (phase_info p phase)\<lparr>phase_iou_asset_id := Some i\<rparr>)\<rparr>),
      mutate (\<lambda>p. p\<lparr>IOUAssetPhaseId := (IOUAssetPhaseId p)(i \<mapsto> phase)\<rparr>)]"

definition set_collection_account :: "origin \<Rightarrow> account_id \<Rightarrow> ('z saving_store_scheme world, unit) op" where
  "set_collection_account og who = steps [ensure_root og, mutate (\<lambda>p. p\<lparr>CollectionAccountId := who\<rparr>)]"

definition set_collection_asset_id :: "origin \<Rightarrow> asset_id \<Rightarrow> ('z saving_store_scheme world, unit) op" where
  "set_collection_asset_id og i = steps
     [ensure_root og,
      reads (\<lambda>w. asset_exists w i) (\<lambda>found. ensure found ''invalid collection asset id''),
      mutate (\<lambda>p. p\<lparr>CollectionAssetId := i\<rparr>)]"

definition set_profit_asset_id :: "origin \<Rightarrow> asset_id \<Rightarrow> ('z saving_store_scheme world, unit) op" where
  "set_profit_asset_id og i = steps
     [ensure_root og,
      reads (\<lambda>w. asset_exists w i) (\<lambda>found. ensure found ''invalid collection asset id''),
      mutate (\<lambda>p. p\<lparr>ProfitAssetId := i\<rparr>)]"

definition set_profit_pool :: "origin \<Rightarrow> account_id \<Rightarrow> ('z saving_store_scheme world, unit) op" where
  "set_profit_pool og who = steps [ensure_root og, mutate (\<lambda>p. p\<lparr>SavingProfitPool := who\<rparr>)]"

definition set_team_account_id :: "origin \<Rightarrow> account_id \<Rightarrow> ('z saving_store_scheme world, unit) op" where
  "set_team_account_id og who = steps [ensure_root og, mutate (\<lambda>p. p\<lparr>TeamAccountId := who\<rparr>)]"

definition stake_for ::
  "'z accounts_order \<Rightarrow> 'z saving_store_scheme hooks \<Rightarrow> account_id \<Rightarrow> asset_id \<Rightarrow> balance \<Rightarrow>
   ('z saving_store_scheme world, unit) op" where
  "stake_for listed hk who i amount =
     reads_pallet CollectionAccountId (\<lambda>collection_account.
     reads_pallet CollectionAssetId (\<lambda>collection_asset.
     and_then (ensure (collection_asset = i) ''can't collect this asset'') (\<lambda>_.
     reads (\<lambda>w. free_balance w i who) (\<lambda>free.
     and_then (ensure (amount \<le> free) ''insufficient balance'') (\<lambda>_.
     and_then (create_staking listed hk who amount) (\<lambda>staking_balance.
     and_then (make_transfer_with_event i who collection_account staking_balance) (\<lambda>_.
     reads_pallet CurrentPrice (\<lambda>pr. create_reserved hk (sbtc_to_reserved_mint pr staking_balance)))))))))"

definition staking ::
  "'z accounts_order \<Rightarrow> 'z saving_store_scheme hooks \<Rightarrow> origin \<Rightarrow> asset_id \<Rightarrow> balance \<Rightarrow>
   ('z saving_store_scheme world, unit) op" where
  "staking listed hk og i amount =
     and_then saving_not_paused (\<lambda>_. and_then (ensure_signed og) (\<lambda>who. stake_for listed hk who i amount))"

definition sudo_staking ::
  "'z accounts_order \<Rightarrow> 'z saving_store_scheme hooks \<Rightarrow> origin \<Rightarrow> asset_id \<Rightarrow> balance \<Rightarrow> account_id \<Rightarrow>
   ('z saving_store_scheme world, unit) op" where
  "sudo_staking listed hk og i amount delegatee =
     and_then saving_not_paused (\<lambda>_. and_then (ensure_root og) (\<lambda>_. stake_for listed hk delegatee i amount))"

text \<open>The end of both redemptions: the phase asset goes in, and comes back if the redemption fails.\<close>

definition redeem_for ::
  "'z saving_store_scheme hooks \<Rightarrow> account_id \<Rightarrow> asset_id \<Rightarrow> balance \<Rightarrow> asset_id \<Rightarrow> asset_id \<Rightarrow> account_id \<Rightarrow>
   ('z saving_store_scheme world, unit) op" where
  "redeem_for hk who i amount share_asset collection_asset collection_account = steps
     [make_transfer_with_event i who collection_account amount,
      on_err (make_redeem hk i who collection_asset collection_account amount share_asset)
        (make_transfer_with_event i collection_account who amount),
      burn hk Root i collection_account amount]"

definition redeem_checked ::
  "asset_id \<Rightarrow> (asset_id \<Rightarrow> asset_id \<Rightarrow> account_id \<Rightarrow> ('z saving_store_scheme world, unit) op) \<Rightarrow>
   ('z saving_store_scheme world, unit) op" where
  "redeem_checked i k =
     reads_pallet ShareAssetId (\<lambda>share_asset.
     reads_pallet CollectionAssetId (\<lambda>collection_asset.
     reads_pallet CollectionAccountId (\<lambda>collection_account.
     and_then (ensure (share_asset \<noteq> 0) ''fail to find share asset id'') (\<lambda>_.
     and_then (ensure (collection_asset \<noteq> 0) ''fail to find collection asset id'') (\<lambda>_.
     reads_pallet (\<lambda>p. IOUAssetPhaseId p i) (\<lambda>found.
     and_then (ensure (found \<noteq> None) ''no such contract assets'') (\<lambda>_.
     k share_asset collection_asset collection_account)))))))"

definition redeem ::
  "'z saving_store_scheme hooks \<Rightarrow> origin \<Rightarrow> asset_id \<Rightarrow> balance \<Rightarrow> ('z saving_store_scheme world, unit) op" where
  "redeem hk og i amount =
     and_then saving_not_paused (\<lambda>_.
     and_then (ensure_signed og) (\<lambda>who.
     redeem_checked i (\<lambda>share_asset collection_asset collection_account.
     reads_pallet (\<lambda>p. sbtc_to_reserved_mint (CurrentPrice p) amount) (\<lambda>reserved.
     reads (\<lambda>w. free_balance w (ReservedMintAssetId (pallet w)) (ReservedMintWallet (pallet w))) (\<lambda>wallet_free.
     steps
       [ensure (reserved \<le> wallet_free) ''reserved wallet is short'',
        check_can_redeem i who amount,
        burn_reserved hk reserved,
        redeem_for hk who i amount share_asset collection_asset collection_account])))))"

definition sudo_redeem ::
  "'z saving_store_scheme hooks \<Rightarrow> origin \<Rightarrow> asset_id \<Rightarrow> balance \<Rightarrow> account_id \<Rightarrow> ('z saving_store_scheme world, unit) op" where
  "sudo_redeem hk og i amount delegatee =
     and_then saving_not_paused (\<lambda>_.
     and_then (ensure_root og) (\<lambda>_.
     redeem_checked i (\<lambda>share_asset collection_asset collection_account. steps
       [check_can_redeem i delegatee amount,
        redeem_for hk delegatee i amount share_asset collection_asset collection_account])))"

definition force_release_bonus :: "'z accounts_order \<Rightarrow> origin \<Rightarrow> ('z saving_store_scheme world, unit) op" where
  "force_release_bonus listed og = steps [saving_not_paused, ensure_root og, dispatch_bonus listed]"

datatype SavingCall =
    ScPause | ScResume
  | ScSetShareAssetId asset_id
  | ScSetIouAssetIdForPhase phase_id asset_id
  | ScSetCollectionAccount account_id
  | ScSetCollectionAssetId asset_id
  | ScSetProfitAssetId asset_id
  | ScSetProfitPool account_id
  | ScSetTeamAccountId account_id
  | ScStaking asset_id balance
  | ScSudoStaking asset_id balance account_id
  | ScRedeem asset_id balance
  | ScSudoRedeem asset_id balance account_id
  | ScForceReleaseBonus

fun dispatch_saving ::
  "'z accounts_order \<Rightarrow> 'z accounts_order \<Rightarrow> 'z saving_store_scheme hooks \<Rightarrow> origin \<Rightarrow> SavingCall \<Rightarrow>
   ('z saving_store_scheme world, unit) op" where
  "dispatch_saving lp ls hk og ScPause = saving_pause og"
| "dispatch_saving lp ls hk og ScResume = saving_resume og"
| "dispatch_saving lp ls hk og (ScSetShareAssetId i) = set_share_asset_id og i"
| "dispatch_saving lp ls hk og (ScSetIouAssetIdForPhase ph i) = set_iou_asset_id_for_phase og ph i"
| "dispatch_saving lp ls hk og (ScSetCollectionAccount who) = set_collection_account og who"
| "dispatch_saving lp ls hk og (ScSetCollectionAssetId i) = set_collection_asset_id og i"
| "dispatch_saving lp ls hk og (ScSetProfitAssetId i) = set_profit_asset_id og i"
| "dispatch_saving lp ls hk og (ScSetProfitPool who) = set_profit_pool og who"
| "dispatch_saving lp ls hk og (ScSetTeamAccountId who) = set_team_account_id og who"
| "dispatch_saving lp ls hk og (ScStaking i b) = staking lp hk og i b"
| "dispatch_saving lp ls hk og (ScSudoStaking i b who) = sudo_staking lp hk og i b who"
| "dispatch_saving lp ls hk og (ScRedeem i b) = redeem hk og i b"
| "dispatch_saving lp ls hk og (ScSudoRedeem i b who) = sudo_redeem hk og i b who"
| "dispatch_saving lp ls hk og ScForceReleaseBonus = force_release_bonus ls og"

section \<open>Hooks\<close>

definition saving_on_asset_mint :: "asset_id \<Rightarrow> account_id \<Rightarrow> balance \<Rightarrow> ('z saving_store_scheme world, unit) op" where
  "saving_on_asset_mint i to b =
     reads_pallet ShareAssetId (\<lambda>share_asset.
     reads_pallet CollectionAccountId (\<lambda>collection_account.
     whenever (share_asset = i \<and> collection_account \<noteq> to)
       (steps [add_shares 1253 to b, mutate_circulation 1264 (\<lambda>v. checked_add v b)])))"

definition saving_on_asset_burn :: "asset_id \<Rightarrow> account_id \<Rightarrow> balance \<Rightarrow> ('z saving_store_scheme world, unit) op" where
  "saving_on_asset_burn i from b =
     reads_pallet SavingPaused (\<lambda>paused.
     whenever (\<not> paused)
       (reads_pallet ShareAssetId (\<lambda>share_asset.
        reads_pallet CollectionAccountId (\<lambda>collection_account.
        whenever (share_asset = i \<and> collection_account \<noteq> from)
          (steps [mutate_shares 1291 from (\<lambda>v. checked_sub v b), mutate_circulation 1299 (\<lambda>v. checked_sub v b)])))))"

definition saving_before_asset_transfer ::
  "asset_id \<Rightarrow> account_id \<Rightarrow> account_id \<Rightarrow> balance \<Rightarrow> ('z saving_store_scheme world, unit) op" where
  "saving_before_asset_transfer i from to b =
     reads_pallet SavingPaused (\<lambda>paused.
     whenever (\<not> paused)
       (reads_pallet (\<lambda>p. IOUAssetPhaseId p i) (\<lambda>found.
        reads_pallet CollectionAccountId (\<lambda>collection_account.
        whenever (found \<noteq> None \<and> to = collection_account) (check_can_redeem i from b)))))"

definition saving_on_asset_transfer ::
  "'z accounts_order \<Rightarrow> 'z saving_store_scheme hooks \<Rightarrow> asset_id \<Rightarrow> account_id \<Rightarrow> account_id \<Rightarrow> balance \<Rightarrow>
   ('z saving_store_scheme world, unit) op" where
  "saving_on_asset_transfer listed hk i from to b =
     reads_pallet SavingPaused (\<lambda>paused.
     whenever (\<not> paused)
       (and_then (ensure (from \<noteq> to) ''from == to in transfer'') (\<lambda>_.
        reads_pallet ShareAssetId (\<lambda>share_asset.
        whenever (share_asset \<noteq> 0)
          (if i = share_asset then track_share_asset_movement from to b
           else
             reads_pallet CollectionAccountId (\<lambda>collection_account.
             reads_pallet CollectionAssetId (\<lambda>collection_asset.
             if i = collection_asset \<and> to = collection_account
               then and_then (create_staking listed hk from b) (\<lambda>_. return ())
             else
               reads_pallet (\<lambda>p. IOUAssetPhaseId p i) (\<lambda>found.
               whenever (found \<noteq> None \<and> to = collection_account)
                 (make_redeem hk i from collection_asset to b share_asset)))))))))"

text \<open>
  The hooks that mints and burns run, and all of them: a staking or a redemption that a transfer
  triggers runs mints and burns only.
\<close>

definition saving_mint_hooks :: "'z saving_store_scheme hooks" where
  "saving_mint_hooks = unit_hooks\<lparr>on_asset_mint := saving_on_asset_mint, on_asset_burn := saving_on_asset_burn\<rparr>"

definition saving_hooks :: "'z accounts_order \<Rightarrow> 'z saving_store_scheme hooks" where
  "saving_hooks listed = saving_mint_hooks
     \<lparr>before_asset_transfer := saving_before_asset_transfer,
      on_asset_transfer := saving_on_asset_transfer listed saving_mint_hooks\<rparr>"

section \<open>Genesis\<close>

definition genesis_phases :: "(balance \<times> balance \<times> asset_id) list \<Rightarrow> phase_id \<Rightarrow> PhaseInfo option" where
  "genesis_phases infos ph =
     (if 1 \<le> unat ph \<and> unat ph \<le> length infos then
        case infos ! (unat ph - 1) of (quota, exchange, i) \<Rightarrow>
          Some \<lparr>phase_info_id = ph, phase_quota = quota, phase_exchange = exchange, phase_iou_asset_id = Some i\<rparr>
      else None)"

primrec genesis_iou_phases :: "phase_id \<Rightarrow> (balance \<times> balance \<times> asset_id) list \<Rightarrow> asset_id \<Rightarrow> phase_id option" where
  "genesis_iou_phases ph [] i = None"
| "genesis_iou_phases ph (x # xs) i = (case genesis_iou_phases (ph + 1) xs i of
       Some later \<Rightarrow> Some later
     | None \<Rightarrow> if snd (snd x) = i then Some ph else None)"

definition saving_genesis ::
  "price_store \<Rightarrow> asset_id \<Rightarrow> account_id \<Rightarrow> asset_id \<Rightarrow> phase_id \<Rightarrow> (balance \<times> balance \<times> asset_id) list \<Rightarrow>
   moment \<Rightarrow> asset_id \<Rightarrow> account_id \<Rightarrow> account_id \<Rightarrow> account_id \<Rightarrow> asset_id \<Rightarrow> saving_store" where
  "saving_genesis base collection_asset collection_account share_asset current_phase infos now profit_asset pool team
     wallet reserved_asset = price_store.extend base
       (saving_store.fields collection_asset collection_account share_asset (\<lambda>_. 0) (genesis_iou_phases 1 infos)
          current_phase 0 (of_nat (length infos)) (of_nat (length infos)) (genesis_phases infos) (\<lambda>_. None) (\<lambda>_. None) 0
          False now profit_asset pool team wallet reserved_asset [])"

section \<open>What the operations touch\<close>

text \<open>
  The interfaces to the pallet. A relation that the assets operations, the hooks and the writes to
  the books (shares, packs, events, the switch and the time of the last bonus) satisfy is
  satisfied by every operation that leaves the schedule of phases alone. A relation that every
  write to the pallet's storage satisfies is satisfied by every call, by the hooks the pallet
  provides and by the block hook.
\<close>

locale share_book = hooked R hk for R and hk :: "'z saving_store_scheme hooks" +
  assumes write_shares: "effects R (mutate (\<lambda>p. p\<lparr>AccountShares := f1 p\<rparr>))"
    and write_circulation: "effects R (mutate (\<lambda>p. p\<lparr>SharesCirculation := f2 p\<rparr>))"
    and write_paused: "effects R (mutate (\<lambda>p. p\<lparr>SavingPaused := f3 p\<rparr>))"
    and write_events: "effects R (mutate (\<lambda>p. p\<lparr>SavingEvents := f4 p\<rparr>))"
    and write_unreleased: "effects R (mutate (\<lambda>p. p\<lparr>ShareUnreleasedList := f5 p\<rparr>))"
    and write_collected: "effects R (mutate (\<lambda>p. p\<lparr>ShareAssetCollected := f6 p\<rparr>))"
    and write_bonus_time: "effects R (mutate (\<lambda>p. p\<lparr>LastBonusTime := f7 p\<rparr>))"
begin

lemmas book_intros = effects_intros write_shares write_circulation write_paused write_events write_unreleased
  write_collected write_bonus_time moves mint_effects burn_effects

lemma share_tracking_effects:
  "effects R (saving_event e)"
  "effects R (put_unreleased who v)"
  "effects R (put_shares who b)"
  "effects R (put_circulation c)"
  "effects R (auto_pause n)"
  "effects R (mutate_shares n who g)"
  "effects R (mutate_circulation n g)"
  "effects R (add_shares n who c)"
  "effects R (take_shares who c)"
  "effects R (track_share_asset_movement who who' c)"
  unfolding track_share_asset_movement_def take_shares_def add_shares_def mutate_circulation_def mutate_shares_def
    auto_pause_def saving_event_def put_unreleased_def put_shares_def put_circulation_def
  by (intro book_intros)+

lemma pack_effects:
  "effects R (create_share_release_pack who i ph b t)"
  "effects R (aggregate_phase_unreleased pks ph i who ch)"
  "effects R (redeem_required_balances_in_ratio ph b t t')"
  "effects R (create_iou who pinfo b)"
  "effects R (create_release_pack_for_saving who i b pinfo)"
  unfolding aggregate_phase_unreleased_def push_aggregated_def create_share_release_pack_def
    redeem_required_balances_in_ratio_def create_iou_def create_release_pack_for_saving_def
  by (intro book_intros)+

lemmas book_all = book_intros share_tracking_effects pack_effects

lemma mint_assets_effects: "effects R (mint_assets hk iou pk)"
  unfolding mint_assets_def by (intro book_all)

lemma release_packs_effects: "effects R (release_packs hk pks)"
proof (induction pks)
  case (Cons pk pks)
  show ?case unfolding release_packs.simps by (intro book_all mint_assets_effects Cons)
qed (simp only: release_packs.simps effects_return)

lemma phase_release_effects: "effects R (shares_release_by_phase_change lp hk)"
  unfolding shares_release_by_phase_change_def by (intro book_all release_packs_effects)

lemma issue_saving_effects: "effects R (issue_saving hk who i pinfo b)"
  unfolding issue_saving_def register_iou_def register_share_pack_def by (intro book_all mint_assets_effects)

lemma redemption_effects:
  "effects R (check_can_redeem i who b)"
  "effects R (make_redeem hk i who ca cc b sa)"
  unfolding check_can_redeem_def make_redeem_def by (intro book_all)+

lemma redeem_call_effects:
  "effects R (redeem hk og i b)"
  "effects R (sudo_redeem hk og i b who)"
  unfolding redeem_def sudo_redeem_def redeem_checked_def redeem_for_def burn_reserved_def saving_not_paused_def
  by (intro book_all redemption_effects)+

lemma bonus_effects:
  "effects R (dispatch_bonus ls)"
  "effects R check_bonus_time"
  "effects R (saving_on_initialize ls)"
  "effects R (force_release_bonus ls og)"
  unfolding saving_on_initialize_def force_release_bonus_def dispatch_bonus_def pay_user_bonus_def check_bonus_time_def saving_not_paused_def
  by (intro book_all)+

lemma book_hook_effects:
  "effects R (saving_on_asset_mint i to b)"
  "effects R (saving_on_asset_burn i to b)"
  "effects R (saving_before_asset_transfer i from to b)"
  unfolding saving_on_asset_mint_def saving_on_asset_burn_def saving_before_asset_transfer_def
  by (intro book_all redemption_effects)+

lemma switch_effects:
  "effects R (saving_pause og)"
  "effects R (saving_resume og)"
  "effects R (create_reserved hk b)"
  "effects R saving_not_paused"
  unfolding saving_pause_def saving_resume_def create_reserved_def saving_not_paused_def
  by (intro book_all)+

end

text \<open>
  A third, smaller interface: a relation that a mint and every write to the pallet's storage satisfy
  is satisfied by a staking up to the point where the saver pays.
\<close>

locale share_issuer = effect_order R for R :: "'z saving_store_scheme world \<Rightarrow> 'z saving_store_scheme world \<Rightarrow> bool" +
  fixes hk :: "'z saving_store_scheme hooks"
  assumes issue: "effects R (mint hk og i to b)" and alter: "effects R (mutate f)"
begin

lemmas issue_intros = effects_intros issue alter

lemma mint_assets_effects: "effects R (mint_assets hk iou pk)"
  unfolding mint_assets_def by (intro issue_intros)

lemma release_packs_effects: "effects R (release_packs hk pks)"
proof (induction pks)
  case (Cons pk pks)
  show ?case unfolding release_packs.simps by (intro issue_intros mint_assets_effects Cons)
qed (simp only: release_packs.simps effects_return)

lemma shift_next_phase_effects: "effects R (shift_next_phase lp hk ph)"
  unfolding shift_next_phase_def shares_release_by_phase_change_def put_unreleased_def saving_event_def
  by (intro issue_intros release_packs_effects)

lemma issue_saving_effects: "effects R (issue_saving hk who i pinfo b)"
  unfolding issue_saving_def create_iou_def create_release_pack_for_saving_def create_share_release_pack_def
    register_iou_def register_share_pack_def aggregate_phase_unreleased_def push_aggregated_def put_unreleased_def saving_event_def
  by (intro issue_intros mint_assets_effects)

lemma stake_in_phase_effects: "effects R (stake_in_phase lp hk who b)"
  unfolding stake_in_phase_def use_quota_def by (intro issue_intros issue_saving_effects shift_next_phase_effects)

lemma create_staking_upto_effects: "effects R (create_staking_upto panic n lp hk who b)"
proof (induction n arbitrary: b)
  case (Suc n)
  show ?case unfolding create_staking_upto.simps by (intro issue_intros stake_in_phase_effects Suc)
qed (simp only: create_staking_upto.simps effects_panic)

lemma create_staking_effects: "effects R (create_staking lp hk who b)"
  unfolding create_staking_def by (intro issue_intros create_staking_upto_effects)

lemma create_reserved_effects: "effects R (create_reserved hk b)"
  unfolding create_reserved_def by (intro issue_intros)

end

locale saving_listener = hooked R hk for R and hk :: "'z saving_store_scheme hooks" +
  assumes writes: "effects R (mutate f)"

sublocale saving_listener \<subseteq> share_book R hk
  by unfold_locales (rule writes)+

sublocale saving_listener \<subseteq> issuer: share_issuer R hk
  by unfold_locales (rule mint_effects, rule writes)

context saving_listener
begin

lemma stake_for_effects: "effects R (stake_for lp hk who i b)"
  unfolding stake_for_def by (intro book_all issuer.create_staking_effects switch_effects)

lemma dispatch_saving_effects: "effects R (dispatch_saving lp ls hk og c)"
  by (cases c; simp only: dispatch_saving.simps set_share_asset_id_def set_iou_asset_id_for_phase_def
      set_collection_account_def set_collection_asset_id_def set_profit_asset_id_def set_profit_pool_def
      set_team_account_id_def staking_def sudo_staking_def;
      intro switch_effects redeem_call_effects bonus_effects writes book_all stake_for_effects)

lemma transfer_hook_effects: "effects R (saving_on_asset_transfer lp hk i from to b)"
  unfolding saving_on_asset_transfer_def by (intro book_all issuer.create_staking_effects redemption_effects)

end

interpretation unit_saving: saving_listener "keeps_supply :: 'z saving_store_scheme world \<Rightarrow> _" unit_hooks
  by unfold_locales (rule mutate_keeps_supply)

text \<open>The pallet's own hooks keep the supply, so the calls that run them do.\<close>

lemma saving_mint_hooks_simps [simp]:
  "before_asset_transfer saving_mint_hooks = (\<lambda>_ _ _ _. return ())"
  "on_asset_transfer saving_mint_hooks = (\<lambda>_ _ _ _. return ())"
  "before_asset_mint saving_mint_hooks = (\<lambda>_ _ _. return ())"
  "on_asset_mint saving_mint_hooks = saving_on_asset_mint"
  "before_asset_burn saving_mint_hooks = (\<lambda>_ _ _. return ())"
  "on_asset_burn saving_mint_hooks = saving_on_asset_burn"
  by (simp_all add: saving_mint_hooks_def unit_hooks_def)

lemma saving_hooks_simps [simp]:
  "before_asset_transfer (saving_hooks lp) = saving_before_asset_transfer"
  "on_asset_transfer (saving_hooks lp) = saving_on_asset_transfer lp saving_mint_hooks"
  "before_asset_mint (saving_hooks lp) = (\<lambda>_ _ _. return ())"
  "on_asset_mint (saving_hooks lp) = saving_on_asset_mint"
  "before_asset_burn (saving_hooks lp) = (\<lambda>_ _ _. return ())"
  "on_asset_burn (saving_hooks lp) = saving_on_asset_burn"
  by (simp_all add: saving_hooks_def)

interpretation mint_saving: saving_listener "keeps_supply :: 'z saving_store_scheme world \<Rightarrow> _" saving_mint_hooks
  by unfold_locales (simp_all add: supply_effects kept.effects_return unit_saving.book_hook_effects)

interpretation full_saving: saving_listener "keeps_supply :: 'z saving_store_scheme world \<Rightarrow> _" "saving_hooks lp"
  for lp :: "'z accounts_order"
  by unfold_locales
    (simp_all add: supply_effects kept.effects_return unit_saving.book_hook_effects mint_saving.transfer_hook_effects)

end
