(* ===== verification/Saving_Calls.thy ===== *)
theory Saving_Calls
  imports Saving
begin

text \<open>
  What the calls of the saving pallet guarantee: they conserve every asset, the recursion over the
  phases ends, the quota of a phase is never exceeded, and the calls run the listeners of mints and
  burns only, so that they behave as if no listener of transfers were installed.
\<close>

lemma saving_apply [simp]:
  "saving_event e w = Ok () (w\<lparr>pallet := (pallet w)\<lparr>SavingEvents := SavingEvents (pallet w) @ [e]\<rparr>\<rparr>)"
  "put_unreleased who v w =
     Ok () (w\<lparr>pallet := (pallet w)\<lparr>ShareUnreleasedList := (ShareUnreleasedList (pallet w))(who := v)\<rparr>\<rparr>)"
  "put_shares who b w = Ok () (w\<lparr>pallet := (pallet w)\<lparr>AccountShares := (AccountShares (pallet w))(who := b)\<rparr>\<rparr>)"
  "put_circulation c w = Ok () (w\<lparr>pallet := (pallet w)\<lparr>SharesCirculation := c\<rparr>\<rparr>)"
  by (simp_all add: saving_event_def put_unreleased_def put_shares_def put_circulation_def)

section \<open>The schedule of phases\<close>

text \<open>
  The part of the storage that only staking and the configuration write, and the invariant of it:
  the used quota stays within the quota of the running phase.
\<close>

definition same_schedule :: "'z saving_store_scheme world \<Rightarrow> 'z saving_store_scheme world \<Rightarrow> bool" where
  "same_schedule w t \<longleftrightarrow> CurrentPhaseId (pallet t) = CurrentPhaseId (pallet w) \<and>
     PhaseInfos (pallet t) = PhaseInfos (pallet w) \<and> QuotaUsed (pallet t) = QuotaUsed (pallet w)"

definition quota_ok :: "'z saving_store_scheme \<Rightarrow> bool" where
  "quota_ok p \<longleftrightarrow> (\<forall>pinfo. PhaseInfos p (CurrentPhaseId p) = Some pinfo \<longrightarrow> QuotaUsed p \<le> phase_quota pinfo)"

text \<open>
  What the phases have taken in: the quotas of the phases that are over, and the used quota of the
  running one.
\<close>

definition taken_in :: "'z saving_store_scheme \<Rightarrow> nat" where
  "taken_in p = (\<Sum>k | k < CurrentPhaseId p. case PhaseInfos p k of Some pinfo \<Rightarrow> unat (phase_quota pinfo) | None \<Rightarrow> 0)
     + unat (QuotaUsed p)"

interpretation schedule: effect_order "same_schedule :: 'z saving_store_scheme world \<Rightarrow> _"
  by unfold_locales (simp_all add: same_schedule_def)

lemma same_schedule_pallet: "pallet t = pallet w \<Longrightarrow> same_schedule w t"
  by (simp add: same_schedule_def)

lemma framed_keeps_schedule: "effects keeps_pallet m \<Longrightarrow> effects same_schedule m"
  by (simp add: effects_def same_schedule_def)

lemma schedule_writes:
  "effects same_schedule (mutate (\<lambda>p. p\<lparr>AccountShares := f1 p\<rparr>))"
  "effects same_schedule (mutate (\<lambda>p. p\<lparr>SharesCirculation := f2 p\<rparr>))"
  "effects same_schedule (mutate (\<lambda>p. p\<lparr>SavingPaused := f3 p\<rparr>))"
  "effects same_schedule (mutate (\<lambda>p. p\<lparr>SavingEvents := f4 p\<rparr>))"
  "effects same_schedule (mutate (\<lambda>p. p\<lparr>ShareUnreleasedList := f5 p\<rparr>))"
  "effects same_schedule (mutate (\<lambda>p. p\<lparr>ShareAssetCollected := f6 p\<rparr>))"
  "effects same_schedule (mutate (\<lambda>p. p\<lparr>LastBonusTime := f7 p\<rparr>))"
  by (auto intro!: effects_mutateI simp: same_schedule_def)

lemma internal_keeps_schedule:
  "effects same_schedule (make_transfer_with_event i from to amount)"
  "effects same_schedule (mint_free i who to amount)"
  "effects same_schedule (burn_free i who to amount)"
  "effects same_schedule (deposit_event e)"
  by (intro framed_keeps_schedule frame_effects)+

interpretation unit_schedule: share_book "same_schedule :: 'z saving_store_scheme world \<Rightarrow> _" unit_hooks
  by unfold_locales (simp_all add: internal_keeps_schedule schedule_writes schedule.effects_return unit_hooks_def)

interpretation mint_schedule: share_book "same_schedule :: 'z saving_store_scheme world \<Rightarrow> _" saving_mint_hooks
  by unfold_locales
    (simp_all add: internal_keeps_schedule schedule_writes schedule.effects_return unit_schedule.book_hook_effects)

text \<open>The calls of the pallet run the mint and burn hooks only.\<close>

lemma mint_saving_hooks: "mint (saving_hooks lp) = mint saving_mint_hooks"
  and burn_saving_hooks: "burn (saving_hooks lp) = burn saving_mint_hooks"
  by (simp_all add: mint_def burn_def fun_eq_iff)

lemmas own_hooks = mint_saving_hooks burn_saving_hooks

lemma mint_assets_hooks: "mint_assets (saving_hooks lp) = mint_assets saving_mint_hooks"
  unfolding mint_assets_def fun_eq_iff own_hooks by (intro allI refl)

lemma release_packs_hooks: "release_packs (saving_hooks lp) = release_packs saving_mint_hooks"
proof
  show "release_packs (saving_hooks lp) pks = release_packs saving_mint_hooks pks" for pks :: "ShareReleasePack list"
    by (induction pks) (simp_all add: mint_assets_hooks)
qed

lemma stake_in_phase_hooks: "stake_in_phase lp' (saving_hooks lp) = stake_in_phase lp' saving_mint_hooks"
  unfolding stake_in_phase_def issue_saving_def shift_next_phase_def shares_release_by_phase_change_def fun_eq_iff
    release_packs_hooks mint_assets_hooks by (intro allI refl)

lemma create_staking_upto_hooks: "create_staking_upto out n lp' (saving_hooks lp) = create_staking_upto out n lp' saving_mint_hooks"
proof (induction n)
  case (Suc n)
  show ?case unfolding fun_eq_iff create_staking_upto.simps stake_in_phase_hooks Suc by (intro allI refl)
qed (simp add: fun_eq_iff)

lemma create_staking_hooks: "create_staking lp' (saving_hooks lp) = create_staking lp' saving_mint_hooks"
  unfolding fun_eq_iff create_staking_def create_staking_upto_hooks by (intro allI refl)

lemma stake_for_hooks: "stake_for lp (saving_hooks lp') = stake_for lp saving_mint_hooks"
  unfolding fun_eq_iff stake_for_def create_staking_hooks create_reserved_def own_hooks by (intro allI refl)

lemma dispatch_saving_hooks: "dispatch_saving lp ls (saving_hooks lp') og c = dispatch_saving lp ls saving_mint_hooks og c"
  by (cases c; simp only: dispatch_saving.simps;
      unfold staking_def sudo_staking_def stake_for_def create_staking_hooks create_reserved_def own_hooks
        redeem_def sudo_redeem_def redeem_for_def make_redeem_def burn_reserved_def; rule refl)

section \<open>Staking and the quota\<close>

lemma use_quota_Ok:
  assumes "use_quota pinfo b w = Ok (nx, r, x) w1"
  shows "CurrentPhaseId (pallet w1) = CurrentPhaseId (pallet w) \<and> PhaseInfos (pallet w1) = PhaseInfos (pallet w) \<and> x + r = b \<and>
    (\<not> nx \<longrightarrow> r = 0 \<and> QuotaUsed (pallet w1) \<le> phase_quota pinfo) \<and>
    (nx \<longrightarrow> QuotaUsed (pallet w1) = QuotaUsed (pallet w)) \<and>
    (QuotaUsed (pallet w) \<le> phase_quota pinfo \<longrightarrow> x \<le> b)"
  using assms
  by (auto simp: use_quota_def checked_add_def word_le_nat_alt unat_plus unat_sub_if' split: if_splits)

lemma use_quota_counts:
  assumes "use_quota pinfo b w = Ok (nx, r, x) w1" and "QuotaUsed (pallet w) \<le> phase_quota pinfo"
  shows "unat (QuotaUsed (pallet w)) + unat x = unat (if nx then phase_quota pinfo else QuotaUsed (pallet w1))"
proof (cases "checked_add (QuotaUsed (pallet w)) b")
  case (Some q)
  then have "unat (QuotaUsed (pallet w)) + unat b = unat q" by (auto simp: checked_add_def unat_plus split: if_splits)
  with assms Some show ?thesis
    by (auto simp: use_quota_def word_le_nat_alt unat_minus split: if_splits)
qed (use assms in \<open>simp add: use_quota_def\<close>)

lemma use_quota_not_Err: "use_quota pinfo b w \<noteq> Err e w1"
  by (auto simp: use_quota_def and_then_eq_Err split: option.splits if_splits)

lemma shift_not_Err: "shift_next_phase lp hk ph w \<noteq> Err e w'"
  by (auto simp: shift_next_phase_def and_then_eq_Err expect_apply split: option.splits res.splits if_splits)

lemma shift_Ok:
  assumes "shift_next_phase lp saving_mint_hooks ph w = Ok res w'" and "CurrentPhaseId (pallet w) = ph"
  shows "PhaseInfos (pallet w') = PhaseInfos (pallet w) \<and>
    (case res of None \<Rightarrow> CurrentPhaseId (pallet w') = ph \<and> QuotaUsed (pallet w') = phase_quota (phase_info (pallet w') ph)
     | Some n \<Rightarrow> unat ph + 1 < 2 ^ 32 \<and> n = ph + 1 \<and> CurrentPhaseId (pallet w') = ph + 1 \<and> QuotaUsed (pallet w') = 0)"
proof -
  from assms(1) obtain n t where n: "checked_add ph 1 = Some n"
    and t: "expect (shares_release_by_phase_change lp saving_mint_hooks) w = Ok () t"
    and rest: "(if PhaseInfos (pallet t) n \<noteq> None then and_then (steps
         [mutate (\<lambda>p. p\<lparr>QuotaUsed := 0\<rparr>), mutate (\<lambda>p. p\<lparr>CurrentPhaseId := n\<rparr>),
          mutate (\<lambda>p. p\<lparr>NumOfPhasesLeft := (if 0 < NumOfPhasesLeft p then NumOfPhasesLeft p - 1 else NumOfPhasesLeft p)\<rparr>),
          saving_event (PhaseChanged ph n)]) (\<lambda>_. return (Some n))
       else and_then (mutate (\<lambda>p. p\<lparr>QuotaUsed := phase_quota (phase_info p ph)\<rparr>)) (\<lambda>_. return None)) t = Ok res w'"
    by (auto simp: shift_next_phase_def and_then_eq_Ok split: option.splits)
  have "same_schedule w t"
    using effects_Ok [OF schedule.effects_expect [OF mint_schedule.phase_release_effects] t] .
  with rest n assms(2) show ?thesis
    by (auto simp: same_schedule_def checked_add_def saving_event_def phase_info_def split: if_splits)
qed

lemma quota_okI:
  "PhaseInfos p (CurrentPhaseId p) = Some pinfo \<Longrightarrow> QuotaUsed p \<le> phase_quota pinfo \<Longrightarrow> quota_ok p"
  by (simp add: quota_ok_def)

lemma quota_ok_schedule: "quota_ok (pallet w) \<Longrightarrow> same_schedule w t \<Longrightarrow> quota_ok (pallet t)"
  by (simp add: quota_ok_def same_schedule_def)

lemma stake_in_phase_split:
  assumes "stake_in_phase lp saving_mint_hooks who b w = Ok (x, r) w'"
  obtains pinfo nx y w1 w2 where
    "PhaseInfos (pallet w) (CurrentPhaseId (pallet w)) = Some pinfo" and "use_quota pinfo b w = Ok (nx, y, x) w1"
    and "same_schedule w1 w2"
    and "\<not> nx \<longrightarrow> r = None \<and> w' = w2"
    and "nx \<longrightarrow> (\<exists>res. shift_next_phase lp saving_mint_hooks (CurrentPhaseId (pallet w)) w2 = Ok res w' \<and>
      r = (if res \<noteq> None \<and> 0 < y then Some y else None))"
proof -
  from assms obtain pinfo nx y w1 w2 where
    s: "PhaseInfos (pallet w) (CurrentPhaseId (pallet w)) = Some pinfo" "use_quota pinfo b w = Ok (nx, y, x) w1"
      "issue_saving saving_mint_hooks who (ShareAssetId (pallet w)) pinfo x w1 = Ok () w2"
      "\<not> nx \<longrightarrow> r = None \<and> w' = w2"
      "nx \<longrightarrow> (\<exists>res. shift_next_phase lp saving_mint_hooks (CurrentPhaseId (pallet w)) w2 = Ok res w' \<and>
        r = (if res \<noteq> None \<and> 0 < y then Some y else None))"
    by (auto simp: stake_in_phase_def and_then_eq_Ok split: if_splits option.splits)
  show thesis
    by (rule that [OF s(1,2) effects_Ok [OF mint_schedule.issue_saving_effects s(3)] s(4,5)])
qed

lemma stake_in_phase_advances:
  assumes "stake_in_phase lp saving_mint_hooks who b w = Ok (x, Some y) w'"
  shows "unat (CurrentPhaseId (pallet w)) + 1 < 2 ^ 32 \<and> CurrentPhaseId (pallet w') = CurrentPhaseId (pallet w) + 1 \<and> x + y = b"
proof -
  from assms obtain pinfo nx y' w1 w2 where
    s: "PhaseInfos (pallet w) (CurrentPhaseId (pallet w)) = Some pinfo" "use_quota pinfo b w = Ok (nx, y', x) w1"
      "same_schedule w1 w2"
      "\<not> nx \<longrightarrow> Some y = None \<and> w' = w2"
      "nx \<longrightarrow> (\<exists>res. shift_next_phase lp saving_mint_hooks (CurrentPhaseId (pallet w)) w2 = Ok res w' \<and>
        Some y = (if res \<noteq> None \<and> 0 < y' then Some y' else None))"
    by (rule stake_in_phase_split)
  have cur: "CurrentPhaseId (pallet w2) = CurrentPhaseId (pallet w)"
    using use_quota_Ok [OF s(2)] s(3) by (simp add: same_schedule_def)
  from s(4,5) obtain n where n: "shift_next_phase lp saving_mint_hooks (CurrentPhaseId (pallet w)) w2 = Ok (Some n) w'" "y = y'"
    by (auto split: if_splits)
  from shift_Ok [OF n(1) cur] use_quota_Ok [OF s(2)] n(2) show ?thesis by simp
qed

text \<open>The next phase opens with what the phases before it took in, their quotas.\<close>

lemma taken_in_next:
  assumes "unat (CurrentPhaseId p) + 1 < 2 ^ 32" and "CurrentPhaseId q = CurrentPhaseId p + 1" and "PhaseInfos q = PhaseInfos p"
    and "PhaseInfos p (CurrentPhaseId p) = Some pinfo" and "QuotaUsed q = 0"
  shows "taken_in q + unat (QuotaUsed p) = taken_in p + unat (phase_quota pinfo)"
proof -
  have "unat (CurrentPhaseId p + 1) = unat (CurrentPhaseId p) + 1" using assms(1) by (subst unat_plus) simp_all
  then have "{k. k < CurrentPhaseId p + 1} = insert (CurrentPhaseId p) {k. k < CurrentPhaseId p}"
    by (auto simp: word_less_nat_alt less_Suc_eq word_unat_eq_iff)
  then show ?thesis by (simp add: taken_in_def assms(2-5))
qed

lemma taken_in_same:
  "CurrentPhaseId q = CurrentPhaseId p \<Longrightarrow> PhaseInfos q = PhaseInfos p \<Longrightarrow>
   taken_in q + unat (QuotaUsed p) = taken_in p + unat (QuotaUsed q)"
  by (simp add: taken_in_def)

text \<open>A saving in one phase keeps the used quota within the quota, counts exactly what it takes and takes no more than offered.\<close>

lemma stake_in_phase_quota:
  assumes run: "stake_in_phase lp saving_mint_hooks who b w = Ok (x, r) w'" and ok: "quota_ok (pallet w)"
  shows "quota_ok (pallet w') \<and> x \<le> b \<and> taken_in (pallet w') = taken_in (pallet w) + unat x"
proof -
  from run obtain pinfo nx y w1 w2 where
    s: "PhaseInfos (pallet w) (CurrentPhaseId (pallet w)) = Some pinfo" "use_quota pinfo b w = Ok (nx, y, x) w1"
      "same_schedule w1 w2" "\<not> nx \<longrightarrow> r = None \<and> w' = w2"
      "nx \<longrightarrow> (\<exists>res. shift_next_phase lp saving_mint_hooks (CurrentPhaseId (pallet w)) w2 = Ok res w' \<and>
        r = (if res \<noteq> None \<and> 0 < y then Some y else None))"
    by (rule stake_in_phase_split)
  note q = use_quota_Ok [OF s(2)]
  have used: "QuotaUsed (pallet w) \<le> phase_quota pinfo" using ok s(1) by (simp add: quota_ok_def)
  have w2: "CurrentPhaseId (pallet w2) = CurrentPhaseId (pallet w)" "PhaseInfos (pallet w2) = PhaseInfos (pallet w)"
    using q s(3) by (simp_all add: same_schedule_def)
  note count = use_quota_counts [OF s(2) used]
  have "quota_ok (pallet w') \<and> taken_in (pallet w') = taken_in (pallet w) + unat x"
  proof (cases nx)
    case False
    then have w': "w' = w2" using s(4) by blast
    have "QuotaUsed (pallet w2) = QuotaUsed (pallet w1)" using s(3) by (simp add: same_schedule_def)
    with False taken_in_same [OF w2] count show ?thesis
      using q s(1) w2 by (auto simp: w' intro!: quota_okI [of _ pinfo])
  next
    case True
    then obtain res where sh: "shift_next_phase lp saving_mint_hooks (CurrentPhaseId (pallet w)) w2 = Ok res w'"
      using s(5) by blast
    note sh = shift_Ok [OF sh w2(1)]
    show ?thesis
    proof (cases res)
      case None
      then have w': "CurrentPhaseId (pallet w') = CurrentPhaseId (pallet w)" "PhaseInfos (pallet w') = PhaseInfos (pallet w)"
        using sh w2 by simp_all
      with taken_in_same [OF this] True count sh None s(1) show ?thesis by (simp add: quota_ok_def phase_info_def)
    next
      case (Some n)
      then have w': "CurrentPhaseId (pallet w') = CurrentPhaseId (pallet w) + 1" "PhaseInfos (pallet w') = PhaseInfos (pallet w)"
        "QuotaUsed (pallet w') = 0" "unat (CurrentPhaseId (pallet w)) + 1 < 2 ^ 32"
        using sh w2 by simp_all
      with taken_in_next [OF w'(4,1,2) s(1) w'(3)] True count show ?thesis by (simp add: quota_ok_def)
    qed
  qed
  with used q show ?thesis by simp
qed

lemma stake_in_phase_Err_quota:
  assumes run: "stake_in_phase lp saving_mint_hooks who b w = Err e w'" and ok: "quota_ok (pallet w)"
  shows "quota_ok (pallet w')"
proof (cases "PhaseInfos (pallet w) (CurrentPhaseId (pallet w))")
  case (Some pinfo)
  consider "w' = w" | nx y x w1 where "use_quota pinfo b w = Ok (nx, y, x) w1"
      "issue_saving saving_mint_hooks who (ShareAssetId (pallet w)) pinfo x w1 = Err e w'"
    using run Some
    by (auto simp: stake_in_phase_def and_then_eq_Err use_quota_not_Err shift_not_Err split: if_splits)
  then show ?thesis
  proof cases
    case 2
    have "quota_ok (pallet w1)"
      using use_quota_Ok [OF 2(1)] ok Some by (cases nx) (simp_all add: quota_ok_def)
    with effects_Err [OF mint_schedule.issue_saving_effects 2(2)] show ?thesis by (rule quota_ok_schedule [rotated])
  qed (use ok in simp)
next
  case None
  with run ok show ?thesis by (auto simp: stake_in_phase_def and_then_apply split: if_splits)
qed

text \<open>Every recursive call is in a later phase, so the number of phases to come is enough fuel.\<close>

lemma phases_to_come_next:
  assumes "unat (CurrentPhaseId p) + 1 < 2 ^ 32" and "CurrentPhaseId q = CurrentPhaseId p + 1"
  shows "Suc (phases_to_come q) = phases_to_come p"
proof -
  have all: "unat ((max_value :: u32) - c) = 2 ^ 32 - 1 - unat c" for c :: u32
    using unat_max_value [where 'n = 32] unat_le_max [of c] by (subst unat_minus) (simp_all add: word_le_nat_alt)
  have "unat (CurrentPhaseId q) = unat (CurrentPhaseId p) + 1"
    unfolding assms(2) using assms(1) by (subst unat_plus) simp_all
  with assms(1) show ?thesis by (simp add: phases_to_come_def all)
qed

lemma phases_to_come_left:
  assumes "stake_in_phase lp saving_mint_hooks who b w = Ok (x, Some y) w1"
  shows "Suc (phases_to_come (pallet w1)) = phases_to_come (pallet w)"
  using stake_in_phase_advances [OF assms] by (intro phases_to_come_next) simp_all

lemma create_staking_upto_enough:
  "phases_to_come (pallet w) \<le> n \<Longrightarrow> phases_to_come (pallet w) \<le> k \<Longrightarrow>
   create_staking_upto out n lp saving_mint_hooks who b w = create_staking_upto out' k lp saving_mint_hooks who b w"
proof (induction n arbitrary: k w b)
  case (Suc n)
  then obtain k' where k: "k = Suc k'" by (cases k) (simp_all add: phases_to_come_def)
  have "create_staking_upto out n lp saving_mint_hooks who y w1 = create_staking_upto out' k' lp saving_mint_hooks who y w1"
    if "stake_in_phase lp saving_mint_hooks who b w = Ok (x, Some y) w1" for x y w1
    using phases_to_come_left [OF that] Suc by (simp add: k)
  then show ?case
    by (auto simp: k and_then_apply split: res.splits option.splits prod.splits)
qed (simp add: phases_to_come_def)

text \<open>The equation of the code: a saving that fills the phase goes on as a saving of the rest.\<close>

lemma create_staking_rec:
  "create_staking lp saving_mint_hooks who b w =
     and_then (stake_in_phase lp saving_mint_hooks who b) (\<lambda>(iou_amount, next_phase_iou).
     case next_phase_iou of
       None \<Rightarrow> return iou_amount
     | Some rest \<Rightarrow> and_then (create_staking lp saving_mint_hooks who rest) (\<lambda>more. return (iou_amount + more))) w"
proof -
  obtain n where n: "phases_to_come (pallet w) = Suc n" by (simp add: phases_to_come_def)
  have "create_staking_upto panic n lp saving_mint_hooks who y w1 = create_staking lp saving_mint_hooks who y w1"
    if "stake_in_phase lp saving_mint_hooks who b w = Ok (x, Some y) w1" for x y w1
    using phases_to_come_left [OF that] n by (simp add: create_staking_def)
  then show ?thesis
    by (subst create_staking_def)
      (auto simp: n and_then_apply split: res.splits option.splits prod.splits)
qed

lemma create_staking_upto_quota:
  assumes out: "\<And>s. out s = Panic" and "quota_ok (pallet w)"
  shows "wp (create_staking_upto out n lp saving_mint_hooks who b)
    (\<lambda>x t. x \<le> b \<and> quota_ok (pallet t) \<and> taken_in (pallet t) = taken_in (pallet w) + unat x) (\<lambda>t. quota_ok (pallet t)) w"
  using assms(2)
proof (induction n arbitrary: w b)
  case (Suc n)
  show ?case
  proof (cases "stake_in_phase lp saving_mint_hooks who b w")
    case (Ok xr w1)
    obtain x r where xr: "xr = (x, r)" by (cases xr)
    note q = stake_in_phase_quota [OF Ok [unfolded xr] Suc.prems]
    show ?thesis
    proof (cases r)
      case (Some y)
      have rest: "wp (create_staking_upto out n lp saving_mint_hooks who y)
          (\<lambda>m t. m \<le> y \<and> quota_ok (pallet t) \<and> taken_in (pallet t) = taken_in (pallet w1) + unat m) (\<lambda>t. quota_ok (pallet t)) w1"
        using q by (intro Suc.IH) simp
      have add: "x + m \<le> b \<and> unat (x + m) = unat x + unat m" if "m \<le> y" for m
      proof -
        have "b - x = y" using stake_in_phase_advances [OF Ok [unfolded xr Some]] by auto
        then have "unat x + unat y = unat b" using q by (auto simp: unat_minus word_le_nat_alt)
        then have le: "unat x + unat m \<le> unat b" using that by (simp add: word_le_nat_alt)
        then have "unat x + unat m < 2 ^ 128" using unat_u128_less [of b] by linarith
        then have "unat (x + m) = unat x + unat m" by (intro unat_plus) simp
        with le show ?thesis by (simp add: word_le_nat_alt)
      qed
      show ?thesis
        by (cases "create_staking_upto out n lp saving_mint_hooks who y w1")
          (use rest add q in \<open>simp_all add: wp_def and_then_apply Ok xr Some\<close>)
    qed (use Ok q in \<open>simp add: xr wp_def\<close>)
  next
    case (Err e w1)
    then show ?thesis using stake_in_phase_Err_quota [OF Err Suc.prems] by (simp add: wp_def)
  qed (simp add: wp_def)
qed (simp add: wp_def out)

lemma create_staking_counts:
  assumes "quota_ok (pallet w)" and "create_staking lp saving_mint_hooks who b w = Ok x w'"
  shows "x \<le> b \<and> taken_in (pallet w') = taken_in (pallet w) + unat x"
  using create_staking_upto_quota [OF _ assms(1), of panic "phases_to_come (pallet w)" lp who b] assms(2)
  by (simp add: create_staking_def wp_def)

section \<open>What a saver pays\<close>

text \<open>A staking only mints until the saver pays: until then no balance falls.\<close>

definition balances_rise :: "'p world \<Rightarrow> 'p world \<Rightarrow> bool" where
  "balances_rise w t \<longleftrightarrow> (\<forall>i a. FreeBalance w i a \<le> FreeBalance t i a)"

interpretation rises: effect_order balances_rise
  by unfold_locales (simp add: balances_rise_def, unfold balances_rise_def, meson order_trans)

lemma mutate_rises: "effects balances_rise (mutate f)"
  by (rule effects_mutateI) (simp add: balances_rise_def)

lemma mint_free_rises: "effects balances_rise (mint_free i who to b)"
  by (rule effectsI)
    (auto simp: mint_free_apply balances_rise_def checked_add_def word_le_nat_alt unat_plus split: if_splits)

lemma mint_rises: "effects balances_rise (mint saving_mint_hooks og i to b)"
proof -
  have "effects balances_rise (deposit_event e :: ('a saving_store_scheme world, unit) op)" for e
    by (rule effectsI) (simp add: deposit_event_apply balances_rise_def)
  moreover have "effects balances_rise (saving_on_asset_mint i to b :: ('a saving_store_scheme world, unit) op)"
    unfolding saving_on_asset_mint_def add_shares_def mutate_shares_def mutate_circulation_def auto_pause_def put_shares_def
      put_circulation_def saving_event_def
    by (intro rises.effects_intros mutate_rises)
  ultimately show ?thesis
    unfolding mint_def saving_mint_hooks_simps by (intro rises.effects_intros mint_free_rises)
qed

interpretation rising: share_issuer "balances_rise :: 'z saving_store_scheme world \<Rightarrow> _" saving_mint_hooks
  by unfold_locales (rule mint_rises, rule mutate_rises)

lemma pay_at_most:
  assumes "make_transfer_with_event i from to x w = Ok u w'"
  shows "unat (FreeBalance w i from) \<le> unat (FreeBalance w' i from) + unat x"
  using assms by (auto simp: make_transfer_with_event_sent moved_def unat_minus word_le_nat_alt not_less split: if_splits)

lemma taken_in_framed: "effects same_schedule m \<Longrightarrow> final (m w) = Some t \<Longrightarrow> taken_in (pallet t) = taken_in (pallet w)"
  by (drule (1) effectsD) (simp add: same_schedule_def taken_in_def)

lemma stake_for_accounts:
  assumes ok: "quota_ok (pallet w)" and run: "stake_for lp saving_mint_hooks who i b w = Ok () w'"
  shows "\<exists>x \<le> b. taken_in (pallet w') = taken_in (pallet w) + unat x \<and>
    unat (FreeBalance w i who) \<le> unat (FreeBalance w' i who) + unat x"
proof -
  from run obtain x w1 w2 y where
    stake: "create_staking lp saving_mint_hooks who b w = Ok x w1"
    and pay: "make_transfer_with_event i who (CollectionAccountId (pallet w)) x w1 = Ok () w2"
    and res: "create_reserved saving_mint_hooks y w2 = Ok () w'"
    by (auto simp: stake_for_def and_then_eq_Ok split: if_splits)
  note count = create_staking_counts [OF ok stake]
  have "taken_in (pallet w2) = taken_in (pallet w1)" "taken_in (pallet w') = taken_in (pallet w2)"
    using taken_in_framed [OF internal_keeps_schedule(1)] taken_in_framed [OF mint_schedule.switch_effects(3)] pay res
    by (metis final_simps(1))+
  moreover have "FreeBalance w i who \<le> FreeBalance w1 i who" "FreeBalance w2 i who \<le> FreeBalance w' i who"
    using effects_Ok [OF rising.create_staking_effects stake] effects_Ok [OF rising.create_reserved_effects res]
    by (simp_all add: balances_rise_def)
  ultimately show ?thesis
    using count pay_at_most [OF pay] by (intro exI [of _ x]) (simp add: word_le_nat_alt)
qed

section \<open>The quota invariant\<close>

abbreviation keeps_quota :: "'z saving_store_scheme world \<Rightarrow> 'z saving_store_scheme world \<Rightarrow> bool" where
  "keeps_quota w t \<equiv> quota_ok (pallet w) \<longrightarrow> quota_ok (pallet t)"

interpretation quota: effect_order "keeps_quota :: 'z saving_store_scheme world \<Rightarrow> _"
  by unfold_locales auto

lemma schedule_keeps_quota: "effects same_schedule m \<Longrightarrow> effects keeps_quota m"
  unfolding effects_def by (blast intro: quota_ok_schedule)

lemma create_staking_keeps_quota: "effects keeps_quota (create_staking lp saving_mint_hooks who b)"
proof (rule effectsI, rule impI)
  fix w t assume run: "final (create_staking lp saving_mint_hooks who b w) = Some t" and ok: "quota_ok (pallet w)"
  from wp_mono [OF create_staking_upto_quota [OF _ ok, of panic "phases_to_come (pallet w)" lp who b], of "\<lambda>_ t. quota_ok (pallet t)" "\<lambda>t. quota_ok (pallet t)"]
    run show "quota_ok (pallet t)"
    by (simp add: create_staking_def wp_final)
qed

lemmas quota_moves = internal_keeps_schedule [THEN schedule_keeps_quota]
  mint_schedule.mint_effects [THEN schedule_keeps_quota] mint_schedule.switch_effects [THEN schedule_keeps_quota]

lemma stake_for_keeps_quota: "effects keeps_quota (stake_for lp saving_mint_hooks who i b)"
  unfolding stake_for_def by (intro quota.effects_intros create_staking_keeps_quota quota_moves)

lemma settings_keep_quota:
  "effects keeps_quota (set_share_asset_id og i)"
  "effects keeps_quota (set_collection_account og who)"
  "effects keeps_quota (set_collection_asset_id og i)"
  "effects keeps_quota (set_profit_asset_id og i)"
  "effects keeps_quota (set_profit_pool og who)"
  "effects keeps_quota (set_team_account_id og who)"
  unfolding set_share_asset_id_def set_collection_account_def set_collection_asset_id_def set_profit_asset_id_def
    set_profit_pool_def set_team_account_id_def
  by (intro quota.effects_intros effects_mutateI; simp add: quota_ok_def)+

lemma set_iou_keeps_quota: "effects keeps_quota (set_iou_asset_id_for_phase og ph i)"
  by (rule effectsI)
    (auto simp: set_iou_asset_id_for_phase_def quota_ok_def phase_info_def and_then_apply split: if_splits)

lemma dispatch_saving_keeps_quota: "effects keeps_quota (dispatch_saving lp ls saving_mint_hooks og c)"
  by (cases c)
    (simp_all add: settings_keep_quota set_iou_keeps_quota staking_def sudo_staking_def
      mint_schedule.redeem_call_effects [THEN schedule_keeps_quota] mint_schedule.bonus_effects [THEN schedule_keeps_quota]
      quota.effects_intros quota_moves stake_for_keeps_quota)

lemma transfer_hook_keeps_quota: "effects keeps_quota (saving_on_asset_transfer lp saving_mint_hooks i from to b)"
  unfolding saving_on_asset_transfer_def
  by (intro quota.effects_intros create_staking_keeps_quota
      mint_schedule.redemption_effects [THEN schedule_keeps_quota] mint_schedule.share_tracking_effects [THEN schedule_keeps_quota])

interpretation full_quota: hooked "keeps_quota :: 'z saving_store_scheme world \<Rightarrow> _" "saving_hooks lp"
  for lp :: "'z accounts_order"
  by unfold_locales
    (simp_all add: internal_keeps_schedule [THEN schedule_keeps_quota] transfer_hook_keeps_quota quota.effects_return
      mint_schedule.book_hook_effects [THEN schedule_keeps_quota])

lemma dispatch_assets_keeps_quota: "effects keeps_quota (dispatch_assets (saving_hooks lp) og c)"
  by (cases c) (simp_all add: full_quota.transfer_effects full_quota.mint_effects full_quota.burn_effects
      root_calls_keep_pallet [THEN framed_keeps_schedule, THEN schedule_keeps_quota])

lemma dispatch_assets_keeps_supply: "effects keeps_supply (dispatch_assets (saving_hooks lp) og c)"
  by (cases c) (simp_all add: supply_effects full_saving.transfer_effects full_saving.mint_effects full_saving.burn_effects)

section \<open>A concrete saving program\<close>

text \<open>
  Two phases with quotas 1000 and 4000; asset 10 is collected by account 50, asset 2 is the share
  asset, assets 3 and 4 are the assets of the phases.
\<close>

definition demo_saving :: saving_store where
  "demo_saving = saving_genesis
     \<lparr>FeeAccountId = 9, FeeEvents = [], NextFeeMultiplier = 0, Oracles = [], WitnessReport = \<lambda>_. 0,
      CurrentPrice = 20000, PriceReports = [], PriceEvents = []\<rparr>
     10 50 2 1 [(1000, 100, 3), (4000, 80, 4)] 0 8 51 52 53 8"

lemma demo_saving_simps [simp]:
  "CollectionAssetId demo_saving = 10" "CollectionAccountId demo_saving = 50" "ShareAssetId demo_saving = 2"
  "ShareAssetCollected demo_saving = (\<lambda>_. 0)" "CurrentPhaseId demo_saving = 1" "QuotaUsed demo_saving = 0"
  "NumOfPhasesLeft demo_saving = 2" "NumOfPhases demo_saving = 2"
  "IOUAssetPhaseId demo_saving 3 = Some 1" "IOUAssetPhaseId demo_saving 4 = Some 2" "IOUAssetPhaseId demo_saving 2 = None"
  "IOUAssetPhaseId demo_saving 10 = None"
  "PhaseInfos demo_saving 1 = Some \<lparr>phase_info_id = 1, phase_quota = 1000, phase_exchange = 100, phase_iou_asset_id = Some 3\<rparr>"
  "PhaseInfos demo_saving 2 = Some \<lparr>phase_info_id = 2, phase_quota = 4000, phase_exchange = 80, phase_iou_asset_id = Some 4\<rparr>"
  "ShareUnreleasedList demo_saving = (\<lambda>_. None)" "AccountShares demo_saving = (\<lambda>_. None)" "SharesCirculation demo_saving = 0"
  "SavingPaused demo_saving = False" "LastBonusTime demo_saving = 0" "ProfitAssetId demo_saving = 8"
  "SavingProfitPool demo_saving = 51" "TeamAccountId demo_saving = 52" "ReservedMintWallet demo_saving = 53"
  "ReservedMintAssetId demo_saving = 8" "CurrentPrice demo_saving = 20000" "SavingEvents demo_saving = []"
  by (simp_all add: demo_saving_def saving_genesis_def price_store.defs saving_store.defs genesis_phases_def)

abbreviation demo_savers :: "saving_store world" where
  "demo_savers \<equiv> demo_world [(10, 5000), (2, 0), (3, 0), (4, 0), (8, 10000)] demo_saving"

lemma create_staking_once:
  "stake_in_phase lp hk who b w = Ok (x, None) w' \<Longrightarrow> create_staking lp hk who b w = Ok x w'"
  by (simp add: create_staking_def phases_to_come_def)

lemmas staking_eval = create_staking_once stake_in_phase_def use_quota_def issue_saving_def create_iou_def
  create_release_pack_for_saving_def create_share_release_pack_def mint_assets_def release_def register_iou_def
  register_share_pack_def Let_def checked_add_def checked_mul_def mint_def mint_free_apply deposit_event_apply
  unwrap_or_default_apply saving_on_asset_mint_def add_shares_def mutate_shares_def mutate_circulation_def account_shares_def

lemmas demo_staking_call = staking_def saving_not_paused_def stake_for_def getter_defs staking_eval
  make_transfer_with_event_sent moved_def create_reserved_def sbtc_to_reserved_mint_def RESERVED_MINT_RATIO_def
  RESERVED_MINT_DIV_def PRICE_PRECISION_def

section \<open>Properties\<close>

text \<open>C16: saving conserves every asset. With the pallet listening to the assets pallet, every call of
  the saving pallet, every call of the assets pallet with the stakings, redemptions and share
  movements it triggers, and the bonus at the start of a block keep the issuance of every asset
  equal to its holdings, whether they succeed or fail.\<close>

theorem saving_keeps_supply:
  assumes "supply_ok w"
    and "final (dispatch_saving lp ls (saving_hooks lp) og c w) = Some w' \<or>
      final (dispatch_assets (saving_hooks lp) og ca w) = Some w' \<or> final (saving_on_initialize ls w) = Some w'"
  shows "supply_ok w'"
  using assms(2)
proof (elim disjE)
  assume "final (dispatch_saving lp ls (saving_hooks lp) og c w) = Some w'"
  from effectsD [OF full_saving.dispatch_saving_effects this] assms(1) show ?thesis by simp
next
  assume "final (dispatch_assets (saving_hooks lp) og ca w) = Some w'"
  from effectsD [OF dispatch_assets_keeps_supply this] assms(1) show ?thesis by simp
next
  assume "final (saving_on_initialize ls w) = Some w'"
  from effectsD [OF unit_saving.bonus_effects(3) this] assms(1) show ?thesis by simp
qed

theorem saving_keeps_supply_witness:
  "\<exists>w'. final (dispatch_saving (\<lambda>_. []) (\<lambda>_. []) (saving_hooks (\<lambda>_. [])) (Signed 1) (ScStaking 10 300) demo_savers) = Some w' \<and>
     FreeBalance w' 10 50 = 300 \<and> FreeBalance w' 3 1 = 300 \<and> FreeBalance w' 8 53 = 390 \<and> supply_ok w'"
proof -
  obtain w' where w': "final (dispatch_saving (\<lambda>_. []) (\<lambda>_. []) (saving_hooks (\<lambda>_. [])) (Signed 1) (ScStaking 10 300) demo_savers) = Some w'"
    "FreeBalance w' 10 50 = 300" "FreeBalance w' 3 1 = 300" "FreeBalance w' 8 53 = 390"
    by (simp add: demo_staking_call)
  from saving_keeps_supply [OF supply_ok_demo disjI1 [OF w'(1)]] w' show ?thesis by (intro exI conjI)
qed

text \<open>C20: the recursion of a staking over the phases ends. In the equation of the code, a staking
  saves in the running phase and goes on with the rest when that fills the phase; \<open>create_staking\<close> satisfies this
  equation for every storage. And the recursion is cut off nowhere: with a bound on its depth of at least
  the number of phase identifiers after the running one, the result is the same whatever is
  run in place of a call beyond the bound, so no such call is made.\<close>

theorem staking_terminates:
  assumes "phases_to_come (pallet w) \<le> n"
  shows "create_staking_upto out n lp (saving_hooks lp) who b w = create_staking lp (saving_hooks lp) who b w \<and>
    create_staking lp (saving_hooks lp) who b w =
      and_then (stake_in_phase lp (saving_hooks lp) who b) (\<lambda>(iou_amount, next_phase_iou).
      case next_phase_iou of
        None \<Rightarrow> return iou_amount
      | Some rest \<Rightarrow> and_then (create_staking lp (saving_hooks lp) who rest) (\<lambda>more. return (iou_amount + more))) w"
  unfolding create_staking_hooks create_staking_upto_hooks stake_in_phase_hooks
  using create_staking_upto_enough [OF assms order_refl, of out lp who b panic] create_staking_rec [of lp who b w]
  by (simp add: create_staking_def)

theorem staking_terminates_witness:
  "create_staking_upto (return 7) 4294967300 (\<lambda>_. []) (saving_hooks (\<lambda>_. [])) 1 300 demo_savers
     = create_staking (\<lambda>_. []) (saving_hooks (\<lambda>_. [])) 1 300 demo_savers"
  by (rule staking_terminates [THEN conjunct1]) (simp add: phases_to_come_def max_value_def)

text \<open>C21: the calls of the saving pallet move assets through the operations of the assets pallet
  that run no transfer hook. With the hooks the pallet installs, every call, from every origin and
  with every argument, has the same result and the same effect on the storage as with the mint and
  burn hooks alone: a staking or a redemption is never mistaken for a transfer of its sender.\<close>

theorem calls_run_no_transfer_hook:
  "dispatch_saving lp ls (saving_hooks lp') og c = dispatch_saving lp ls saving_mint_hooks og c"
  by (rule dispatch_saving_hooks)

text \<open>C19: a phase never takes in more than its quota, what is taken in is counted, and nobody is charged
  more than offered. Every call of the saving and the assets pallet, successful or failing, keeps
  the used quota within the quota of the running phase. A staking that succeeds takes in an amount of at most
  what is offered; the quotas of the phases that are over and the used quota of the running one
  together grow by exactly that amount; and in the call, by the saver or by the root origin for the saver, the saver's balance of the
  collected asset falls by no more than it.\<close>

theorem staking_within_quota:
  assumes "quota_ok (pallet w)"
  shows "(final (dispatch_saving lp ls (saving_hooks lp) og c w) = Some w' \<longrightarrow> quota_ok (pallet w')) \<and>
    (final (dispatch_assets (saving_hooks lp) og ca w) = Some w' \<longrightarrow> quota_ok (pallet w')) \<and>
    (create_staking lp (saving_hooks lp) who b w = Ok x w' \<longrightarrow>
      x \<le> b \<and> taken_in (pallet w') = taken_in (pallet w) + unat x) \<and>
    (staking lp (saving_hooks lp) (Signed who) i b w = Ok () w' \<or> sudo_staking lp (saving_hooks lp) Root i b who w = Ok () w' \<longrightarrow>
      (\<exists>x \<le> b. taken_in (pallet w') = taken_in (pallet w) + unat x \<and>
        unat (FreeBalance w i who) \<le> unat (FreeBalance w' i who) + unat x))"
proof (intro conjI impI)
  assume "final (dispatch_saving lp ls (saving_hooks lp) og c w) = Some w'"
  then have "final (dispatch_saving lp ls saving_mint_hooks og c w) = Some w'" by (simp only: dispatch_saving_hooks)
  from effectsD [OF dispatch_saving_keeps_quota this] assms show "quota_ok (pallet w')" by simp
next
  assume "final (dispatch_assets (saving_hooks lp) og ca w) = Some w'"
  from effectsD [OF dispatch_assets_keeps_quota this] assms show "quota_ok (pallet w')" by simp
next
  assume run: "create_staking lp (saving_hooks lp) who b w = Ok x w'"
  from create_staking_counts [OF assms run [unfolded create_staking_hooks]]
  show "x \<le> b" and "taken_in (pallet w') = taken_in (pallet w) + unat x" by simp_all
next
  assume "staking lp (saving_hooks lp) (Signed who) i b w = Ok () w' \<or> sudo_staking lp (saving_hooks lp) Root i b who w = Ok () w'"
  then have "stake_for lp (saving_hooks lp) who i b w = Ok () w'"
    by (auto simp: staking_def sudo_staking_def saving_not_paused_def and_then_eq_Ok split: if_splits)
  then have "stake_for lp saving_mint_hooks who i b w = Ok () w'" by (simp only: stake_for_hooks)
  from stake_for_accounts [OF assms this]
  show "\<exists>x \<le> b. taken_in (pallet w') = taken_in (pallet w) + unat x \<and>
    unat (FreeBalance w i who) \<le> unat (FreeBalance w' i who) + unat x" .
qed

theorem staking_within_quota_witness:
  "\<exists>w'. final (dispatch_saving (\<lambda>_. []) (\<lambda>_. []) (saving_hooks (\<lambda>_. [])) (Signed 1) (ScStaking 10 300) demo_savers) = Some w' \<and>
     QuotaUsed (pallet w') = 300 \<and> quota_ok (pallet w')"
proof -
  obtain w' where w': "final (dispatch_saving (\<lambda>_. []) (\<lambda>_. []) (saving_hooks (\<lambda>_. [])) (Signed 1) (ScStaking 10 300) demo_savers) = Some w'"
    "QuotaUsed (pallet w') = 300"
    by (simp add: demo_staking_call)
  have "quota_ok (pallet demo_savers)" by (simp add: quota_ok_def)
  from staking_within_quota [OF this] w' show ?thesis by blast
qed

end
