(* ===== verification/Saving_Shares.thy ===== *)
theory Saving_Shares
  imports Saving_Calls
begin

text \<open>
  The shares the saving pallet counts. While the pallet hears of every movement, its table of
  shares is the table of free balances of the share asset outside the collection account, and
  the circulation is their sum; redemptions move shares without telling it. The daily bonus is
  split in proportion to the table.
\<close>

section \<open>Tracking\<close>

definition shares_tracked :: "'z saving_store_scheme world \<Rightarrow> bool" where
  "shares_tracked w \<longleftrightarrow>
     (\<forall>a. account_shares (pallet w) a =
        (if a = CollectionAccountId (pallet w) then 0 else FreeBalance w (ShareAssetId (pallet w)) a)) \<and>
     unat (SharesCirculation (pallet w)) = sum (\<lambda>a. unat (account_shares (pallet w) a)) UNIV"

definition free_held :: "'p world \<Rightarrow> asset_id \<Rightarrow> nat" where
  "free_held w i = sum (\<lambda>a. unat (FreeBalance w i a)) UNIV"

lemma free_held_upd:
  "free_held (w\<lparr>FreeBalance := (FreeBalance w)(i := (FreeBalance w i)(a := v))\<rparr>) i + unat (FreeBalance w i a)
     = free_held w i + unat v"
proof -
  let ?f = "\<lambda>x. unat (FreeBalance w i x)"
  have "free_held (w\<lparr>FreeBalance := (FreeBalance w)(i := (FreeBalance w i)(a := v))\<rparr>) i = sum (?f(a := unat v)) UNIV"
    unfolding free_held_def by (rule sum.cong) auto
  with sum_update [of ?f a "unat v"] show ?thesis by (simp add: free_held_def)
qed

lemma free_held_cong: "FreeBalance w' i = FreeBalance w i \<Longrightarrow> free_held w' i = free_held w i"
  by (simp add: free_held_def)

lemma free_held_moved:
  assumes ok: "supply_ok w" and funds: "b \<le> FreeBalance w i from"
  shows "free_held (moved w i from to b) i = free_held w i"
proof (cases "from = to")
  case False
  let ?w1 = "w\<lparr>FreeBalance := (FreeBalance w)(i := (FreeBalance w i)(from := FreeBalance w i from - b))\<rparr>"
  have "free_held ?w1 i + unat (FreeBalance w i from) = free_held w i + unat (FreeBalance w i from - b)"
    by (rule free_held_upd)
  moreover have "free_held (moved w i from to b) i + unat (FreeBalance w i to)
      = free_held ?w1 i + unat (FreeBalance w i to + b)"
    using free_held_upd [of ?w1 i to "FreeBalance w i to + b"] False by (simp add: moved_def)
  moreover have "unat b \<le> unat (FreeBalance w i from)" using funds by (simp add: word_le_nat_alt)
  ultimately show ?thesis
    using credit_no_wrap [OF ok False funds] unat_minus [OF funds] by linarith
qed (simp add: moved_def)

text \<open>The circulation is what is held outside the collection account.\<close>

lemma tracked_sum:
  assumes "\<And>a. account_shares p a = (if a = c then 0 else FreeBalance w i a)"
  shows "sum (\<lambda>a. unat (account_shares p a)) UNIV + unat (FreeBalance w i c) = free_held w i"
proof -
  let ?f = "\<lambda>a. unat (FreeBalance w i a)"
  have "sum (\<lambda>a. unat (account_shares p a)) UNIV = sum (?f(c := 0)) UNIV"
    by (rule sum.cong) (auto simp: assms)
  with sum_update [of ?f c 0] show ?thesis by (simp add: free_held_def)
qed

lemma shares_trackedI:
  assumes "\<And>a. account_shares (pallet w) a = (if a = c then 0 else FreeBalance w i a)"
    and "CollectionAccountId (pallet w) = c" and "ShareAssetId (pallet w) = i"
    and "unat (SharesCirculation (pallet w)) + unat (FreeBalance w i c) = free_held w i"
  shows "shares_tracked w"
  using assms tracked_sum [of "pallet w" c w i] by (simp add: shares_tracked_def)

lemma shares_trackedD:
  assumes "shares_tracked w"
  shows "account_shares (pallet w) a =
      (if a = CollectionAccountId (pallet w) then 0 else FreeBalance w (ShareAssetId (pallet w)) a)"
    and "unat (SharesCirculation (pallet w)) + unat (FreeBalance w (ShareAssetId (pallet w)) (CollectionAccountId (pallet w)))
      = free_held w (ShareAssetId (pallet w))"
  using assms tracked_sum [of "pallet w" "CollectionAccountId (pallet w)" w "ShareAssetId (pallet w)"]
  by (simp_all add: shares_tracked_def)

section \<open>Steps of the tracking\<close>

lemma account_shares_put [simp]:
  "account_shares (p\<lparr>AccountShares := m\<rparr>) a = (case m a of Some b \<Rightarrow> b | None \<Rightarrow> 0)"
  "account_shares (p\<lparr>SharesCirculation := c\<rparr>) a = account_shares p a"
  "account_shares (p\<lparr>SavingEvents := es\<rparr>) a = account_shares p a"
  by (simp_all add: account_shares_def)

lemma add_shares_run:
  assumes "unat (account_shares (pallet w) to) + unat b < 2 ^ 128"
  shows "add_shares n to b w = Ok () (w\<lparr>pallet := (pallet w)\<lparr>AccountShares :=
    (AccountShares (pallet w))(to \<mapsto> account_shares (pallet w) to + b)\<rparr>\<rparr>)"
proof (cases "AccountShares (pallet w) to")
  case None
  then show ?thesis by (simp add: add_shares_def account_shares_def)
next
  case (Some v)
  then have "account_shares (pallet w) to = v" by (simp add: account_shares_def)
  then show ?thesis using assms Some by (simp add: add_shares_def mutate_shares_def checked_add_def)
qed

lemma take_shares_run:
  assumes "b \<le> account_shares (pallet w) from"
  shows "take_shares from b w = Ok () (w\<lparr>pallet := (pallet w)\<lparr>AccountShares := (AccountShares (pallet w))
    (from := (if account_shares (pallet w) from = b then None else Some (account_shares (pallet w) from - b)))\<rparr>\<rparr>)"
  using assms by (simp add: take_shares_def not_less [symmetric])

lemma mutate_circulation_run:
  "f (SharesCirculation (pallet w)) = Some v \<Longrightarrow>
   mutate_circulation n f w = Ok () (w\<lparr>pallet := (pallet w)\<lparr>SharesCirculation := v\<rparr>\<rparr>)"
  by (simp add: mutate_circulation_def)

lemma circulation_covers:
  assumes "shares_tracked w" and "a \<noteq> CollectionAccountId (pallet w)"
  shows "FreeBalance w (ShareAssetId (pallet w)) a \<le> SharesCirculation (pallet w)"
proof -
  let ?i = "ShareAssetId (pallet w)" and ?c = "CollectionAccountId (pallet w)"
  have "unat (FreeBalance w ?i a) + unat (FreeBalance w ?i ?c) \<le> free_held w ?i"
    unfolding free_held_def by (rule sum_ge_two [OF assms(2), of "\<lambda>a. unat (FreeBalance w ?i a)"])
  with shares_trackedD(2) [OF assms(1)] show ?thesis by (simp add: word_le_nat_alt)
qed

lemma free_le_held_sum: "supply_ok w \<Longrightarrow> free_held w i < 2 ^ 128"
proof -
  assume ok: "supply_ok w"
  have "free_held w i \<le> total_held w i"
    unfolding free_held_def total_held_def holding_def by (rule sum_mono) simp
  with supply_okD(1) [OF ok, of i] unat_u128_less [of "TotalIssuance w i"] show ?thesis by simp
qed

text \<open>A transfer of shares between two accounts, seen by the hook, keeps the count exact.\<close>

lemma moved_row:
  "from \<noteq> to \<Longrightarrow> FreeBalance (moved w i from to b) i = (FreeBalance w i)(from := FreeBalance w i from - b, to := FreeBalance w i to + b)"
  by (simp add: moved_def)

lemma stored_shares: "(case AccountShares p a of Some x \<Rightarrow> x | None \<Rightarrow> 0) = account_shares p a"
  by (simp add: account_shares_def)

lemma tracked_after_move:
  assumes ok: "supply_ok w" and i: "i = ShareAssetId (pallet w)" and c: "c = CollectionAccountId (pallet w)"
    and funds: "b \<le> FreeBalance w i from"
    and m: "\<And>a. (case m a of Some x \<Rightarrow> x | None \<Rightarrow> 0) = (if a = c then 0 else FreeBalance (moved w i from to b) i a)"
    and v: "unat v + unat (FreeBalance (moved w i from to b) i c) = free_held w i"
  shows "shares_tracked ((sent w i from to b)\<lparr>pallet := (pallet w)\<lparr>AccountShares := m, SharesCirculation := v\<rparr>\<rparr>)"
    (is "shares_tracked ?w'")
proof -
  have "free_held ?w' i = free_held w i"
    using free_held_moved [OF ok funds, of to] free_held_cong [of ?w' i "moved w i from to b"] by simp
  then show ?thesis by (intro shares_trackedI [of _ c i]) (simp_all add: m v i [symmetric] c [symmetric])
qed

text \<open>Between two savers the circulation stays; the collection account takes shares out of it or returns them.\<close>

lemma track_between_savers:
  assumes ok: "supply_ok w" and tr: "shares_tracked w" and i: "i = ShareAssetId (pallet w)"
    and funds: "b \<le> FreeBalance w i from" and ne: "from \<noteq> to"
    and savers: "from \<noteq> CollectionAccountId (pallet w)" "to \<noteq> CollectionAccountId (pallet w)"
  shows "\<exists>m v. track_share_asset_movement from to b (sent w i from to b) =
      Ok () ((sent w i from to b)\<lparr>pallet := (pallet w)\<lparr>AccountShares := m, SharesCirculation := v\<rparr>\<rparr>) \<and>
    shares_tracked ((sent w i from to b)\<lparr>pallet := (pallet w)\<lparr>AccountShares := m, SharesCirculation := v\<rparr>\<rparr>)"
proof -
  let ?p = "pallet w"
  let ?m = "(AccountShares ?p)(from := (if account_shares ?p from = b then None else Some (account_shares ?p from - b)),
    to \<mapsto> account_shares ?p to + b)"
  note sh = shares_trackedD(1) [OF tr, folded i] and circ = shares_trackedD(2) [OF tr, folded i]
  have room: "unat (FreeBalance w i to) + unat b < 2 ^ 128"
    using credit_no_wrap [OF ok ne funds] unat_u128_less [of "FreeBalance w i to + b"] by simp
  have "track_share_asset_movement from to b (sent w i from to b)
      = Ok () ((sent w i from to b)\<lparr>pallet := ?p\<lparr>AccountShares := ?m, SharesCirculation := SharesCirculation ?p\<rparr>\<rparr>)"
    using savers ne funds room
    by (simp add: track_share_asset_movement_def take_shares_run add_shares_run sh stored_shares)
  moreover have "shares_tracked ((sent w i from to b)\<lparr>pallet := ?p\<lparr>AccountShares := ?m, SharesCirculation := SharesCirculation ?p\<rparr>\<rparr>)"
    by (rule tracked_after_move [OF ok i refl funds]; use savers ne circ in \<open>simp add: moved_row sh stored_shares\<close>)
  ultimately show ?thesis by blast
qed

lemma track_from_collection:
  assumes ok: "supply_ok w" and tr: "shares_tracked w" and i: "i = ShareAssetId (pallet w)"
    and funds: "b \<le> FreeBalance w i from" and ne: "from \<noteq> to" and coll: "from = CollectionAccountId (pallet w)"
  shows "\<exists>m v. track_share_asset_movement from to b (sent w i from to b) =
      Ok () ((sent w i from to b)\<lparr>pallet := (pallet w)\<lparr>AccountShares := m, SharesCirculation := v\<rparr>\<rparr>) \<and>
    shares_tracked ((sent w i from to b)\<lparr>pallet := (pallet w)\<lparr>AccountShares := m, SharesCirculation := v\<rparr>\<rparr>)"
proof -
  let ?p = "pallet w"
  let ?m = "(AccountShares ?p)(to \<mapsto> account_shares ?p to + b)"
  note sh = shares_trackedD(1) [OF tr, folded i] and circ = shares_trackedD(2) [OF tr, folded i]
  have room: "unat (FreeBalance w i to) + unat b < 2 ^ 128"
    using credit_no_wrap [OF ok ne funds] unat_u128_less [of "FreeBalance w i to + b"] by simp
  have debit: "unat (FreeBalance w i from - b) = unat (FreeBalance w i from) - unat b" "unat b \<le> unat (FreeBalance w i from)"
    using funds by (simp_all add: unat_minus word_le_nat_alt)
  then have "unat (SharesCirculation ?p) + unat b < 2 ^ 128"
    using circ coll free_le_held_sum [OF ok, of i] by simp
  then have v: "unat (SharesCirculation ?p + b) = unat (SharesCirculation ?p) + unat b" by (intro unat_plus) simp
  have "track_share_asset_movement from to b (sent w i from to b)
      = Ok () ((sent w i from to b)\<lparr>pallet := ?p\<lparr>AccountShares := ?m, SharesCirculation := SharesCirculation ?p + b\<rparr>\<rparr>)"
    using coll ne room by (simp add: track_share_asset_movement_def add_shares_run sh)
  moreover have "shares_tracked ((sent w i from to b)\<lparr>pallet := ?p\<lparr>AccountShares := ?m, SharesCirculation := SharesCirculation ?p + b\<rparr>\<rparr>)"
    by (rule tracked_after_move [OF ok i coll funds]; unfold moved_row [OF ne]; use coll ne circ debit v in \<open>simp add: sh stored_shares\<close>)
  ultimately show ?thesis by blast
qed

lemma track_to_collection:
  assumes ok: "supply_ok w" and tr: "shares_tracked w" and i: "i = ShareAssetId (pallet w)"
    and funds: "b \<le> FreeBalance w i from" and ne: "from \<noteq> to" and coll: "to = CollectionAccountId (pallet w)"
  shows "\<exists>m v. track_share_asset_movement from to b (sent w i from to b) =
      Ok () ((sent w i from to b)\<lparr>pallet := (pallet w)\<lparr>AccountShares := m, SharesCirculation := v\<rparr>\<rparr>) \<and>
    shares_tracked ((sent w i from to b)\<lparr>pallet := (pallet w)\<lparr>AccountShares := m, SharesCirculation := v\<rparr>\<rparr>)"
proof -
  let ?p = "pallet w"
  let ?m = "(AccountShares ?p)(from := (if account_shares ?p from = b then None else Some (account_shares ?p from - b)))"
  note sh = shares_trackedD(1) [OF tr, folded i] and circ = shares_trackedD(2) [OF tr, folded i]
  have v: "b \<le> SharesCirculation ?p" using circulation_covers [OF tr, of "from"] coll ne funds by (simp add: i)
  then have u: "unat (SharesCirculation ?p - b) = unat (SharesCirculation ?p) - unat b" "unat b \<le> unat (SharesCirculation ?p)"
    by (simp_all add: unat_minus word_le_nat_alt)
  have "track_share_asset_movement from to b (sent w i from to b)
      = Ok () ((sent w i from to b)\<lparr>pallet := ?p\<lparr>AccountShares := ?m, SharesCirculation := SharesCirculation ?p - b\<rparr>\<rparr>)"
    using coll ne funds v
    by (simp add: track_share_asset_movement_def take_shares_run mutate_circulation_run checked_sub_def sh)
  moreover have "shares_tracked ((sent w i from to b)\<lparr>pallet := ?p\<lparr>AccountShares := ?m, SharesCirculation := SharesCirculation ?p - b\<rparr>\<rparr>)"
    by (rule tracked_after_move [OF ok i coll funds]; unfold moved_row [OF ne];
        use coll ne circ u credit_no_wrap [OF ok ne funds] in \<open>simp add: sh stored_shares\<close>)
  ultimately show ?thesis by blast
qed

lemma track_movement:
  assumes "supply_ok w" and "shares_tracked w" and "i = ShareAssetId (pallet w)" and "b \<le> FreeBalance w i from" and "from \<noteq> to"
  shows "\<exists>w'. track_share_asset_movement from to b (sent w i from to b) = Ok () w' \<and> shares_tracked w' \<and>
    SavingPaused (pallet w') = SavingPaused (pallet w)"
proof -
  have "\<exists>m v. track_share_asset_movement from to b (sent w i from to b) =
      Ok () ((sent w i from to b)\<lparr>pallet := (pallet w)\<lparr>AccountShares := m, SharesCirculation := v\<rparr>\<rparr>) \<and>
    shares_tracked ((sent w i from to b)\<lparr>pallet := (pallet w)\<lparr>AccountShares := m, SharesCirculation := v\<rparr>\<rparr>)"
    using track_between_savers [OF assms] track_from_collection [OF assms] track_to_collection [OF assms] by blast
  then show ?thesis by auto
qed

lemma tracked_set:
  assumes tr: "shares_tracked w" and i: "i = ShareAssetId (pallet w)"
    and bal: "FreeBalance w' i = (FreeBalance w i)(who := v)" and who: "who \<noteq> CollectionAccountId (pallet w)"
    and p: "pallet w' = (pallet w)\<lparr>AccountShares := (AccountShares (pallet w))(who \<mapsto> v), SharesCirculation := c\<rparr>"
    and c: "unat c + unat (FreeBalance w i who) = unat (SharesCirculation (pallet w)) + unat v"
  shows "shares_tracked w'"
proof (rule shares_trackedI [of _ "CollectionAccountId (pallet w)" i])
  let ?w = "w\<lparr>FreeBalance := (FreeBalance w)(i := (FreeBalance w i)(who := v))\<rparr>"
  have "free_held w' i = free_held ?w i" using bal by (intro free_held_cong) simp
  with free_held_upd [of w i who v] shares_trackedD(2) [OF tr] c who
  show "unat (SharesCirculation (pallet w')) + unat (FreeBalance w' i (CollectionAccountId (pallet w))) = free_held w' i"
    by (simp add: p bal i [symmetric])
  show "account_shares (pallet w') a = (if a = CollectionAccountId (pallet w) then 0 else FreeBalance w' i a)" for a
    using shares_trackedD(1) [OF tr, of a] who
    by (cases "a = CollectionAccountId (pallet w)") (simp_all add: p bal i [symmetric] account_shares_def)
qed (simp_all add: p i)

lemma tracked_set_collection:
  assumes tr: "shares_tracked w" and i: "i = ShareAssetId (pallet w)"
    and bal: "FreeBalance w' i = (FreeBalance w i)(CollectionAccountId (pallet w) := v)" and p: "pallet w' = pallet w"
  shows "shares_tracked w'"
proof (rule shares_trackedI [of _ "CollectionAccountId (pallet w)" i])
  let ?c = "CollectionAccountId (pallet w)"
  let ?w = "w\<lparr>FreeBalance := (FreeBalance w)(i := (FreeBalance w i)(?c := v))\<rparr>"
  have "free_held w' i = free_held ?w i" using bal by (intro free_held_cong) simp
  with free_held_upd [of w i ?c v] shares_trackedD(2) [OF tr]
  show "unat (SharesCirculation (pallet w')) + unat (FreeBalance w' i ?c) = free_held w' i"
    by (simp add: p bal i [symmetric])
  show "account_shares (pallet w') a = (if a = ?c then 0 else FreeBalance w' i a)" for a
    using shares_trackedD(1) [OF tr, of a] by (simp add: p bal i [symmetric])
qed (simp_all add: p i)

lemma mint_tracked:
  assumes ok: "supply_ok w" and tr: "shares_tracked w" and i: "i = ShareAssetId (pallet w)"
    and run: "mint (saving_hooks lp) og i to b w = Ok () w'"
  shows "shares_tracked w' \<and> SavingPaused (pallet w') = SavingPaused (pallet w)"
proof -
  let ?p = "pallet w"
  let ?w1 = "w\<lparr>TotalIssuance := (TotalIssuance w)(i := TotalIssuance w i + b),
    FreeBalance := (FreeBalance w)(i := (FreeBalance w i)(to := FreeBalance w i to + b)),
    AssetsEvents := AssetsEvents w @ [Minted i to b]\<rparr>"
  from run have fits: "unat (TotalIssuance w i) + unat b < 2 ^ 128" "unat (FreeBalance w i to) + unat b < 2 ^ 128"
    and w': "unwrap_or_default (saving_on_asset_mint i to b) ?w1 = Ok () w'"
    by (auto simp: mint_def and_then_eq_Ok mint_free_apply checked_add_def deposit_event_apply split: if_splits)
  show ?thesis
  proof (cases "to = CollectionAccountId ?p")
    case True
    then have "w' = ?w1" using w' by (simp add: saving_on_asset_mint_def unwrap_or_default_apply)
    then show ?thesis using True by (auto intro!: tracked_set_collection [OF tr i])
  next
    case False
    have sh: "account_shares ?p to = FreeBalance w i to" using shares_trackedD(1) [OF tr, of to] False by (simp add: i)
    have "unat (SharesCirculation ?p) \<le> free_held w i" using shares_trackedD(2) [OF tr] by (simp add: i)
    moreover have "free_held w i \<le> unat (TotalIssuance w i)"
      unfolding supply_okD(1) [OF ok, symmetric] free_held_def total_held_def holding_def by (rule sum_mono) simp
    ultimately have c: "unat (SharesCirculation ?p) + unat b < 2 ^ 128" using fits(1) by simp
    have "w' = ?w1\<lparr>pallet := ?p\<lparr>AccountShares := (AccountShares ?p)(to \<mapsto> FreeBalance w i to + b),
        SharesCirculation := SharesCirculation ?p + b\<rparr>\<rparr>"
      using w' False c fits(2)
      by (simp add: saving_on_asset_mint_def i [symmetric] add_shares_run sh mutate_circulation_run checked_add_def unwrap_or_default_apply)
    then show ?thesis
      using False c fits(2) by (auto intro!: tracked_set [OF tr i _ False] simp: unat_plus)
  qed
qed

lemma burn_tracked:
  assumes ok: "supply_ok w" and tr: "shares_tracked w" and i: "i = ShareAssetId (pallet w)" and np: "\<not> SavingPaused (pallet w)"
    and run: "burn (saving_hooks lp) og i from b w = Ok () w'"
  shows "shares_tracked w' \<and> SavingPaused (pallet w') = SavingPaused (pallet w)"
proof -
  let ?p = "pallet w"
  let ?w1 = "w\<lparr>TotalIssuance := (TotalIssuance w)(i := TotalIssuance w i - b),
    FreeBalance := (FreeBalance w)(i := (FreeBalance w i)(from := FreeBalance w i from - b)),
    AssetsEvents := AssetsEvents w @ [Burned i from b]\<rparr>"
  from run have funds: "b \<le> FreeBalance w i from"
    and w': "unwrap_or_default (saving_on_asset_burn i from b) ?w1 = Ok () w'"
    by (auto simp: burn_def and_then_eq_Ok burn_free_apply deposit_event_apply split: if_splits)
  show ?thesis
  proof (cases "from = CollectionAccountId ?p")
    case True
    then have "w' = ?w1" using w' np by (simp add: saving_on_asset_burn_def unwrap_or_default_apply)
    then show ?thesis using True by (auto intro!: tracked_set_collection [OF tr i])
  next
    case False
    have sh: "account_shares ?p from = FreeBalance w i from" using shares_trackedD(1) [OF tr, of "from"] False by (simp add: i)
    have c: "b \<le> SharesCirculation ?p" using circulation_covers [OF tr False] funds by (simp add: i)
    have "w' = ?w1\<lparr>pallet := ?p\<lparr>AccountShares := (AccountShares ?p)(from \<mapsto> FreeBalance w i from - b),
        SharesCirculation := SharesCirculation ?p - b\<rparr>\<rparr>"
      using w' False c funds np
      by (simp add: saving_on_asset_burn_def i [symmetric] mutate_shares_def sh mutate_circulation_run checked_sub_def unwrap_or_default_apply)
    then show ?thesis
      using False c funds by (auto intro!: tracked_set [OF tr i _ False] simp: unat_minus word_le_nat_alt)
  qed
qed

interpretation unchanged: effect_order "\<lambda>(w :: 'z saving_store_scheme world) t. t = w"
  by unfold_locales auto

lemma before_transfer_unchanged: "effects (\<lambda>w t. t = w) (saving_before_asset_transfer i from to b)"
  unfolding saving_before_asset_transfer_def check_can_redeem_def redeem_required_balances_in_ratio_def
  by (intro unchanged.effects_intros)

lemma transfer_tracked:
  assumes ok: "supply_ok w" and tr: "shares_tracked w" and i: "i = ShareAssetId (pallet w)" and nz: "i \<noteq> 0"
    and np: "\<not> SavingPaused (pallet w)" and run: "transfer (saving_hooks lp) og i to b w = Ok () w'"
  shows "shares_tracked w' \<and> SavingPaused (pallet w') = SavingPaused (pallet w)"
proof -
  from run obtain who w0 where og: "og = Signed who" and w0: "saving_before_asset_transfer i who to b w = Ok () w0"
    and rest: "steps [make_transfer_with_event i who to b,
      unwrap_or_default (saving_on_asset_transfer lp saving_mint_hooks i who to b)] w0 = Ok () w'"
    by (cases og) (auto simp: transfer_def and_then_eq_Ok)
  have [simp]: "w0 = w" using effects_Ok [OF before_transfer_unchanged w0] .
  from rest have funds: "b \<le> FreeBalance w i who"
    and w': "unwrap_or_default (saving_on_asset_transfer lp saving_mint_hooks i who to b) (sent w i who to b) = Ok () w'"
    by (auto simp: make_transfer_with_event_sent and_then_eq_Ok split: if_splits)
  show ?thesis
  proof (cases "who = to")
    case True
    then have "w' = w" using w' np by (simp add: saving_on_asset_transfer_def unwrap_or_default_apply sent_def)
    then show ?thesis using tr by simp
  next
    case False
    from track_movement [OF ok tr i funds False] obtain t where
      t: "track_share_asset_movement who to b (sent w i who to b) = Ok () t" "shares_tracked t"
        "SavingPaused (pallet t) = SavingPaused (pallet w)" by blast
    have "w' = t"
      using w' np False nz t(1) by (simp add: saving_on_asset_transfer_def unwrap_or_default_apply i [symmetric])
    with t show ?thesis by simp
  qed
qed

section \<open>Redemptions\<close>

text \<open>
  While the share asset and the collection account are the given ones and the reserve is kept in
  another asset, an operation leaves the table of shares and the circulation alone.
\<close>

definition same_shares ::
  "asset_id \<Rightarrow> account_id \<Rightarrow> 'z saving_store_scheme world \<Rightarrow> 'z saving_store_scheme world \<Rightarrow> bool" where
  "same_shares sa cc w t \<longleftrightarrow>
     (ShareAssetId (pallet w) = sa \<and> CollectionAccountId (pallet w) = cc \<and> ReservedMintAssetId (pallet w) \<noteq> sa \<longrightarrow>
      ShareAssetId (pallet t) = sa \<and> CollectionAccountId (pallet t) = cc \<and> ReservedMintAssetId (pallet t) \<noteq> sa \<and>
      AccountShares (pallet t) = AccountShares (pallet w) \<and> SharesCirculation (pallet t) = SharesCirculation (pallet w))"

interpretation shares: effect_order "same_shares sa cc :: 'z saving_store_scheme world \<Rightarrow> _" for sa cc
  by unfold_locales (auto simp: same_shares_def)

lemma framed_keeps_shares: "effects keeps_pallet m \<Longrightarrow> effects (same_shares sa cc) m"
  by (simp add: effects_def same_shares_def)

lemma share_frames:
  "effects (same_shares sa cc) (make_transfer_with_event i from to amount)"
  "effects (same_shares sa cc) (burn_free i who to amount)"
  "effects (same_shares sa cc) (deposit_event e)"
  by (intro framed_keeps_shares frame_effects)+

lemma shares_other_writes:
  "effects (same_shares sa cc) (saving_event e)"
  "effects (same_shares sa cc) (put_unreleased who v)"
  "effects (same_shares sa cc) (mutate (\<lambda>p. p\<lparr>ShareAssetCollected := f p\<rparr>))"
  unfolding saving_event_def put_unreleased_def
  by (auto intro!: effects_mutateI simp: same_shares_def)

text \<open>A burn is not seen when it is of another asset or takes from the collection account.\<close>

lemma burn_hook_unseen:
  assumes "i \<noteq> sa \<or> from = cc"
  shows "effects (same_shares sa cc) (saving_on_asset_burn i from b)"
  using assms by (intro effectsI) (auto simp: saving_on_asset_burn_def same_shares_def split: if_splits)

lemma burn_unseen:
  assumes "i \<noteq> sa \<or> from = cc"
  shows "effects (same_shares sa cc) (burn saving_mint_hooks og i from b)"
  unfolding burn_def by (intro shares.effects_intros share_frames) (simp_all add: shares.effects_return burn_hook_unseen [OF assms])

lemma burn_reserved_unseen: "effects (same_shares sa cc) (burn_reserved saving_mint_hooks b)"
proof (rule effectsI)
  fix w t :: "'a saving_store_scheme world" assume run: "final (burn_reserved saving_mint_hooks b w) = Some t"
  show "same_shares sa cc w t"
  proof (cases "ReservedMintAssetId (pallet w) = sa")
    case False
    from run have "final (burn saving_mint_hooks Root (ReservedMintAssetId (pallet w)) (ReservedMintWallet (pallet w)) b w) = Some t"
      by (simp add: burn_reserved_def)
    from effectsD [OF burn_unseen this] False show ?thesis by blast
  qed (simp add: same_shares_def)
qed

lemma redeem_reads_unseen:
  "effects (same_shares sa cc) (check_can_redeem i who b)"
  "effects (same_shares sa cc) (aggregate_phase_unreleased pks ph j who ch)"
  "effects (same_shares sa cc) (redeem_required_balances_in_ratio ph b t t')"
  "effects (same_shares sa cc) saving_not_paused"
  unfolding check_can_redeem_def aggregate_phase_unreleased_def push_aggregated_def create_share_release_pack_def
    redeem_required_balances_in_ratio_def saving_not_paused_def
  by (intro shares.effects_intros)+

lemma make_redeem_unseen: "effects (same_shares sa cc) (make_redeem saving_mint_hooks i who ca cc b sa)"
  unfolding make_redeem_def
  by (intro shares.effects_intros redeem_reads_unseen shares_other_writes share_frames burn_unseen disjI2 refl)

lemma redeem_for_unseen: "effects (same_shares sa cc) (redeem_for saving_mint_hooks who i b sa ca cc)"
  unfolding redeem_for_def
  by (intro shares.effects_intros make_redeem_unseen share_frames burn_unseen disjI2 refl)

lemma redeem_checked_unseen:
  assumes "\<And>ca. effects (same_shares sa cc) (k sa ca cc)"
  shows "effects (same_shares sa cc) (redeem_checked i k)"
proof (rule effectsI)
  fix w t assume run: "final (redeem_checked i k w) = Some t"
  show "same_shares sa cc w t"
  proof (cases "ShareAssetId (pallet w) = sa \<and> CollectionAccountId (pallet w) = cc")
    case True
    with run have "t = w \<or> final (k sa (CollectionAssetId (pallet w)) cc w) = Some t"
      by (auto simp: redeem_checked_def and_then_apply split: if_splits)
    with effectsD [OF assms] shares.refl show ?thesis by blast
  qed (auto simp: same_shares_def)
qed

lemma redeem_unseen:
  "effects (same_shares sa cc) (redeem saving_mint_hooks og i b)"
  "effects (same_shares sa cc) (sudo_redeem saving_mint_hooks og i b who)"
  unfolding redeem_def sudo_redeem_def
  by (intro shares.effects_intros redeem_reads_unseen redeem_checked_unseen burn_reserved_unseen redeem_for_unseen)+

section \<open>The bonus\<close>

definition bonus_of :: "'z saving_store_scheme \<Rightarrow> balance \<Rightarrow> balance \<Rightarrow> account_id \<Rightarrow> balance" where
  "bonus_of p users circulation a = account_shares p a * users div circulation"

lemma sum_list_div_le:
  assumes "0 < (c :: nat)"
  shows "sum_list (map (\<lambda>x. f x div c) xs) \<le> sum_list (map f xs) div c"
proof -
  have "sum_list (map (\<lambda>x. f x div c) xs) * c \<le> sum_list (map f xs)"
    by (induction xs) (auto simp: add_mult_distrib intro: add_mono)
  then show ?thesis using assms by (simp add: less_eq_div_iff_mult_less_eq)
qed

lemma pay_user_bonus_run:
  assumes "c \<noteq> 0" and "Symbols w i \<noteq> None" and "Restrictions w i Transferable = None"
    and "bonus_of (pallet w) users c u \<le> FreeBalance w i pool"
  shows "pay_user_bonus i pool users c u w = Ok () (sent w i pool u (bonus_of (pallet w) users c u))"
  using assms
  by (auto simp: pay_user_bonus_def bonus_of_def make_transfer_with_event_sent unwrap_or_default_apply not_less [symmetric])

lemma pay_bonuses:
  assumes "supply_ok w" and "distinct accounts" and "pool \<notin> set accounts" and "c \<noteq> 0"
    and "Symbols w i \<noteq> None" and "Restrictions w i Transferable = None"
    and "sum_list (map (\<lambda>a. unat (bonus_of (pallet w) users c a)) accounts) \<le> unat (FreeBalance w i pool)"
  shows "\<exists>w'. for_each accounts (pay_user_bonus i pool users c) w = Ok () w' \<and> supply_ok w' \<and> pallet w' = pallet w \<and>
    (\<forall>a. a \<noteq> pool \<longrightarrow> unat (FreeBalance w' i a)
       = unat (FreeBalance w i a) + (if a \<in> set accounts then unat (bonus_of (pallet w) users c a) else 0))"
  using assms
proof (induction accounts arbitrary: w)
  case (Cons u us)
  let ?b = "bonus_of (pallet w) users c u" let ?w1 = "sent w i pool u ?b"
  have funds: "?b \<le> FreeBalance w i pool" using Cons.prems(7) by (simp add: word_le_nat_alt)
  have ne: "pool \<noteq> u" using Cons.prems(3) by auto
  note moved = free_moved(1,2) [OF Cons.prems(1) funds, of u] free_moved(3) [OF Cons.prems(1) funds]
  have ok: "supply_ok ?w1" using supply_ok_moved [OF Cons.prems(1) funds] by (simp add: supply_ok_sent)
  have "sum_list (map (\<lambda>a. unat (bonus_of (pallet ?w1) users c a)) us) \<le> unat (FreeBalance ?w1 i pool)"
    using Cons.prems(7) moved(2) [OF ne] by simp
  from Cons.IH [OF ok _ _ Cons.prems(4) _ _ this] Cons.prems obtain w' where
    w': "for_each us (pay_user_bonus i pool users c) ?w1 = Ok () w'" "supply_ok w'" "pallet w' = pallet w"
      "\<And>a. a \<noteq> pool \<Longrightarrow> unat (FreeBalance w' i a)
        = unat (FreeBalance (moved w i pool u ?b) i a) + (if a \<in> set us then unat (bonus_of (pallet w) users c a) else 0)"
    by auto
  have "unat (FreeBalance w' i a) = unat (FreeBalance w i a) + (if a \<in> set (u # us) then unat (bonus_of (pallet w) users c a) else 0)"
    if a: "a \<noteq> pool" for a
    using w'(4) [OF a] moved(1) [OF ne] moved(3) [OF a, of u] Cons.prems(2) by (cases "a = u") simp_all
  then show ?case
    using pay_user_bonus_run [OF Cons.prems(4-6) funds] w'(1-3) by auto
qed simp

lemma bonus_sum:
  assumes "c \<noteq> 0" and "sum_list (map (\<lambda>a. unat (account_shares p a)) accounts) \<le> unat c"
    and fits: "\<And>a. a \<in> set accounts \<Longrightarrow> unat (account_shares p a) * unat users < 2 ^ 128"
  shows "sum_list (map (\<lambda>a. unat (bonus_of p users c a)) accounts) \<le> unat users"
proof -
  have c: "0 < unat c" using assms(1) by (simp add: unat_gt_0)
  have eq: "map (\<lambda>a. unat (bonus_of p users c a)) accounts = map (\<lambda>a. unat (account_shares p a) * unat users div unat c) accounts"
    by (rule map_cong [OF refl]) (use fits in \<open>simp add: bonus_of_def unat_div unat_times\<close>)
  have "sum_list (map (\<lambda>a. unat (bonus_of p users c a)) accounts)
      \<le> sum_list (map (\<lambda>a. unat (account_shares p a) * unat users) accounts) div unat c"
    unfolding eq by (rule sum_list_div_le [OF c])
  also have "\<dots> = sum_list (map (\<lambda>a. unat (account_shares p a)) accounts) * unat users div unat c"
    by (simp add: sum_list_mult_const)
  also have "\<dots> \<le> unat c * unat users div unat c"
    using assms(2) by (intro div_le_mono mult_le_mono1)
  also have "\<dots> = unat users" using c by simp
  finally show ?thesis .
qed

lemma split_profit_facts:
  assumes "unat t * 8 < 2 ^ 128"
  shows "fst (split_profit t) + snd (split_profit t) = t" and "unat (fst (split_profit t)) = unat t * 8 div 10"
    and "fst (split_profit t) \<le> t" and "snd (split_profit t) \<le> t"
proof -
  have "unat (t * 8) = unat t * 8" using assms by (subst unat_times) simp_all
  then show u: "unat (fst (split_profit t)) = unat t * 8 div 10" by (simp add: split_profit_def Let_def unat_div)
  then show le: "fst (split_profit t) \<le> t" by (simp add: word_le_nat_alt)
  show "fst (split_profit t) + snd (split_profit t) = t" by (simp add: split_profit_def Let_def)
  show "snd (split_profit t) \<le> t" using le by (simp add: split_profit_def Let_def word_le_nat_alt unat_minus)
qed

lemma bonus_run:
  assumes ok: "supply_ok w" and i: "i = ProfitAssetId (pallet w)" and pool: "pool = SavingProfitPool (pallet w)"
    and team: "team = TeamAccountId (pallet w)" and c: "c = SharesCirculation (pallet w)" "c \<noteq> 0"
    and asset: "Symbols w i \<noteq> None" "Restrictions w i Transferable = None"
    and accounts: "distinct (ls (pallet w))" "pool \<notin> set (ls (pallet w))" "team \<notin> set (ls (pallet w))" "team \<noteq> pool"
    and counted: "sum_list (map (\<lambda>a. unat (account_shares (pallet w) a)) (ls (pallet w))) \<le> unat c"
    and profit: "t = FreeBalance w i pool" "unat t * 8 < 2 ^ 128"
    and fits: "\<And>a. a \<in> set (ls (pallet w)) \<Longrightarrow> unat (account_shares (pallet w) a) * unat (fst (split_profit t)) < 2 ^ 128"
  shows "\<exists>w'. dispatch_bonus ls w = Ok () w' \<and> supply_ok w' \<and>
    (\<forall>a\<in>set (ls (pallet w)). unat (FreeBalance w' i a) = unat (FreeBalance w i a) + unat (bonus_of (pallet w) (fst (split_profit t)) c a)) \<and>
    unat (FreeBalance w' i team) = unat (FreeBalance w i team) + unat (snd (split_profit t))"
proof -
  let ?users = "fst (split_profit t)" and ?teams = "snd (split_profit t)"
  let ?w1 = "sent w i pool team ?teams"
  note sp = split_profit_facts [OF profit(2)]
  have funds: "?teams \<le> FreeBalance w i pool" using sp(4) profit(1) by simp
  note moved = free_moved(1,2) [OF ok funds, of team] free_moved(3) [OF ok funds]
  have ok1: "supply_ok ?w1" using supply_ok_moved [OF ok funds] by (simp add: supply_ok_sent)
  have "unat t = unat ?users + unat ?teams"
    using sp(1,3,4) by (metis add_diff_cancel_left' le_add_diff_inverse unat_minus word_le_nat_alt)
  then have "unat (FreeBalance ?w1 i pool) = unat ?users" using moved(2) accounts(4) profit(1) by simp
  with bonus_sum [OF c(2) counted fits]
  have "sum_list (map (\<lambda>a. unat (bonus_of (pallet ?w1) ?users c a)) (ls (pallet w))) \<le> unat (FreeBalance ?w1 i pool)" by simp
  from pay_bonuses [OF ok1 accounts(1,2) c(2) _ _ this] asset obtain w2 where
    w2: "for_each (ls (pallet w)) (pay_user_bonus i pool ?users c) ?w1 = Ok () w2" "supply_ok w2" "pallet w2 = pallet w"
      "\<And>a. a \<noteq> pool \<Longrightarrow> unat (FreeBalance w2 i a)
        = unat (FreeBalance (moved w i pool team ?teams) i a) + (if a \<in> set (ls (pallet w)) then unat (bonus_of (pallet w) ?users c a) else 0)"
    by auto
  have "dispatch_bonus ls w = Ok () (w2\<lparr>pallet := (pallet w)\<lparr>SavingEvents := SavingEvents (pallet w) @ [Bonus]\<rparr>\<rparr>)"
    using asset funds w2(1,3)
    by (auto simp: dispatch_bonus_def getter_defs i [symmetric] pool [symmetric] team [symmetric] c(1) [symmetric] profit(1) [symmetric]
        case_prod_unfold Let_def make_transfer_with_event_sent unwrap_or_default_apply not_less [symmetric])
  moreover have "unat (FreeBalance w2 i a) = unat (FreeBalance w i a) + unat (bonus_of (pallet w) ?users c a)"
    if "a \<in> set (ls (pallet w))" for a
  proof -
    have "a \<noteq> pool" "a \<noteq> team" using that accounts by auto
    then show ?thesis using w2(4) [of a] moved(3) [of a team] that by simp
  qed
  moreover have "unat (FreeBalance w2 i team) = unat (FreeBalance w i team) + unat ?teams"
    using w2(4) [OF accounts(4)] accounts(3) moved(1) accounts(4) by simp
  ultimately show ?thesis using w2(2) by simp
qed

section \<open>Properties\<close>

text \<open>C6: the pallet counts the shares exactly. While it hears of every movement, a transfer, mint or
  burn of the share asset keeps its table equal to the free balances outside the collection
  account and the circulation equal to the sum of the table, and never trips the emergency stop.\<close>

theorem share_tracking_exact:
  assumes "supply_ok w" and "shares_tracked w" and "\<not> SavingPaused (pallet w)" and "i = ShareAssetId (pallet w)" and "i \<noteq> 0"
    and "ca \<in> {CallTransfer i to b, CallMint i to b, CallBurn i to b}"
    and "dispatch_assets (saving_hooks lp) og ca w = Ok () w'"
  shows "shares_tracked w' \<and> \<not> SavingPaused (pallet w')"
  using assms(3,6,7) transfer_tracked [OF assms(1,2,4,5,3)] mint_tracked [OF assms(1,2,4)] burn_tracked [OF assms(1,2,4,3)]
  by auto

theorem share_tracking_exact_witness:
  "\<exists>w'. dispatch_assets (saving_hooks (\<lambda>_. [])) Root (CallMint 2 1 500) demo_savers = Ok () w' \<and>
     account_shares (pallet w') 1 = 500 \<and> shares_tracked w'"
proof -
  obtain w' where w': "dispatch_assets (saving_hooks (\<lambda>_. [])) Root (CallMint 2 1 500) demo_savers = Ok () w'"
    "account_shares (pallet w') 1 = 500"
    by (simp add: staking_eval)
  have tr: "shares_tracked demo_savers" by (simp add: shares_tracked_def account_shares_def)
  have "shares_tracked w' \<and> \<not> SavingPaused (pallet w')"
    by (rule share_tracking_exact [OF supply_ok_demo tr _ _ _ _ w'(1), of 2 1 500]) simp_all
  with w' show ?thesis by blast
qed

text \<open>C39: a redemption is not counted. As long as the asset of the reserve is not the share asset,
  whatever a redemption does, the table of shares and the circulation stay as they were, so that shares that were taken back and destroyed keep earning
  the bonus of their former owner.\<close>

theorem redeem_leaves_shares_counted:
  assumes "ReservedMintAssetId (pallet w) \<noteq> ShareAssetId (pallet w)"
    and "final (redeem (saving_hooks lp) og i b w) = Some w'"
  shows "AccountShares (pallet w') = AccountShares (pallet w) \<and> SharesCirculation (pallet w') = SharesCirculation (pallet w)"
proof -
  have "redeem (saving_hooks lp) og i b = redeem saving_mint_hooks og i b"
    using dispatch_saving_hooks [of "\<lambda>_. []" "\<lambda>_. []" lp og "ScRedeem i b"] by simp
  with effectsD [OF redeem_unseen(1), of og i b w w' "ShareAssetId (pallet w)" "CollectionAccountId (pallet w)"] assms
  show ?thesis by (simp add: same_shares_def)
qed

lemmas redeem_eval = redeem_def saving_not_paused_def redeem_checked_def redeem_for_def burn_reserved_def check_can_redeem_def
  make_redeem_def deduct_returned_def redeem_required_balances_in_ratio_def locked_of_def phase_info_def iou_asset_phase_id_def
  account_future_releases_def pack_total_balance_def package_total_balance_def aggregate_phase_unreleased_def collect_pack_def
  pack_terms_left_def push_aggregated_def burn_def burn_free_apply saving_on_asset_burn_def on_err_apply

theorem redeem_leaves_shares_counted_witness:
  "\<exists>w1 w'. staking (\<lambda>_. []) (saving_hooks (\<lambda>_. [])) (Signed 1) 10 300 demo_savers = Ok () w1 \<and>
     redeem (saving_hooks (\<lambda>_. [])) (Signed 1) 3 300 w1 = Ok () w' \<and> FreeBalance w1 2 1 = 15000 \<and> FreeBalance w' 2 1 = 0 \<and>
     FreeBalance w' 10 1 = 5000 \<and> AccountShares (pallet w') 1 = Some 15000"
proof -
  obtain w1 w' where run: "staking (\<lambda>_. []) (saving_hooks (\<lambda>_. [])) (Signed 1) 10 300 demo_savers = Ok () w1"
    "redeem (saving_hooks (\<lambda>_. [])) (Signed 1) 3 300 w1 = Ok () w'"
    "FreeBalance w1 2 1 = 15000" "FreeBalance w' 2 1 = 0" "FreeBalance w' 10 1 = 5000"
    and w1: "AccountShares (pallet w1) 1 = Some 15000" "ReservedMintAssetId (pallet w1) \<noteq> ShareAssetId (pallet w1)"
    by (simp add: demo_staking_call redeem_eval)
  have "final (redeem (saving_hooks (\<lambda>_. [])) (Signed 1) 3 300 w1) = Some w'" using run(2) by simp
  from redeem_leaves_shares_counted [OF w1(2) this] w1(1) have "AccountShares (pallet w') 1 = Some 15000" by simp
  with run show ?thesis by blast
qed

text \<open>C24: the bonus is shared out exactly. When the counted shares do not exceed the circulation and the
  products fit the balance type, and the profit pool and the team are two accounts that hold no
  counted shares themselves, the release of the bonus pays the team its fifth of the profit
  pool and every holder the share of the remaining four fifths in proportion to the shares,
  rounded down, and keeps issuance equal to the holdings.\<close>

theorem bonus_paid_exactly:
  assumes "supply_ok w" and "i = ProfitAssetId (pallet w)" and "pool = SavingProfitPool (pallet w)"
    and "team = TeamAccountId (pallet w)" and "c = SharesCirculation (pallet w)" and "c \<noteq> 0"
    and "Symbols w i \<noteq> None" and "Restrictions w i Transferable = None"
    and "distinct (ls (pallet w))" and "pool \<notin> set (ls (pallet w))" and "team \<notin> set (ls (pallet w))" and "team \<noteq> pool"
    and "sum_list (map (\<lambda>a. unat (account_shares (pallet w) a)) (ls (pallet w))) \<le> unat c"
    and "t = FreeBalance w i pool" and "unat t * 8 < 2 ^ 128"
    and "\<forall>a\<in>set (ls (pallet w)). unat (account_shares (pallet w) a) * (unat t * 8 div 10) < 2 ^ 128"
  shows "\<exists>w'. dispatch_bonus ls w = Ok () w' \<and> supply_ok w' \<and>
    (\<forall>a\<in>set (ls (pallet w)). unat (FreeBalance w' i a)
       = unat (FreeBalance w i a) + unat (account_shares (pallet w) a) * (unat t * 8 div 10) div unat c) \<and>
    unat (FreeBalance w' i team) = unat (FreeBalance w i team) + (unat t - unat t * 8 div 10)"
proof -
  note sp = split_profit_facts [OF assms(15)]
  have fits: "unat (account_shares (pallet w) a) * unat (fst (split_profit t)) < 2 ^ 128" if "a \<in> set (ls (pallet w))" for a
    using assms(16) that by (simp add: sp(2))
  have bonus: "unat (bonus_of (pallet w) (fst (split_profit t)) c a)
      = unat (account_shares (pallet w) a) * (unat t * 8 div 10) div unat c" if "a \<in> set (ls (pallet w))" for a
    using unat_times [of "account_shares (pallet w) a" "fst (split_profit t)"] fits [OF that]
    by (simp add: bonus_of_def unat_div sp(2))
  have teams: "unat (snd (split_profit t)) = unat t - unat t * 8 div 10"
    using sp(2,3) by (simp add: split_profit_def Let_def unat_minus)
  show ?thesis
    using bonus_run [where ls = ls and w = w, OF assms(1-15) fits] bonus teams by auto
qed

theorem bonus_paid_exactly_witness:
  "\<exists>w'. dispatch_bonus (\<lambda>_. [2, 3]) (moved (demo_world [(8, 1000)] (demo_saving\<lparr>AccountShares := [2 \<mapsto> 30, 3 \<mapsto> 70], SharesCirculation := 100\<rparr>)) 8 1 51 1000)
      = Ok () w' \<and> unat (FreeBalance w' 8 2) = 240 \<and> unat (FreeBalance w' 8 3) = 560 \<and> unat (FreeBalance w' 8 52) = 200"
proof -
  let ?p = "demo_saving\<lparr>AccountShares := [2 \<mapsto> 30, 3 \<mapsto> 70], SharesCirculation := 100\<rparr>"
  define w where "w = moved (demo_world [(8, 1000)] ?p) 8 1 51 1000"
  have ok: "supply_ok w" unfolding w_def by (rule supply_ok_moved [OF supply_ok_demo]) simp
  have p: "pallet w = ?p" by (simp add: w_def)
  have bal: "FreeBalance w 8 51 = 1000" "FreeBalance w 8 2 = 0" "FreeBalance w 8 3 = 0" "FreeBalance w 8 52 = 0"
    by (simp_all add: w_def moved_def)
  have asset: "Symbols w 8 \<noteq> None" "Restrictions w 8 Transferable = None" by (simp_all add: w_def)
  have "\<exists>w'. dispatch_bonus (\<lambda>_. [2, 3]) w = Ok () w' \<and> supply_ok w' \<and>
    (\<forall>a\<in>set [2, 3]. unat (FreeBalance w' 8 a)
       = unat (FreeBalance w 8 a) + unat (account_shares (pallet w) a) * (unat (1000 :: balance) * 8 div 10) div unat (100 :: balance)) \<and>
    unat (FreeBalance w' 8 52) = unat (FreeBalance w 8 52) + (unat (1000 :: balance) - unat (1000 :: balance) * 8 div 10)"
    by (rule bonus_paid_exactly [OF ok, where pool = 51 and ls = "\<lambda>_. [2, 3]"]) (use asset in \<open>simp_all add: p bal\<close>)
  then show ?thesis
    unfolding w_def [symmetric] by (elim ex_forward) (simp add: bal p)
qed

end
