(* ===== verification/Saving_Exact.thy ===== *)
theory Saving_Exact
  imports Saving_Shares
begin

text \<open>
  What a staking and a redemption of the saving pallet move, to the last unit: the runs of the
  two calls are followed through the storage of both pallets.
\<close>

section \<open>Mints and burns the pallet counts\<close>

text \<open>A mint and a burn the saving pallet does not count, and a mint of shares it counts.\<close>

lemma mint_uncounted:
  assumes "supply_ok w" and "Symbols w i \<noteq> None" and "check_permission w i (RootKey w) Mint"
    and "unat (TotalIssuance w i) + unat x < 2 ^ 128"
    and "i \<noteq> ShareAssetId (pallet w) \<or> to = CollectionAccountId (pallet w)"
  shows "mint saving_mint_hooks Root i to x w = Ok () (minted w i to x)"
  using assms(2-5) mint_room [OF assms(1,4), of to]
  by (auto simp: mint_def mint_free_apply checked_add_def deposit_event_apply unwrap_or_default_apply saving_on_asset_mint_def minted_def)

lemma burn_uncounted:
  assumes "supply_ok w" and "Symbols w i \<noteq> None" and "check_permission w i (RootKey w) Burn" and "x \<le> FreeBalance w i who"
    and "i \<noteq> ShareAssetId (pallet w) \<or> who = CollectionAccountId (pallet w)"
  shows "burn saving_mint_hooks Root i who x w = Ok () (burnt w i who x)"
proof -
  have "x \<le> TotalIssuance w i" using assms(4) free_le_issuance [OF assms(1), of i who] by simp
  with assms(2-5) show ?thesis
    by (cases "SavingPaused (pallet w)")
      (auto simp: burn_def burn_free_apply deposit_event_apply unwrap_or_default_apply saving_on_asset_burn_def burnt_def not_less [symmetric])
qed

definition counted :: "'z saving_store_scheme world \<Rightarrow> account_id \<Rightarrow> balance \<Rightarrow> 'z saving_store_scheme world" where
  "counted w to x = w\<lparr>pallet := (pallet w)\<lparr>AccountShares := (AccountShares (pallet w))(to \<mapsto> account_shares (pallet w) to + x),
     SharesCirculation := SharesCirculation (pallet w) + x\<rparr>\<rparr>"

lemma mint_counted:
  assumes ok: "supply_ok w" and i: "i = ShareAssetId (pallet w)" and to: "to \<noteq> CollectionAccountId (pallet w)"
    and asset: "Symbols w i \<noteq> None" "check_permission w i (RootKey w) Mint" "unat (TotalIssuance w i) + unat x < 2 ^ 128"
    and count: "unat (account_shares (pallet w) to) + unat x < 2 ^ 128" "unat (SharesCirculation (pallet w)) + unat x < 2 ^ 128"
  shows "mint saving_mint_hooks Root i to x w = Ok () (counted (minted w i to x) to x)" (is "?run = Ok () ?w'")
    and "shares_tracked w \<Longrightarrow> shares_tracked (counted (minted w i to x) to x)"
proof -
  note b = mint_room [OF ok asset(3), of to]
  show run: "?run = Ok () ?w'"
    using asset b to count
    by (simp add: mint_def mint_free_apply checked_add_def deposit_event_apply unwrap_or_default_apply saving_on_asset_mint_def
        i [symmetric] add_shares_run mutate_circulation_run counted_def minted_def)
  have "mint (saving_hooks (\<lambda>_. [])) Root i to x w = Ok () ?w'" using run by (simp add: own_hooks)
  then show "shares_tracked ?w'" if "shares_tracked w" using mint_tracked [OF ok that i] by blast
qed

lemma shares_tracked_cong:
  assumes "shares_tracked w" and "AccountShares (pallet w') = AccountShares (pallet w)"
    and "SharesCirculation (pallet w') = SharesCirculation (pallet w)" and "ShareAssetId (pallet w') = ShareAssetId (pallet w)"
    and "CollectionAccountId (pallet w') = CollectionAccountId (pallet w)"
    and "FreeBalance w' (ShareAssetId (pallet w)) = FreeBalance w (ShareAssetId (pallet w))"
  shows "shares_tracked w'"
  using assms by (simp add: shares_tracked_def account_shares_def)

section \<open>Staking\<close>

lemma register_run:
  assumes pk: "\<not> pack_empty pk" "pack_owner pk = who" "pack_phase_id pk = ph" "pack_asset_id pk = i"
      "terms_total (pack_major pk) \<noteq> 0" "pack_terms_left pk \<noteq> 0"
    and pks: "pks = account_future_releases (pallet w) who" "packs_live ph i pks"
    and fits: "unat (phase_total ph i pks + pack_total_balance pk) + 2 ^ 32 \<le> 2 ^ 128"
  shows "\<exists>qs. register_share_pack pk w
      = Ok () (w\<lparr>pallet := (pallet w)\<lparr>ShareUnreleasedList := (ShareUnreleasedList (pallet w))(who \<mapsto> qs)\<rparr>\<rparr>) \<and>
    phase_total ph i qs = phase_total ph i pks + pack_total_balance pk"
proof (cases "ShareUnreleasedList (pallet w) who")
  case None
  then show ?thesis
    using pk pks by (intro exI [of _ "[pk]"]) (simp add: register_share_pack_def account_future_releases_def phase_total_def of_phase_def)
next
  case (Some v)
  then have v: "pks = v" by (simp add: pks account_future_releases_def)
  let ?s = "w\<lparr>pallet := (pallet w)\<lparr>ShareUnreleasedList := (ShareUnreleasedList (pallet w))(who := None)\<rparr>\<rparr>"
  have one: "phase_total ph i [pk] = pack_total_balance pk" using pk by (simp add: phase_total_def of_phase_def)
  have "packs_live ph i (v @ [pk])" using pks(2) pk by (auto simp: packs_live_def v)
  moreover have "\<exists>q\<in>set (v @ [pk]). of_phase ph i q" using pk by (auto simp: of_phase_def)
  moreover have "unat (changed_total None (phase_total ph i (v @ [pk]))) + 2 ^ 32 \<le> 2 ^ 128"
    using fits one by (simp add: changed_total_def v)
  ultimately obtain qs where "aggregate_phase_unreleased (v @ [pk]) ph i who None ?s = Ok qs ?s"
    "phase_total ph i qs = changed_total None (phase_total ph i (v @ [pk]))"
    using aggregate_run [where change = None and s = ?s and who = who] by blast
  then show ?thesis
    using pk Some one by (intro exI [of _ qs]) (simp add: register_share_pack_def expect_apply changed_total_def v)
qed

lemma register_rest:
  assumes "pack_owner pk = who" and "pack_phase_id pk = ph" and "pack_asset_id pk = sa" and "terms_total (pack_major pk) \<noteq> 0"
    and "pack_empty pk \<or> pack_terms_left pk \<noteq> 0"
    and "pks = account_future_releases (pallet w) who" and "packs_live ph sa pks"
    and "unat (phase_total ph sa pks + pack_total_balance pk) + 2 ^ 32 \<le> 2 ^ 128"
  shows "\<exists>U. register_share_pack pk w = Ok () (w\<lparr>pallet := (pallet w)\<lparr>ShareUnreleasedList := U\<rparr>\<rparr>) \<and>
    phase_total ph sa (case U who of Some v \<Rightarrow> v | None \<Rightarrow> []) = phase_total ph sa pks + pack_total_balance pk"
proof (cases "pack_empty pk")
  case True
  with assms(6) show ?thesis
    by (intro exI [of _ "ShareUnreleasedList (pallet w)"])
      (simp add: register_share_pack_def account_future_releases_def pack_total_balance_def)
next
  case False
  with assms(5) have left: "pack_terms_left pk \<noteq> 0" by simp
  from register_run [OF False assms(1-4) left assms(6-8)] show ?thesis by auto
qed

lemma issue_saving_run:
  fixes w :: "'z saving_store_scheme world"
  assumes ok: "supply_ok w" and sa: "sa = ShareAssetId (pallet w)" "j \<noteq> sa"
    and count: "unat (account_shares (pallet w) who) + unat x < 2 ^ 128" "unat (SharesCirculation (pallet w)) + unat x < 2 ^ 128"
    and who: "who \<noteq> CollectionAccountId (pallet w)" and ph: "phase_iou_asset_id pinfo = Some j" "phase_info_id pinfo = ph"
    and amount: "amount \<noteq> 0" "unat amount * unat (phase_exchange pinfo) < 2 ^ 128" "b = amount * phase_exchange pinfo"
    and t: "t = NumOfPhasesLeft (pallet w)" "t \<noteq> 0" "unat b + unat t \<le> 2 ^ 128" "x = portion_word b t"
    and assets: "Symbols w j \<noteq> None" "check_permission w j (RootKey w) Mint" "unat (TotalIssuance w j) + unat amount < 2 ^ 128"
      "Symbols w sa \<noteq> None" "check_permission w sa (RootKey w) Mint" "unat (TotalIssuance w sa) + unat x < 2 ^ 128"
    and packs: "pks = account_future_releases (pallet w) who" "packs_live ph sa pks"
      "unat (phase_total ph sa pks + (b - x)) + 2 ^ 32 \<le> 2 ^ 128"
  shows "\<exists>w'. issue_saving saving_mint_hooks who sa pinfo amount w = Ok () w' \<and> supply_ok w' \<and> (shares_tracked w \<longrightarrow> shares_tracked w') \<and>
    account_shares (pallet w') who = account_shares (pallet w) who + x \<and> SharesCirculation (pallet w') = SharesCirculation (pallet w) + x \<and>
    Symbols w' = Symbols w \<and> Permissions w' = Permissions w \<and> Restrictions w' = Restrictions w \<and> RootKey w' = RootKey w \<and>
    TotalIssuance w' = (TotalIssuance w)(j := TotalIssuance w j + amount, sa := TotalIssuance w sa + x) \<and>
    FreeBalance w' = (FreeBalance w)(j := (FreeBalance w j)(who := FreeBalance w j who + amount),
      sa := (FreeBalance w sa)(who := FreeBalance w sa who + x)) \<and>
    phase_total ph sa (account_future_releases (pallet w') who) = phase_total ph sa pks + (b - x) \<and>
    (\<exists>A C U E. pallet w' = (pallet w)\<lparr>AccountShares := A, SharesCirculation := C, ShareUnreleasedList := U, SavingEvents := E\<rparr>)"
proof -
  define w1 where "w1 = minted w j who amount"
  define w2 where "w2 = counted (minted w1 sa who x) who x"
  note m1 = mint_uncounted [OF ok assets(1-3), of who, folded w1_def]
  have ok1: "supply_ok w1" using supply_ok_minted [OF ok assets(1,3)] by (simp add: w1_def)
  have tr1: "shares_tracked w1" if "shares_tracked w" by (rule shares_tracked_cong [OF that]) (use sa in \<open>simp_all add: w1_def\<close>)
  have p1: "pallet w1 = pallet w" by (simp add: w1_def)
  have a1: "sa = ShareAssetId (pallet w1)" "who \<noteq> CollectionAccountId (pallet w1)" "Symbols w1 sa \<noteq> None"
    "check_permission w1 sa (RootKey w1) Mint" "unat (TotalIssuance w1 sa) + unat x < 2 ^ 128"
    using sa who assets by (simp_all add: w1_def)
  note m2 = mint_counted [OF ok1 a1 count [folded p1], folded w2_def]
  have ok2: "supply_ok w2" using supply_ok_minted [OF ok1 a1(3,5), of who] by (simp add: w2_def counted_def)
  obtain pk pk' where create: "create_share_release_pack who sa ph b t w = Ok pk w" and rel: "release pk = (Some x, pk')"
    and pk': "pack_total_balance pk' = b - x" "pack_asset_id pk' = sa" "pack_phase_id pk' = ph" "pack_owner pk' = who"
      "pack_empty pk' \<longleftrightarrow> t = 1" "terms_total (pack_major pk') \<noteq> 0" "t \<noteq> 1 \<longrightarrow> pack_terms_left pk' \<noteq> 0"
    using first_release [OF t(2,3), of who sa ph w] t(4) by auto
  have pks2: "pks = account_future_releases (pallet w2) who" by (simp add: packs(1) w2_def counted_def w1_def account_future_releases_def)
  have fits: "unat (phase_total ph sa pks + pack_total_balance pk') + 2 ^ 32 \<le> 2 ^ 128" using packs(3) by (simp add: pk'(1))
  have "\<exists>U. register_share_pack pk' w2 = Ok () (w2\<lparr>pallet := (pallet w2)\<lparr>ShareUnreleasedList := U\<rparr>\<rparr>) \<and>
      phase_total ph sa (case U who of Some v \<Rightarrow> v | None \<Rightarrow> []) = phase_total ph sa pks + pack_total_balance pk'"
    by (rule register_rest [OF pk'(4,3,2,6) _ pks2 packs(2) fits]) (use pk'(5,7) in blast)
  then obtain U where reg: "register_share_pack pk' w2 = Ok () (w2\<lparr>pallet := (pallet w2)\<lparr>ShareUnreleasedList := U\<rparr>\<rparr>)"
    "phase_total ph sa (case U who of Some v \<Rightarrow> v | None \<Rightarrow> []) = phase_total ph sa pks + (b - x)" unfolding pk'(1) by blast
  define w' where "w' = w2\<lparr>pallet := (pallet w2)\<lparr>ShareUnreleasedList := U, SavingEvents := SavingEvents (pallet w2) @ [StakingCreated who x j amount]\<rparr>\<rparr>"
  have "issue_saving saving_mint_hooks who sa pinfo amount w = Ok () w'"
    using sa(2) sa(1) m1 m2(1) create rel amount t(1,2) reg(1)
    by (simp add: issue_saving_def create_iou_def ph create_release_pack_for_saving_def checked_mul_def mint_assets_def
        pk'(2,4) register_iou_def w'_def)
  moreover have "shares_tracked w'" if "shares_tracked w"
    by (rule shares_tracked_cong [OF m2(2) [OF tr1 [OF that]]]) (simp_all add: w'_def)
  ultimately show ?thesis
    using ok2 reg(2) sa(2)
    by (intro exI [of _ w'])
      (auto simp: w'_def w2_def counted_def w1_def account_future_releases_def account_shares_def fun_upd_twist)
qed

text \<open>A staking that does not fill the phase, and the call.\<close>

lemma stake_within_phase:
  assumes "PhaseInfos (pallet w) (CurrentPhaseId (pallet w)) = Some pinfo" and "amount \<noteq> 0"
    and "unat (QuotaUsed (pallet w)) + unat amount < unat (phase_quota pinfo)"
    and "issue_saving hk who (ShareAssetId (pallet w)) pinfo amount
      (w\<lparr>pallet := (pallet w)\<lparr>QuotaUsed := QuotaUsed (pallet w) + amount\<rparr>\<rparr>) = Ok () w'"
  shows "create_staking lp hk who amount w = Ok amount w'"
proof -
  have "unat (QuotaUsed (pallet w)) + unat amount < 2 ^ 128" using assms(3) unat_u128_less [of "phase_quota pinfo"] by linarith
  then have "checked_add (QuotaUsed (pallet w)) amount = Some (QuotaUsed (pallet w) + amount)"
    and "QuotaUsed (pallet w) + amount < phase_quota pinfo"
    using assms(3) by (simp_all add: checked_add_def word_less_nat_alt unat_plus)
  then have "use_quota pinfo amount w = Ok (False, 0, amount) (w\<lparr>pallet := (pallet w)\<lparr>QuotaUsed := QuotaUsed (pallet w) + amount\<rparr>\<rparr>)"
    by (auto simp: use_quota_def)
  then show ?thesis using assms(1,2,4) by (intro create_staking_once) (simp add: stake_in_phase_def)
qed

lemma pay_and_reserve:
  assumes ok: "supply_ok w" and pay: "amount \<le> FreeBalance w i who" "Symbols w i \<noteq> None" "Restrictions w i Transferable = None" "who \<noteq> cc"
    and r: "r \<noteq> i" "Symbols w r \<noteq> None" "check_permission w r (RootKey w) Mint" "unat (TotalIssuance w r) + unat y < 2 ^ 128"
      "r \<noteq> ShareAssetId (pallet w) \<or> wallet = CollectionAccountId (pallet w)"
    and w': "w' = minted (sent w i who cc amount) r wallet y"
  shows "make_transfer_with_event i who cc amount w = Ok () (sent w i who cc amount)"
    and "mint saving_mint_hooks Root r wallet y (sent w i who cc amount) = Ok () w'" and "supply_ok w'"
    and "unat (FreeBalance w' i who) + unat amount = unat (FreeBalance w i who)"
    and "unat (FreeBalance w' i cc) = unat (FreeBalance w i cc) + unat amount"
    and "unat (FreeBalance w' r wallet) = unat (FreeBalance w r wallet) + unat y"
proof -
  note t = transfer_run [OF ok pay(1-3), of cc]
  have as: "Symbols (sent w i who cc amount) r \<noteq> None" "check_permission (sent w i who cc amount) r (RootKey (sent w i who cc amount)) Mint"
    "unat (TotalIssuance (sent w i who cc amount) r) + unat y < 2 ^ 128"
    "r \<noteq> ShareAssetId (pallet (sent w i who cc amount)) \<or> wallet = CollectionAccountId (pallet (sent w i who cc amount))"
    using r by (simp_all add: check_permission_def)
  show "make_transfer_with_event i who cc amount w = Ok () (sent w i who cc amount)" by (rule t)
  show "mint saving_mint_hooks Root r wallet y (sent w i who cc amount) = Ok () w'" unfolding w' by (rule mint_uncounted [OF t(2) as])
  show "supply_ok w'" unfolding w' by (rule supply_ok_minted [OF t(2) as(1,3)])
  show "unat (FreeBalance w' i who) + unat amount = unat (FreeBalance w i who)"
    "unat (FreeBalance w' i cc) = unat (FreeBalance w i cc) + unat amount"
    using free_moved(1,2) [OF ok pay(1,4)] pay(1) r(1) by (simp_all add: w' word_le_nat_alt)
  show "unat (FreeBalance w' r wallet) = unat (FreeBalance w r wallet) + unat y"
    using r(1) mint_room [OF ok r(4), of wallet] by (simp add: w' unat_plus)
qed

lemma staking_run:
  fixes w :: "'z saving_store_scheme world"
  assumes ok: "supply_ok w" and live: "\<not> SavingPaused (pallet w)"
    and conf: "i = CollectionAssetId (pallet w)" "cc = CollectionAccountId (pallet w)" "sa = ShareAssetId (pallet w)"
      "r = ReservedMintAssetId (pallet w)" "wallet = ReservedMintWallet (pallet w)" "distinct [i, j, sa, r]" "who \<noteq> cc"
    and phase: "PhaseInfos (pallet w) (CurrentPhaseId (pallet w)) = Some pinfo" "phase_iou_asset_id pinfo = Some j" "phase_info_id pinfo = ph"
    and amount: "amount \<noteq> 0" "unat (QuotaUsed (pallet w)) + unat amount < unat (phase_quota pinfo)"
      "unat amount * unat (phase_exchange pinfo) < 2 ^ 128" "b = amount * phase_exchange pinfo"
    and t: "t = NumOfPhasesLeft (pallet w)" "t \<noteq> 0" "unat b + unat t \<le> 2 ^ 128" "x = portion_word b t"
    and y: "y = sbtc_to_reserved_mint (CurrentPrice (pallet w)) amount"
    and funds: "amount \<le> FreeBalance w i who" "Symbols w i \<noteq> None" "Restrictions w i Transferable = None"
    and assets: "\<And>a. a \<in> {j, sa, r} \<Longrightarrow> Symbols w a \<noteq> None \<and> check_permission w a (RootKey w) Mint"
    and room: "unat (TotalIssuance w j) + unat amount < 2 ^ 128" "unat (TotalIssuance w sa) + unat x < 2 ^ 128"
      "unat (TotalIssuance w r) + unat y < 2 ^ 128"
    and count: "unat (account_shares (pallet w) who) + unat x < 2 ^ 128" "unat (SharesCirculation (pallet w)) + unat x < 2 ^ 128"
    and packs: "pks = account_future_releases (pallet w) who" "packs_live ph sa pks"
      "unat (phase_total ph sa pks + (b - x)) + 2 ^ 32 \<le> 2 ^ 128"
  shows "\<exists>w'. staking lp (saving_hooks lp) (Signed who) i amount w = Ok () w' \<and> supply_ok w' \<and> (shares_tracked w \<longrightarrow> shares_tracked w') \<and>
    unat (account_shares (pallet w') who) = unat (account_shares (pallet w) who) + unat x \<and>
    unat (SharesCirculation (pallet w')) = unat (SharesCirculation (pallet w)) + unat x \<and>
    unat (FreeBalance w' i who) + unat amount = unat (FreeBalance w i who) \<and>
    unat (FreeBalance w' i cc) = unat (FreeBalance w i cc) + unat amount \<and>
    unat (FreeBalance w' j who) = unat (FreeBalance w j who) + unat amount \<and>
    unat (FreeBalance w' sa who) = unat (FreeBalance w sa who) + unat x \<and>
    unat (FreeBalance w' r wallet) = unat (FreeBalance w r wallet) + unat y \<and>
    phase_total ph sa (account_future_releases (pallet w') who) = phase_total ph sa pks + (b - x) \<and>
    QuotaUsed (pallet w') = QuotaUsed (pallet w) + amount"
proof -
  define w0 where "w0 = w\<lparr>pallet := (pallet w)\<lparr>QuotaUsed := QuotaUsed (pallet w) + amount\<rparr>\<rparr>"
  have ok0: "supply_ok w0" using ok by (simp add: w0_def)
  have tr0: "shares_tracked w0" if "shares_tracked w" by (rule shares_tracked_cong [OF that]) (simp_all add: w0_def)
  have count0: "unat (account_shares (pallet w0) who) + unat x < 2 ^ 128" "unat (SharesCirculation (pallet w0)) + unat x < 2 ^ 128"
    using count by (simp_all add: w0_def account_shares_def)
  have pre: "sa = ShareAssetId (pallet w0)" "who \<noteq> CollectionAccountId (pallet w0)" "t = NumOfPhasesLeft (pallet w0)"
    "pks = account_future_releases (pallet w0) who" using conf t(1) packs(1) by (simp_all add: w0_def account_future_releases_def)
  have as: "Symbols w0 j \<noteq> None" "check_permission w0 j (RootKey w0) Mint" "unat (TotalIssuance w0 j) + unat amount < 2 ^ 128"
    "Symbols w0 sa \<noteq> None" "check_permission w0 sa (RootKey w0) Mint" "unat (TotalIssuance w0 sa) + unat x < 2 ^ 128"
    using assets [of j] assets [of sa] room by (simp_all add: w0_def)
  have ne: "j \<noteq> i" "sa \<noteq> i" "r \<noteq> i" "j \<noteq> r" "sa \<noteq> r" "r \<noteq> j" "r \<noteq> sa" and jsa: "j \<noteq> sa" using conf(6) by auto
  obtain w1 A C U E where issue: "issue_saving saving_mint_hooks who sa pinfo amount w0 = Ok () w1" "supply_ok w1" "shares_tracked w0 \<longrightarrow> shares_tracked w1"
    "Symbols w1 = Symbols w" "Permissions w1 = Permissions w" "Restrictions w1 = Restrictions w" "RootKey w1 = RootKey w"
    "TotalIssuance w1 = (TotalIssuance w)(j := TotalIssuance w j + amount, sa := TotalIssuance w sa + x)"
    "FreeBalance w1 = (FreeBalance w)(j := (FreeBalance w j)(who := FreeBalance w j who + amount),
      sa := (FreeBalance w sa)(who := FreeBalance w sa who + x))"
    "phase_total ph sa (account_future_releases (pallet w1) who) = phase_total ph sa pks + (b - x)"
    "account_shares (pallet w1) who = account_shares (pallet w0) who + x" "SharesCirculation (pallet w1) = SharesCirculation (pallet w0) + x"
    and p1: "pallet w1 = (pallet w0)\<lparr>AccountShares := A, SharesCirculation := C, ShareUnreleasedList := U, SavingEvents := E\<rparr>"
    using issue_saving_run [OF ok0 pre(1) jsa count0 pre(2) phase(2,3) amount(1,3,4) pre(3) t(2-4) as pre(4) packs(2,3)]
    by (auto simp: w0_def)
  have stake: "create_staking lp saving_mint_hooks who amount w = Ok amount w1"
    using stake_within_phase [OF phase(1) amount(1,2)] issue(1) conf(3) by (simp add: w0_def)
  define w' where "w' = minted (sent w1 i who cc amount) r wallet y"
  have pay: "amount \<le> FreeBalance w1 i who" "Symbols w1 i \<noteq> None" "Restrictions w1 i Transferable = None"
    using funds ne by (simp_all add: issue)
  have res: "Symbols w1 r \<noteq> None" "check_permission w1 r (RootKey w1) Mint" "unat (TotalIssuance w1 r) + unat y < 2 ^ 128"
    "r \<noteq> ShareAssetId (pallet w1) \<or> wallet = CollectionAccountId (pallet w1)"
    using assets [of r] room(3) ne conf(3) by (auto simp: issue p1 w0_def check_permission_def)
  note paid = pay_and_reserve [OF issue(2) pay conf(7) ne(3) res w'_def]
  have tr': "shares_tracked w'" if "shares_tracked w"
    by (rule shares_tracked_cong [OF issue(3) [THEN mp, OF tr0 [OF that]]]) (use conf in \<open>auto simp: w'_def p1 w0_def\<close>)
  have shares: "unat (account_shares (pallet w') who) = unat (account_shares (pallet w) who) + unat x"
    "unat (SharesCirculation (pallet w')) = unat (SharesCirculation (pallet w)) + unat x"
    using issue(11,12) count by (simp_all add: w'_def w0_def account_shares_def unat_plus)
  have "staking lp (saving_hooks lp) (Signed who) i amount w = Ok () w'"
    using live funds stake paid(1,2) conf
    by (simp add: staking_def saving_not_paused_def stake_for_def getter_defs create_staking_hooks create_reserved_def own_hooks
        p1 w0_def y)
  moreover have "unat (FreeBalance w' j who) = unat (FreeBalance w j who) + unat amount"
    "unat (FreeBalance w' sa who) = unat (FreeBalance w sa who) + unat x"
    using ne jsa mint_room [OF ok room(1), of who] mint_room [OF ok room(2), of who]
    by (simp_all add: w'_def issue unat_plus)
  ultimately show ?thesis
    using paid(3-6) tr' shares issue(10) ne by (intro exI [of _ w']) (simp add: issue(9), simp add: w'_def p1 w0_def)
qed

section \<open>Redemption\<close>

text \<open>The packs of a saver in a phase hold the share asset and belong to the saver.\<close>

definition packs_own :: "phase_id \<Rightarrow> asset_id \<Rightarrow> account_id \<Rightarrow> ShareReleasePack list \<Rightarrow> bool" where
  "packs_own ph sa who pks \<longleftrightarrow> (\<forall>pk\<in>set pks. pack_phase_id pk = ph \<longrightarrow> pack_owner pk = who \<and> pack_asset_id pk = sa)"

lemma locked_of_sum: "locked_of f pks = sum_list (map pack_total_balance (filter f pks))"
proof -
  have "fold (\<lambda>pk acc. acc + pack_total_balance pk) xs a = a + sum_list (map pack_total_balance xs)" for xs a
    by (induction xs arbitrary: a) (simp_all add: add.assoc)
  then show ?thesis by (simp add: locked_of_def)
qed

lemma locked_of_phase:
  "locked_of (\<lambda>v. \<not> pack_empty v \<and> pack_asset_id v = sa \<and> pack_phase_id v = ph) pks = phase_total ph sa pks"
  "packs_own ph sa who pks \<Longrightarrow> locked_of (\<lambda>v. pack_phase_id v = ph \<and> pack_owner v = who) pks = phase_total ph sa pks"
proof -
  show "locked_of (\<lambda>v. \<not> pack_empty v \<and> pack_asset_id v = sa \<and> pack_phase_id v = ph) pks = phase_total ph sa pks"
    unfolding locked_of_sum phase_total_def by (induction pks) (auto simp: of_phase_def pack_total_balance_def)
  assume "packs_own ph sa who pks"
  then show "locked_of (\<lambda>v. pack_phase_id v = ph \<and> pack_owner v = who) pks = phase_total ph sa pks"
    unfolding locked_of_sum phase_total_def packs_own_def by (intro arg_cong [of _ _ sum_list] arg_cong [of _ _ "map pack_total_balance"] filter_cong) (auto simp: of_phase_def)
qed

text \<open>The shares a redemption asks for, and the part of them it takes from the locked packs.\<close>

definition shares_due :: "PhaseInfo \<Rightarrow> balance \<Rightarrow> balance" where
  "shares_due pinfo amount = amount * phase_exchange pinfo"

definition locked_due :: "'z saving_store_scheme \<Rightarrow> phase_id \<Rightarrow> balance \<Rightarrow> balance" where
  "locked_due p ph q = q * ucast (NumOfPhasesLeft p - 1) div ucast (NumOfPhases p - ph + 1)"

lemma ratio_run:
  assumes "NumOfPhases p - ph + 1 \<noteq> 0"
  shows "redeem_required_balances_in_ratio ph q (NumOfPhases p) (NumOfPhasesLeft p) s
    = Ok (q - locked_due p ph q, locked_due p ph q) s"
proof -
  have "(ucast (NumOfPhases p - ph + 1) :: u128) \<noteq> 0" using assms by (simp add: word_unat_eq_iff)
  then show ?thesis by (simp add: redeem_required_balances_in_ratio_def locked_due_def)
qed

lemma parts_cover:
  fixes q l f u :: balance
  assumes "l \<le> q" and "q - l \<le> f" and "l \<le> u" and "unat f + unat u < 2 ^ 128"
  shows "q \<le> f + u"
proof -
  have "unat (f + u) = unat f + unat u" by (rule unat_plus) (use assms(4) in simp)
  moreover have "unat q = unat (q - l) + unat l" using unat_minus [OF assms(1)] assms(1) by (simp add: word_le_nat_alt)
  ultimately show ?thesis using assms(2,3) unfolding word_le_nat_alt by linarith
qed

lemma check_can_redeem_run:
  assumes conf: "sa = ShareAssetId (pallet w)" "iou_asset_phase_id (pallet w) i = ph" "phase_info (pallet w) ph = pinfo"
      "ShareAssetCollected (pallet w) who = 0" "NumOfPhases (pallet w) - ph + 1 \<noteq> 0"
    and due: "q = shares_due pinfo amount" "l = locked_due (pallet w) ph q"
    and pks: "pks = account_future_releases (pallet w) who"
    and cover: "l \<le> q" "q - l \<le> FreeBalance w sa who" "l \<le> phase_total ph sa pks"
      "unat (FreeBalance w sa who) + unat (phase_total ph sa pks) < 2 ^ 128"
  shows "check_can_redeem i who amount w = Ok () w"
proof -
  have enough: "q \<le> phase_total ph sa pks + FreeBalance w sa who"
    using parts_cover [OF cover] by (simp only: add.commute)
  show ?thesis
    using leD [OF cover(2)] leD [OF enough] ratio_run [OF conf(5), of q w]
    by (simp add: check_can_redeem_def conf(1) [symmetric] conf(2-4) getter_defs shares_due_def [symmetric] due(1) [symmetric]
        due(2) [symmetric] pks [symmetric] locked_of_phase(1))
qed

lemma burn_whenever:
  assumes "supply_ok w" and "Symbols w i \<noteq> None" and "check_permission w i (RootKey w) Burn" and "x \<le> FreeBalance w i who"
    and "i \<noteq> ShareAssetId (pallet w) \<or> who = CollectionAccountId (pallet w)"
  shows "\<exists>w'. whenever (x \<noteq> 0) (burn saving_mint_hooks Root i who x) w = Ok () w' \<and> supply_ok w' \<and> pallet w' = pallet w \<and>
    Symbols w' = Symbols w \<and> Permissions w' = Permissions w \<and> Restrictions w' = Restrictions w \<and> RootKey w' = RootKey w \<and>
    TotalIssuance w' = (TotalIssuance w)(i := TotalIssuance w i - x) \<and>
    FreeBalance w' = (FreeBalance w)(i := (FreeBalance w i)(who := FreeBalance w i who - x))"
proof (cases "x = 0")
  case False
  then show ?thesis using burn_uncounted [OF assms] supply_ok_burnt [OF assms(1,2,4)] by simp
qed (use assms(1) in simp)

text \<open>Shares paid in for a redemption: sent to the collection account, taken out of the locked packs, burnt.\<close>

lemma redeem_shares_run:
  fixes w :: "'z saving_store_scheme world"
  assumes ok: "supply_ok w" and conf: "cc = CollectionAccountId (pallet w)" "who \<noteq> cc" and live: "packs_live ph sa pks"
    and cover: "f \<le> FreeBalance w sa who" "l \<le> phase_total ph sa pks" "unat (phase_total ph sa pks - l) + 2 ^ 32 \<le> 2 ^ 128"
    and assets: "Symbols w sa \<noteq> None" "Restrictions w sa Transferable = None" "check_permission w sa (RootKey w) Burn"
  shows "\<exists>w2 qs w4. make_transfer_with_event sa who cc f w = Ok () w2 \<and>
    aggregate_phase_unreleased pks ph sa who (Some (NegativeChange l)) w2 = Ok qs w2 \<and>
    whenever (f \<noteq> 0) (burn saving_mint_hooks Root sa cc f)
      (w2\<lparr>pallet := (pallet w2)\<lparr>ShareUnreleasedList := (ShareUnreleasedList (pallet w2))(who \<mapsto> qs)\<rparr>\<rparr>) = Ok () w4 \<and>
    phase_total ph sa qs = phase_total ph sa pks - l \<and> supply_ok w4 \<and>
    pallet w4 = (pallet w)\<lparr>ShareUnreleasedList := (ShareUnreleasedList (pallet w))(who \<mapsto> qs)\<rparr> \<and>
    Symbols w4 = Symbols w \<and> Permissions w4 = Permissions w \<and> Restrictions w4 = Restrictions w \<and> RootKey w4 = RootKey w \<and>
    (\<forall>a. a \<noteq> sa \<longrightarrow> FreeBalance w4 a = FreeBalance w a \<and> TotalIssuance w4 a = TotalIssuance w a) \<and>
    unat (TotalIssuance w4 sa) + unat f = unat (TotalIssuance w sa) \<and>
    unat (FreeBalance w4 sa who) + unat f = unat (FreeBalance w sa who)"
proof -
  define w2 where "w2 = sent w sa who cc f"
  have t: "make_transfer_with_event sa who cc f w = Ok () w2" and ok2: "supply_ok w2"
    unfolding w2_def by (rule transfer_run [OF ok cover(1) assets(1,2)])+
  obtain qs where agg: "aggregate_phase_unreleased pks ph sa who (Some (NegativeChange l)) w2 = Ok qs w2"
    "phase_total ph sa qs = phase_total ph sa pks - l"
    using aggregate_run [OF live, of "Some (NegativeChange l)" who w2] cover(2,3) by (auto simp: changed_total_def)
  define w3 where "w3 = w2\<lparr>pallet := (pallet w2)\<lparr>ShareUnreleasedList := (ShareUnreleasedList (pallet w2))(who \<mapsto> qs)\<rparr>\<rparr>"
  have ok3: "supply_ok w3" using ok2 by (simp add: w3_def)
  note bal = free_moved(1,2) [OF ok cover(1) conf(2)]
  have pre: "Symbols w3 sa \<noteq> None" "check_permission w3 sa (RootKey w3) Burn" "f \<le> FreeBalance w3 sa cc"
    "sa \<noteq> ShareAssetId (pallet w3) \<or> cc = CollectionAccountId (pallet w3)"
    using assets(1,3) bal(1) conf(1) by (simp_all add: w3_def w2_def word_le_nat_alt check_permission_def)
  obtain w4 where b: "whenever (f \<noteq> 0) (burn saving_mint_hooks Root sa cc f) w3 = Ok () w4" "supply_ok w4" "pallet w4 = pallet w3"
    "Symbols w4 = Symbols w3" "Permissions w4 = Permissions w3" "Restrictions w4 = Restrictions w3" "RootKey w4 = RootKey w3"
    "TotalIssuance w4 = (TotalIssuance w3)(sa := TotalIssuance w3 sa - f)"
    "FreeBalance w4 = (FreeBalance w3)(sa := (FreeBalance w3 sa)(cc := FreeBalance w3 sa cc - f))"
    using burn_whenever [OF ok3 pre] by blast
  have "f \<le> TotalIssuance w sa" using cover(1) free_le_issuance [OF ok, of sa who] by (rule order_trans)
  then have "unat (TotalIssuance w4 sa) + unat f = unat (TotalIssuance w sa)"
    by (simp add: b w3_def w2_def unat_minus word_le_nat_alt)
  moreover have "unat (FreeBalance w4 sa who) + unat f = unat (FreeBalance w sa who)"
    using bal(2) conf(2) cover(1) by (simp add: b w3_def w2_def word_le_nat_alt)
  ultimately show ?thesis
    using t agg b(1,2) by (intro exI [of _ w2] exI [of _ qs] exI [of _ w4]) (simp add: b w3_def [symmetric], simp add: w3_def w2_def)
qed

lemma make_redeem_run:
  fixes w :: "'z saving_store_scheme world"
  assumes ok: "supply_ok w"
    and conf: "sa = ShareAssetId (pallet w)" "cc = CollectionAccountId (pallet w)" "iou_asset_phase_id (pallet w) i = ph"
      "phase_info (pallet w) ph = pinfo" "ShareAssetCollected (pallet w) who = 0" "NumOfPhases (pallet w) - ph + 1 \<noteq> 0"
      "sa \<noteq> c" "who \<noteq> cc"
    and due: "q = shares_due pinfo amount" "l = locked_due (pallet w) ph q"
    and pks: "pks = account_future_releases (pallet w) who" "packs_live ph sa pks" "packs_own ph sa who pks"
    and cover: "l \<le> q" "q - l \<le> FreeBalance w sa who" "l \<le> phase_total ph sa pks"
      "unat (FreeBalance w sa who) + unat (phase_total ph sa pks) < 2 ^ 128" "unat (phase_total ph sa pks - l) + 2 ^ 32 \<le> 2 ^ 128"
    and assets: "Symbols w sa \<noteq> None" "Restrictions w sa Transferable = None" "check_permission w sa (RootKey w) Burn"
      "Symbols w c \<noteq> None" "Restrictions w c Transferable = None" "amount \<le> FreeBalance w c cc"
  shows "\<exists>w'. make_redeem saving_mint_hooks i who c cc amount sa w = Ok () w' \<and> supply_ok w' \<and>
    Symbols w' = Symbols w \<and> Permissions w' = Permissions w \<and> Restrictions w' = Restrictions w \<and> RootKey w' = RootKey w \<and>
    (\<forall>a. a \<noteq> sa \<and> a \<noteq> c \<longrightarrow> FreeBalance w' a = FreeBalance w a \<and> TotalIssuance w' a = TotalIssuance w a) \<and>
    unat (TotalIssuance w' sa) + unat (q - l) = unat (TotalIssuance w sa) \<and>
    unat (FreeBalance w' sa who) + unat (q - l) = unat (FreeBalance w sa who) \<and>
    unat (FreeBalance w' c who) = unat (FreeBalance w c who) + unat amount \<and>
    unat (FreeBalance w' c cc) + unat amount = unat (FreeBalance w c cc) \<and>
    phase_total ph sa (account_future_releases (pallet w') who) = phase_total ph sa pks - l \<and>
    ShareAssetId (pallet w') = sa \<and> CollectionAccountId (pallet w') = cc"
proof -
  let ?f = "q - l"
  note enough = parts_cover [OF cover(1-4)]
  define w1 where "w1 = w\<lparr>pallet := (pallet w)\<lparr>ShareAssetCollected := (ShareAssetCollected (pallet w))(who := 0),
    ShareUnreleasedList := (ShareUnreleasedList (pallet w))(who := None)\<rparr>\<rparr>"
  have pre1: "supply_ok w1" "cc = CollectionAccountId (pallet w1)" "?f \<le> FreeBalance w1 sa who" "Symbols w1 sa \<noteq> None"
    "Restrictions w1 sa Transferable = None" "check_permission w1 sa (RootKey w1) Burn"
    using ok conf(2) cover(2) assets(1-3) by (simp_all add: w1_def)
  obtain w2 qs w4 where sh: "make_transfer_with_event sa who cc ?f w1 = Ok () w2"
    "aggregate_phase_unreleased pks ph sa who (Some (NegativeChange l)) w2 = Ok qs w2"
    "whenever (?f \<noteq> 0) (burn saving_mint_hooks Root sa cc ?f)
      (w2\<lparr>pallet := (pallet w2)\<lparr>ShareUnreleasedList := (ShareUnreleasedList (pallet w2))(who \<mapsto> qs)\<rparr>\<rparr>) = Ok () w4"
    and qs: "phase_total ph sa qs = phase_total ph sa pks - l" and ok4: "supply_ok w4"
    and p4: "pallet w4 = (pallet w1)\<lparr>ShareUnreleasedList := (ShareUnreleasedList (pallet w1))(who \<mapsto> qs)\<rparr>"
    and same: "Symbols w4 = Symbols w1" "Permissions w4 = Permissions w1" "Restrictions w4 = Restrictions w1" "RootKey w4 = RootKey w1"
      "\<forall>a. a \<noteq> sa \<longrightarrow> FreeBalance w4 a = FreeBalance w1 a \<and> TotalIssuance w4 a = TotalIssuance w1 a"
    and bal: "unat (TotalIssuance w4 sa) + unat ?f = unat (TotalIssuance w1 sa)"
      "unat (FreeBalance w4 sa who) + unat ?f = unat (FreeBalance w1 sa who)"
    using redeem_shares_run [OF pre1(1,2) conf(8) pks(2) pre1(3) cover(3,5) pre1(4-6)] by blast
  define w5 where "w5 = sent w4 c cc who amount"
  have f4: "amount \<le> FreeBalance w4 c cc" using assets(6) conf(7) same(5) by (simp add: w1_def)
  have t2: "make_transfer_with_event c cc who amount w4 = Ok () w5" and ok5: "supply_ok w5"
    unfolding w5_def by (rule transfer_run [OF ok4 f4]; use assets(4,5) in \<open>simp add: same w1_def\<close>)+
  have after: "account_future_releases (p\<lparr>ShareAssetCollected := m\<rparr>) who = account_future_releases p who" for p :: "'z saving_store_scheme" and m
    by (simp add: account_future_releases_def)
  note after = after pks(1) [symmetric]
  define w' where "w' = w5\<lparr>pallet := (pallet w5)\<lparr>SavingEvents := SavingEvents (pallet w5) @ [StakingRedeemed who ?f i amount]\<rparr>\<rparr>"
  have "make_redeem saving_mint_hooks i who c cc amount sa w = Ok () w'"
    using ratio_run [OF conf(6), of q w] leD [OF cover(3)] leD [OF cover(2)] enough sh(1) [unfolded w1_def] sh(2,3) t2
    by (simp add: make_redeem_def conf(3-5) shares_due_def [symmetric] due(1) [symmetric] due(2) [symmetric] deduct_returned_def
        after getter_defs Let_def locked_of_phase(2) [OF pks(3)] w'_def)
  moreover have "unat (FreeBalance w' c who) = unat (FreeBalance w c who) + unat amount"
    "unat (FreeBalance w' c cc) + unat amount = unat (FreeBalance w c cc)"
    using free_moved(1,2) [OF ok4 f4 conf(8) [symmetric]] conf(7) assets(6) same(5)
    by (simp_all add: w'_def w5_def w1_def word_le_nat_alt)
  moreover have "phase_total ph sa (account_future_releases (pallet w') who) = phase_total ph sa pks - l"
    by (simp add: w'_def w5_def p4 qs account_future_releases_def)
  ultimately show ?thesis
    using ok5 bal conf(1,2,7) same(5)
    by (intro exI [of _ w']) (simp add: w'_def w5_def same p4 w1_def)
qed

text \<open>What a redemption takes in first: the reserve asset is burnt and the phase asset is collected.\<close>

lemma redeem_intake:
  fixes w :: "'z saving_store_scheme world"
  assumes ok: "supply_ok w" and ne: "r \<noteq> i" "r \<noteq> ShareAssetId (pallet w)" "who \<noteq> cc"
    and funds: "amount \<le> FreeBalance w i who" "y \<le> FreeBalance w r wallet"
    and assets: "Symbols w r \<noteq> None" "check_permission w r (RootKey w) Burn" "Symbols w i \<noteq> None" "Restrictions w i Transferable = None"
  shows "\<exists>w1 w2. burn saving_mint_hooks Root r wallet y w = Ok () w1 \<and> make_transfer_with_event i who cc amount w1 = Ok () w2 \<and>
    supply_ok w2 \<and> pallet w2 = pallet w \<and>
    Symbols w2 = Symbols w \<and> Permissions w2 = Permissions w \<and> Restrictions w2 = Restrictions w \<and> RootKey w2 = RootKey w \<and>
    (\<forall>a. a \<noteq> i \<and> a \<noteq> r \<longrightarrow> FreeBalance w2 a = FreeBalance w a \<and> TotalIssuance w2 a = TotalIssuance w a) \<and>
    TotalIssuance w2 i = TotalIssuance w i \<and> amount \<le> FreeBalance w2 i cc \<and>
    unat (FreeBalance w2 i who) + unat amount = unat (FreeBalance w i who) \<and>
    unat (FreeBalance w2 r wallet) + unat y = unat (FreeBalance w r wallet)"
proof -
  define w1 where "w1 = burnt w r wallet y"
  define w2 where "w2 = sent w1 i who cc amount"
  have b: "burn saving_mint_hooks Root r wallet y w = Ok () w1"
    unfolding w1_def by (rule burn_uncounted [OF ok assets(1,2) funds(2)]) (use ne(2) in simp)
  have ok1: "supply_ok w1" unfolding w1_def by (rule supply_ok_burnt [OF ok assets(1) funds(2)])
  have f1: "amount \<le> FreeBalance w1 i who" using funds(1) ne(1) by (simp add: w1_def)
  have t: "make_transfer_with_event i who cc amount w1 = Ok () w2" and ok2: "supply_ok w2"
    unfolding w2_def by (rule transfer_run [OF ok1 f1]; use assets(3,4) in \<open>simp add: w1_def\<close>)+
  note bal = free_moved(1,2) [OF ok1 f1 ne(3)]
  have "unat (FreeBalance w2 i who) + unat amount = unat (FreeBalance w i who)" "amount \<le> FreeBalance w2 i cc"
    using bal ne(1) f1 by (simp_all add: w2_def word_le_nat_alt) (simp_all add: w1_def)
  moreover have "unat (FreeBalance w2 r wallet) + unat y = unat (FreeBalance w r wallet)"
    using ne(1) funds(2) by (simp add: w2_def w1_def unat_minus word_le_nat_alt)
  ultimately show ?thesis
    using b t ok2 ne(1) by (intro exI [of _ w1] exI [of _ w2]) (simp add: w2_def, simp add: w1_def)
qed

lemma redeem_run:
  fixes w :: "'z saving_store_scheme world"
  assumes ok: "supply_ok w" and live: "\<not> SavingPaused (pallet w)"
    and conf: "sa = ShareAssetId (pallet w)" "c = CollectionAssetId (pallet w)" "cc = CollectionAccountId (pallet w)"
      "r = ReservedMintAssetId (pallet w)" "wallet = ReservedMintWallet (pallet w)" "distinct [i, sa, c, r]" "sa \<noteq> 0" "c \<noteq> 0" "who \<noteq> cc"
    and phase: "IOUAssetPhaseId (pallet w) i = Some ph" "PhaseInfos (pallet w) ph = Some pinfo" "ShareAssetCollected (pallet w) who = 0"
      "NumOfPhases (pallet w) - ph + 1 \<noteq> 0"
    and due: "q = shares_due pinfo amount" "l = locked_due (pallet w) ph q" "y = sbtc_to_reserved_mint (CurrentPrice (pallet w)) amount"
    and pks: "pks = account_future_releases (pallet w) who" "packs_live ph sa pks" "packs_own ph sa who pks"
    and cover: "l \<le> q" "q - l \<le> FreeBalance w sa who" "l \<le> phase_total ph sa pks"
      "unat (FreeBalance w sa who) + unat (phase_total ph sa pks) < 2 ^ 128" "unat (phase_total ph sa pks - l) + 2 ^ 32 \<le> 2 ^ 128"
    and funds: "amount \<le> FreeBalance w i who" "amount \<le> FreeBalance w c cc" "y \<le> FreeBalance w r wallet"
    and assets: "\<And>a. a \<in> {i, sa, c, r} \<Longrightarrow> Symbols w a \<noteq> None \<and> Restrictions w a Transferable = None"
      "\<And>a. a \<in> {i, sa, r} \<Longrightarrow> check_permission w a (RootKey w) Burn"
  shows "\<exists>w'. redeem (saving_hooks lp) (Signed who) i amount w = Ok () w' \<and> supply_ok w' \<and>
    unat (FreeBalance w' c who) = unat (FreeBalance w c who) + unat amount \<and>
    unat (FreeBalance w' c cc) + unat amount = unat (FreeBalance w c cc) \<and>
    unat (FreeBalance w' i who) + unat amount = unat (FreeBalance w i who) \<and>
    unat (TotalIssuance w' i) + unat amount = unat (TotalIssuance w i) \<and>
    unat (FreeBalance w' sa who) + unat (q - l) = unat (FreeBalance w sa who) \<and>
    unat (TotalIssuance w' sa) + unat (q - l) = unat (TotalIssuance w sa) \<and>
    unat (FreeBalance w' r wallet) + unat y = unat (FreeBalance w r wallet) \<and>
    phase_total ph sa (account_future_releases (pallet w') who) = phase_total ph sa pks - l"
proof -
  have ne: "sa \<noteq> i" "c \<noteq> i" "r \<noteq> i" "i \<noteq> sa" "i \<noteq> c" "i \<noteq> r" "sa \<noteq> r" "c \<noteq> r" "r \<noteq> sa" "r \<noteq> c" and sc: "sa \<noteq> c" using conf(6) by auto
  have get: "iou_asset_phase_id (pallet w) i = ph" "phase_info (pallet w) ph = pinfo"
    by (simp_all add: iou_asset_phase_id_def phase_info_def phase)
  note check = check_can_redeem_run [OF conf(1) get phase(3,4) due(1,2) pks(1) cover(1-4)]
  obtain w1 w2 where b1: "burn saving_mint_hooks Root r wallet y w = Ok () w1" and t1: "make_transfer_with_event i who cc amount w1 = Ok () w2"
    and ok2: "supply_ok w2" and p2: "pallet w2 = pallet w"
    and same: "Symbols w2 = Symbols w" "Permissions w2 = Permissions w" "Restrictions w2 = Restrictions w" "RootKey w2 = RootKey w"
      "\<forall>a. a \<noteq> i \<and> a \<noteq> r \<longrightarrow> FreeBalance w2 a = FreeBalance w a \<and> TotalIssuance w2 a = TotalIssuance w a"
      "TotalIssuance w2 i = TotalIssuance w i"
    and bal: "amount \<le> FreeBalance w2 i cc" "unat (FreeBalance w2 i who) + unat amount = unat (FreeBalance w i who)"
      "unat (FreeBalance w2 r wallet) + unat y = unat (FreeBalance w r wallet)"
    using redeem_intake [OF ok ne(3) ne(9) [unfolded conf(1)] conf(9) funds(1,3)] assets(1) [of r] assets(1) [of i] assets(2) [of r] by auto
  have keep: "FreeBalance w2 sa = FreeBalance w sa" "FreeBalance w2 c = FreeBalance w c" "TotalIssuance w2 sa = TotalIssuance w sa"
    using same(5) ne by auto
  have as2: "Symbols w2 sa \<noteq> None" "Restrictions w2 sa Transferable = None" "check_permission w2 sa (RootKey w2) Burn"
    "Symbols w2 c \<noteq> None" "Restrictions w2 c Transferable = None" "amount \<le> FreeBalance w2 c cc"
    using assets(1) [of sa] assets(1) [of c] assets(2) [of sa] funds(2) by (simp_all add: keep same check_permission_def)
  obtain w3 where mr: "make_redeem saving_mint_hooks i who c cc amount sa w2 = Ok () w3" "supply_ok w3"
    "Symbols w3 = Symbols w2" "Permissions w3 = Permissions w2" "Restrictions w3 = Restrictions w2" "RootKey w3 = RootKey w2"
    "\<forall>a. a \<noteq> sa \<and> a \<noteq> c \<longrightarrow> FreeBalance w3 a = FreeBalance w2 a \<and> TotalIssuance w3 a = TotalIssuance w2 a"
    "unat (TotalIssuance w3 sa) + unat (q - l) = unat (TotalIssuance w sa)"
    "unat (FreeBalance w3 sa who) + unat (q - l) = unat (FreeBalance w sa who)"
    "unat (FreeBalance w3 c who) = unat (FreeBalance w c who) + unat amount"
    "unat (FreeBalance w3 c cc) + unat amount = unat (FreeBalance w c cc)"
    "phase_total ph sa (account_future_releases (pallet w3) who) = phase_total ph sa pks - l"
    "ShareAssetId (pallet w3) = sa" "CollectionAccountId (pallet w3) = cc"
    using make_redeem_run [OF ok2, unfolded p2, OF conf(1,3) get phase(3,4) sc conf(9) due(1,2) pks cover [folded keep(1)] as2]
    unfolding keep by blast
  have f3: "amount \<le> FreeBalance w3 i cc" using mr(7) ne bal(1) by simp
  define w' where "w' = burnt w3 i cc amount"
  have sym3: "Symbols w3 i \<noteq> None" using assets(1) [of i] by (simp add: mr same)
  have b3: "burn saving_mint_hooks Root i cc amount w3 = Ok () w'"
    unfolding w'_def by (rule burn_uncounted [OF mr(2) sym3 _ f3])
      (use assets(2) [of i] mr(4,6,14) in \<open>simp_all add: same check_permission_def\<close>)
  have ok': "supply_ok w'" unfolding w'_def by (rule supply_ok_burnt [OF mr(2) sym3 f3])
  have "redeem saving_mint_hooks (Signed who) i amount w = Ok () w'"
    using live phase(1) conf funds(3) check b1 t1 mr(1) b3
    by (simp add: redeem_def saving_not_paused_def redeem_checked_def redeem_for_def burn_reserved_def getter_defs due(3) on_err_apply)
  moreover have "redeem (saving_hooks lp) (Signed who) i amount = redeem saving_mint_hooks (Signed who) i amount"
    using dispatch_saving_hooks [of "\<lambda>_. []" "\<lambda>_. []" lp "Signed who" "ScRedeem i amount"] by simp
  moreover have "unat (FreeBalance w' i who) + unat amount = unat (FreeBalance w i who)"
    using mr(7) ne bal(2) conf(9) by (simp add: w'_def)
  moreover have "unat (TotalIssuance w' i) + unat amount = unat (TotalIssuance w i)"
    using mr(7) ne order_trans [OF funds(1) free_le_issuance [OF ok]]
    by (simp add: w'_def same unat_minus word_le_nat_alt)
  moreover have "unat (FreeBalance w' r wallet) + unat y = unat (FreeBalance w r wallet)"
    using mr(7) ne bal(3) by (simp add: w'_def)
  ultimately show ?thesis
    using ok' mr(8-12) ne by (intro exI [of _ w']) (simp add: w'_def)
qed

section \<open>Properties\<close>

text \<open>C17: a saving within the running phase is exact. While the pallet is not paused, the assets of the
  collection, the phase, the shares and the reserve are four different assets, exist, may be minted and have room for
  what is minted, and the saver is not the collection account, the saver hands over exactly the amount and receives
  the same amount of the asset of the phase; the first of the remaining terms of the shares is
  paid at once and counted, the rest is added to the locked packs of the phase; the reserve
  receives what the price prescribes; the used quota grows by the amount, and issuance equals the
  holdings. The counted shares of the saver and the circulation grow by exactly the shares paid (they
  must have room for them), whether or not the count was exact before; if it was exact, it stays so.\<close>

theorem staking_exact:
  assumes "supply_ok w" and "\<not> SavingPaused (pallet w)"
    and "i = CollectionAssetId (pallet w)" and "cc = CollectionAccountId (pallet w)" and "sa = ShareAssetId (pallet w)"
    and "r = ReservedMintAssetId (pallet w)" and "wallet = ReservedMintWallet (pallet w)" and "distinct [i, j, sa, r]" and "who \<noteq> cc"
    and "PhaseInfos (pallet w) (CurrentPhaseId (pallet w)) = Some pinfo" and "phase_iou_asset_id pinfo = Some j"
    and "phase_info_id pinfo = ph" and "amount \<noteq> 0" and "unat (QuotaUsed (pallet w)) + unat amount < unat (phase_quota pinfo)"
    and "unat amount * unat (phase_exchange pinfo) < 2 ^ 128" and "b = amount * phase_exchange pinfo"
    and "t = NumOfPhasesLeft (pallet w)" and "t \<noteq> 0" and "unat b + unat t \<le> 2 ^ 128" and "x = portion_word b t"
    and "y = sbtc_to_reserved_mint (CurrentPrice (pallet w)) amount"
    and "amount \<le> FreeBalance w i who" and "Symbols w i \<noteq> None" and "Restrictions w i Transferable = None"
    and "\<forall>a\<in>{j, sa, r}. Symbols w a \<noteq> None \<and> check_permission w a (RootKey w) Mint"
    and "unat (TotalIssuance w j) + unat amount < 2 ^ 128" and "unat (TotalIssuance w sa) + unat x < 2 ^ 128"
    and "unat (TotalIssuance w r) + unat y < 2 ^ 128"
    and "unat (account_shares (pallet w) who) + unat x < 2 ^ 128" and "unat (SharesCirculation (pallet w)) + unat x < 2 ^ 128"
    and "pks = account_future_releases (pallet w) who" and "packs_live ph sa pks"
    and "unat (phase_total ph sa pks + (b - x)) + 2 ^ 32 \<le> 2 ^ 128"
  shows "\<exists>w'. staking lp (saving_hooks lp) (Signed who) i amount w = Ok () w' \<and> supply_ok w' \<and> (shares_tracked w \<longrightarrow> shares_tracked w') \<and>
    unat (account_shares (pallet w') who) = unat (account_shares (pallet w) who) + unat x \<and>
    unat (SharesCirculation (pallet w')) = unat (SharesCirculation (pallet w)) + unat x \<and>
    unat (FreeBalance w' i who) + unat amount = unat (FreeBalance w i who) \<and>
    unat (FreeBalance w' i cc) = unat (FreeBalance w i cc) + unat amount \<and>
    unat (FreeBalance w' j who) = unat (FreeBalance w j who) + unat amount \<and>
    unat (FreeBalance w' sa who) = unat (FreeBalance w sa who) + unat x \<and>
    unat (FreeBalance w' r wallet) = unat (FreeBalance w r wallet) + unat y \<and>
    phase_total ph sa (account_future_releases (pallet w') who) = phase_total ph sa pks + (b - x) \<and>
    QuotaUsed (pallet w') = QuotaUsed (pallet w) + amount"
  by (rule staking_run [OF assms(1-24) bspec [OF assms(25)] assms(26-33)])

theorem staking_exact_witness:
  "\<exists>w'. staking (\<lambda>_. []) (saving_hooks (\<lambda>_. [])) (Signed 1) 10 300 demo_savers = Ok () w' \<and>
     unat (FreeBalance w' 2 1) = 15000 \<and> unat (FreeBalance w' 3 1) = 300 \<and> unat (FreeBalance w' 8 53) = 390 \<and>
     unat (SharesCirculation (pallet w')) = 15000 \<and> phase_total 1 2 (account_future_releases (pallet w') 1) = 15000"
proof -
  let ?pinfo = "\<lparr>phase_info_id = 1, phase_quota = 1000, phase_exchange = 100, phase_iou_asset_id = Some 3\<rparr>"
  have sh: "account_shares demo_saving 1 = 0" by (simp add: account_shares_def)
  have no: "[] = account_future_releases (pallet demo_savers) 1" by (simp add: account_future_releases_def)
  have x: "15000 = portion_word 30000 (2 :: u32)" by (simp add: portion_word_def)
  have y: "390 = sbtc_to_reserved_mint (CurrentPrice (pallet demo_savers)) 300"
    by (simp add: sbtc_to_reserved_mint_def RESERVED_MINT_RATIO_def RESERVED_MINT_DIV_def PRICE_PRECISION_def)
  have "\<exists>w'. staking (\<lambda>_. []) (saving_hooks (\<lambda>_. [])) (Signed 1) 10 300 demo_savers = Ok () w' \<and> supply_ok w' \<and> (shares_tracked demo_savers \<longrightarrow> shares_tracked w') \<and>
    unat (account_shares (pallet w') 1) = unat (account_shares (pallet demo_savers) 1) + unat (15000 :: balance) \<and>
    unat (SharesCirculation (pallet w')) = unat (SharesCirculation (pallet demo_savers)) + unat (15000 :: balance) \<and>
    unat (FreeBalance w' 10 1) + unat (300 :: balance) = unat (FreeBalance demo_savers 10 1) \<and>
    unat (FreeBalance w' 10 50) = unat (FreeBalance demo_savers 10 50) + unat (300 :: balance) \<and>
    unat (FreeBalance w' 3 1) = unat (FreeBalance demo_savers 3 1) + unat (300 :: balance) \<and>
    unat (FreeBalance w' 2 1) = unat (FreeBalance demo_savers 2 1) + unat (15000 :: balance) \<and>
    unat (FreeBalance w' 8 53) = unat (FreeBalance demo_savers 8 53) + unat (390 :: balance) \<and>
    phase_total 1 2 (account_future_releases (pallet w') 1) = phase_total 1 2 [] + (30000 - 15000) \<and>
    QuotaUsed (pallet w') = QuotaUsed (pallet demo_savers) + 300"
    by (rule staking_exact [where t = 2 and r = 8 and pinfo = ?pinfo, OF supply_ok_demo _ _ _ _ _ _ _ _ _ _ _ _ _ _ _ _ _ _ x y _ _ _ _ _ _ _ _ _ no])
      (simp_all add: packs_live_def phase_total_def sh)
  then show ?thesis by (elim ex_forward) (simp add: phase_total_def)
qed

text \<open>C18: a redemption is exact. With the shares it asks for at hand, free and locked in the proportion of
  the remaining phases, the saver hands in the amount of the phase asset and exactly the free
  part of the shares, both of which are destroyed, the locked part leaves the packs of the phase,
  the reserve is burnt as the price prescribes, and the saver receives exactly the amount of the
  collection asset from the collection account; issuance equals the holdings.\<close>

theorem redeem_exact:
  assumes "supply_ok w" and "\<not> SavingPaused (pallet w)"
    and "sa = ShareAssetId (pallet w)" and "c = CollectionAssetId (pallet w)" and "cc = CollectionAccountId (pallet w)"
    and "r = ReservedMintAssetId (pallet w)" and "wallet = ReservedMintWallet (pallet w)" and "distinct [i, sa, c, r]"
    and "sa \<noteq> 0" and "c \<noteq> 0" and "who \<noteq> cc"
    and "IOUAssetPhaseId (pallet w) i = Some ph" and "PhaseInfos (pallet w) ph = Some pinfo"
    and "ShareAssetCollected (pallet w) who = 0" and "NumOfPhases (pallet w) - ph + 1 \<noteq> 0"
    and "q = shares_due pinfo amount" and "l = locked_due (pallet w) ph q" and "y = sbtc_to_reserved_mint (CurrentPrice (pallet w)) amount"
    and "pks = account_future_releases (pallet w) who" and "packs_live ph sa pks" and "packs_own ph sa who pks"
    and "l \<le> q" and "q - l \<le> FreeBalance w sa who" and "l \<le> phase_total ph sa pks"
    and "unat (FreeBalance w sa who) + unat (phase_total ph sa pks) < 2 ^ 128" and "unat (phase_total ph sa pks - l) + 2 ^ 32 \<le> 2 ^ 128"
    and "amount \<le> FreeBalance w i who" and "amount \<le> FreeBalance w c cc" and "y \<le> FreeBalance w r wallet"
    and "\<forall>a\<in>{i, sa, c, r}. Symbols w a \<noteq> None \<and> Restrictions w a Transferable = None"
    and "\<forall>a\<in>{i, sa, r}. check_permission w a (RootKey w) Burn"
  shows "\<exists>w'. redeem (saving_hooks lp) (Signed who) i amount w = Ok () w' \<and> supply_ok w' \<and>
    unat (FreeBalance w' c who) = unat (FreeBalance w c who) + unat amount \<and>
    unat (FreeBalance w' c cc) + unat amount = unat (FreeBalance w c cc) \<and>
    unat (FreeBalance w' i who) + unat amount = unat (FreeBalance w i who) \<and>
    unat (TotalIssuance w' i) + unat amount = unat (TotalIssuance w i) \<and>
    unat (FreeBalance w' sa who) + unat (q - l) = unat (FreeBalance w sa who) \<and>
    unat (TotalIssuance w' sa) + unat (q - l) = unat (TotalIssuance w sa) \<and>
    unat (FreeBalance w' r wallet) + unat y = unat (FreeBalance w r wallet) \<and>
    phase_total ph sa (account_future_releases (pallet w') who) = phase_total ph sa pks - l"
  by (rule redeem_run [OF assms(1-29) bspec [OF assms(30)] bspec [OF assms(31)]])

theorem redeem_exact_witness:
  "\<exists>pks w'. redeem (saving_hooks (\<lambda>_. [])) (Signed 1) 3 100
      (moved (demo_world [(10, 5000), (2, 15000), (3, 300), (8, 10000)]
        (demo_saving\<lparr>ShareUnreleasedList := [1 \<mapsto> pks], ReservedMintWallet := 1\<rparr>)) 10 1 50 300) = Ok () w' \<and>
     unat (FreeBalance w' 10 1) = 4800 \<and> unat (FreeBalance w' 3 1) = 200 \<and> unat (FreeBalance w' 2 1) = 10000 \<and>
     unat (FreeBalance w' 8 1) = 9870 \<and> phase_total 1 2 (account_future_releases (pallet w') 1) = 10000"
proof -
  define pk where "pk = \<lparr>pack_asset_id = 2, pack_owner = 1, pack_phase_id = 1, pack_empty = False,
    pack_major = \<lparr>terms_total = 2, terms_left = 1, per_term = 15000\<rparr>, pack_minor = None, pack_release_trigger = PhaseChange\<rparr>"
  let ?p = "demo_saving\<lparr>ShareUnreleasedList := [1 \<mapsto> [pk]], ReservedMintWallet := 1\<rparr>"
  let ?w = "moved (demo_world [(10, 5000), (2, 15000), (3, 300), (8, 10000)] ?p) 10 1 50 300"
  have ok: "supply_ok ?w" by (rule supply_ok_moved [OF supply_ok_demo]) simp
  have pks: "[pk] = account_future_releases (pallet ?w) 1" by (simp add: account_future_releases_def)
  have tot: "phase_total 1 2 [pk] = 15000"
    by (simp add: pk_def phase_total_def of_phase_def pack_total_balance_def package_total_balance_def)
  have lv: "packs_live 1 2 [pk]" "packs_own 1 2 1 [pk]" by (simp_all add: pk_def packs_live_def packs_own_def pack_terms_left_def)
  let ?pinfo = "\<lparr>phase_info_id = 1, phase_quota = 1000, phase_exchange = 100, phase_iou_asset_id = Some 3\<rparr>"
  have q: "10000 = shares_due ?pinfo 100" by (simp add: shares_due_def)
  have l: "5000 = locked_due (pallet ?w) 1 10000" by (simp add: locked_due_def)
  have y: "130 = sbtc_to_reserved_mint (CurrentPrice (pallet ?w)) 100"
    by (simp add: sbtc_to_reserved_mint_def RESERVED_MINT_RATIO_def RESERVED_MINT_DIV_def PRICE_PRECISION_def)
  have bal: "FreeBalance ?w 10 1 = 4700" "FreeBalance ?w 10 50 = 300" "FreeBalance ?w 3 1 = 300" "FreeBalance ?w 2 1 = 15000"
    "FreeBalance ?w 8 1 = 10000" by (simp_all add: moved_def)
  have "\<exists>w'. redeem (saving_hooks (\<lambda>_. [])) (Signed 1) 3 100 ?w = Ok () w' \<and> supply_ok w' \<and>
    unat (FreeBalance w' 10 1) = unat (FreeBalance ?w 10 1) + unat (100 :: balance) \<and>
    unat (FreeBalance w' 10 50) + unat (100 :: balance) = unat (FreeBalance ?w 10 50) \<and>
    unat (FreeBalance w' 3 1) + unat (100 :: balance) = unat (FreeBalance ?w 3 1) \<and>
    unat (TotalIssuance w' 3) + unat (100 :: balance) = unat (TotalIssuance ?w 3) \<and>
    unat (FreeBalance w' 2 1) + unat (10000 - 5000 :: balance) = unat (FreeBalance ?w 2 1) \<and>
    unat (TotalIssuance w' 2) + unat (10000 - 5000 :: balance) = unat (TotalIssuance ?w 2) \<and>
    unat (FreeBalance w' 8 1) + unat (130 :: balance) = unat (FreeBalance ?w 8 1) \<and>
    phase_total 1 2 (account_future_releases (pallet w') 1) = phase_total 1 2 [pk] - 5000"
    by (rule redeem_exact [OF ok _ _ _ _ _ _ _ _ _ _ _ _ _ _ q l y pks lv]) (simp_all add: tot bal)
  then show ?thesis
    by (intro exI [of _ "[pk]"]) (elim ex_forward, simp add: bal tot)
qed

end
