(* ===== verification/Chain_Spec.thy ===== *)
theory Chain_Spec
  imports Bridge
begin

text \<open>
  The chain specifications of \<^verbatim>\<open>src/chain_spec.rs\<close> and the part of \<^verbatim>\<open>src/cli.rs\<close> that selects
  one: the supported chains, the genesis configuration of each, and the storage that the runtime
  builds from it. Key derivation, the parsers of JSON and of the address format and the compiled
  runtime belong to other packages and are parameters.
\<close>

section \<open>The supported chains\<close>

datatype Alternative = Development | LocalTestnet | Testnet | Beta

definition CHAIN_TYPE :: "(Alternative \<times> string \<times> string) list" where
  "CHAIN_TYPE =
     [(Development, ''Development'', ''dev''),
      (LocalTestnet, ''Local Testnet'', ''local_testnet''),
      (Testnet, ''Rio Defi Testnet'', ''moniker''),
      (Beta, ''Rio Beta'', ''beta'')]"

text \<open>The table is a hash map; the order in which it is iterated is the argument \<open>entries\<close>.\<close>

definition get_alternative_from_id ::
  "(Alternative \<times> string \<times> string) list \<Rightarrow> string \<Rightarrow> ('s, Alternative) op" where
  "get_alternative_from_id entries chain_id =
     (case find (\<lambda>(k, v). snd v = chain_id) entries of
        Some (k, _) \<Rightarrow> return k
      | None \<Rightarrow> throw (Msg (''no support id in current `Alternative`:'' @ chain_id)))"

definition alternative_from :: "string \<Rightarrow> Alternative option" where
  "alternative_from s =
     (if s = ''dev'' then Some Development
      else if s = ''local'' then Some LocalTestnet
      else if s = ''test'' then Some Testnet
      else if s = ''beta'' then Some Beta
      else None)"

section \<open>Keys\<close>

record crypto =
  sr25519_from_string :: "string \<Rightarrow> h256 option"
  ed25519_from_string :: "string \<Rightarrow> h256 option"
  into_account :: "h256 \<Rightarrow> account_id"

definition get_from_seed :: "(string \<Rightarrow> h256 option) \<Rightarrow> string \<Rightarrow> ('s, h256) op" where
  "get_from_seed from_string seed = unwrap (from_string (''//'' @ seed))"

definition get_account_id_from_seed :: "crypto \<Rightarrow> string \<Rightarrow> ('s, account_id) op" where
  "get_account_id_from_seed cr seed =
     and_then (get_from_seed (sr25519_from_string cr) seed) (\<lambda>key. return (into_account cr key))"

definition get_authority_keys_from_seed :: "crypto \<Rightarrow> string \<Rightarrow> ('s, h256 \<times> h256) op" where
  "get_authority_keys_from_seed cr seed =
     and_then (get_from_seed (sr25519_from_string cr) seed) (\<lambda>aura.
     and_then (get_from_seed (ed25519_from_string cr) seed) (\<lambda>grandpa.
     return (aura, grandpa)))"

primrec collect :: "('x \<Rightarrow> ('s, 'a) op) \<Rightarrow> 'x list \<Rightarrow> ('s, 'a list) op" where
  "collect f [] = return []"
| "collect f (x # xs) = and_then (f x) (\<lambda>a. and_then (collect f xs) (\<lambda>as. return (a # as)))"

section \<open>Genesis configurations\<close>

record RioAssetsConfig =
  assets_root :: account_id
  assets_symbols :: "symbol_config list"

record RioBridgeConfig =
  bridge_asset_id :: asset_id
  bridge_threshold :: balance
  bridge_admins :: "(account_id \<times> Auth) list"
  bridge_pending_withdraw_vault :: account_id

record GenesisConfig =
  system_code :: "u8 list"
  indices_ids :: "account_id list"
  sudo_key :: account_id
  aura_authorities :: "h256 list"
  grandpa_authorities :: "(h256 \<times> u64) list"
  rio_assets :: RioAssetsConfig
  rio_bridge :: RioBridgeConfig
  rio_fee_account_id :: account_id

definition genesis_symbols :: "symbol_config list" where
  "genesis_symbols =
     [(RFUEL, map of_char ''RFUEL'', [], []),
      (LOCKED_RFUEL, map of_char ''Locked RFUEL'', [Transferable], []),
      (SBTC, map of_char ''SBTC'', [], []),
      (SUSDT, map of_char ''S-USDT'', [], []),
      (101, map of_char ''RBTC'', [], []),
      (102, map of_char ''RSC1'', [], []),
      (103, map of_char ''RSC2'', [], []),
      (104, map of_char ''RSC3'', [], []),
      (105, map of_char ''RSC4'', [], []),
      (106, map of_char ''RSC5'', [], [])]"

text \<open>The flag for printing is taken and not used by both functions.\<close>

definition testnet_genesis ::
  "crypto \<Rightarrow> u8 list \<Rightarrow> (h256 \<times> h256) list \<Rightarrow> account_id \<Rightarrow> account_id list \<Rightarrow> bool \<Rightarrow> ('s, GenesisConfig) op" where
  "testnet_genesis cr wasm_binary initial_authorities root_key endowed_accounts enable_println =
     and_then (get_account_id_from_seed cr ''Alice'') (\<lambda>alice.
     and_then (get_account_id_from_seed cr ''withdraw vault'') (\<lambda>vault.
     and_then (get_account_id_from_seed cr ''Eve'') (\<lambda>eve.
     return
       \<lparr>system_code = wasm_binary,
        indices_ids = endowed_accounts,
        sudo_key = root_key,
        aura_authorities = map fst initial_authorities,
        grandpa_authorities = map (\<lambda>x. (snd x, 1)) initial_authorities,
        rio_assets = \<lparr>assets_root = root_key, assets_symbols = genesis_symbols\<rparr>,
        rio_bridge =
          \<lparr>bridge_asset_id = SBTC, bridge_threshold = 3000000000, bridge_admins = [(alice, AuthAll)],
           bridge_pending_withdraw_vault = vault\<rparr>,
        rio_fee_account_id = eve\<rparr>)))"

definition beta_genesis ::
  "u8 list \<Rightarrow> (h256 \<times> h256) list \<Rightarrow> account_id \<Rightarrow> account_id list \<Rightarrow> bool \<Rightarrow> ('s, GenesisConfig) op" where
  "beta_genesis wasm_binary initial_authorities root_key endowed_accounts enable_println =
     return
       \<lparr>system_code = wasm_binary,
        indices_ids = endowed_accounts,
        sudo_key = root_key,
        aura_authorities = map fst initial_authorities,
        grandpa_authorities = map (\<lambda>x. (snd x, 1)) initial_authorities,
        rio_assets = \<lparr>assets_root = root_key, assets_symbols = genesis_symbols\<rparr>,
        rio_bridge =
          \<lparr>bridge_asset_id = SBTC, bridge_threshold = 3000000000,
           bridge_admins = [(0x8ee3e606982e20e495b622d091a99d4cdbc669afd8c08efb1acfb375b2e9f61a, AuthAll)],
           bridge_pending_withdraw_vault = 0x5e1379e6dbd99ec5914c127f7eada6a6a6c773ed47cadf4f023577b0deb3ab09\<rparr>,
        rio_fee_account_id = 0x16bb3aef8cfefcf218ffa6d8722baa4ae808acb0de521e71ccbdeb3bf9cb2d1e\<rparr>"

section \<open>Chain specifications\<close>

record ('s, 'j) ChainSpec =
  spec_name :: string
  spec_id :: string
  spec_genesis :: "('s, GenesisConfig) op"
  spec_boot_nodes :: "string list"
  spec_telemetry_endpoints :: "(string \<times> u8) list option"
  spec_protocol_id :: "string option"
  spec_properties :: "'j option"

definition default_properties :: string where
  \<open>default_properties =
     ''\<newline>{\<newline>"tokenSymbol": "RFUEL",\<newline>"tokenDecimals": 8,\<newline>"ss58Format": 42\<newline>}\<newline>''\<close>

definition dev_accounts :: "string list" where
  "dev_accounts = [''Alice'', ''Bob'', ''Alice//stash'', ''Bob//stash'']"

definition testnet_accounts :: "string list" where
  "testnet_accounts =
     [''Alice'', ''Bob'', ''Charlie'', ''Dave'', ''Eve'', ''Ferdie'', ''Alice//stash'', ''Bob//stash'',
      ''Charlie//stash'', ''Dave//stash'', ''Eve//stash'', ''Ferdie//stash'']"

definition seeded_genesis :: "crypto \<Rightarrow> u8 list \<Rightarrow> string list \<Rightarrow> string list \<Rightarrow> ('s, GenesisConfig) op" where
  "seeded_genesis cr wasm_binary authorities accounts =
     and_then (collect (get_authority_keys_from_seed cr) authorities) (\<lambda>initial_authorities.
     and_then (get_account_id_from_seed cr ''Alice'') (\<lambda>root_key.
     and_then (collect (get_account_id_from_seed cr) accounts) (\<lambda>endowed_accounts.
     testnet_genesis cr wasm_binary initial_authorities root_key endowed_accounts True)))"

definition beta_authorities :: "(h256 \<times> h256) list" where
  "beta_authorities =
     [(0x3c748c52c521a8ccb85a0c5ee8f9479d45cb0348b5022ce97f35363689f3a84e,
       0xb3cd4432d77141225c98502e2a2a461486e3b01c25a61ee54e6761c7c31570a8),
      (0x328f2204c644361866c92996fc5acffc67e86e6da1af358b38a3de3241bfa276,
       0xa47355db185f4de899055d90f0b6889fb080dd4e5c310a62390d760bc3602c9a),
      (0x78f7655aa22a8f6b54fb7fea4e62f11f365dd67703bf0b5b3ed8338a10373b19,
       0x60e004988514b9075192585ea8acb70652df7928d4f04a1175067b294510d8eb)]"

definition load :: "crypto \<Rightarrow> u8 list \<Rightarrow> (string \<Rightarrow> 'j option) \<Rightarrow> Alternative \<Rightarrow> ('n, ('s, 'j) ChainSpec) op" where
  "load cr wasm_binary json_from_str alt =
     and_then (ok_or (map_of CHAIN_TYPE alt) ''not support for this Alternative'') (\<lambda>(name, chain_id).
     and_then (unwrap (json_from_str default_properties)) (\<lambda>properties.
     return (case alt of
       Development \<Rightarrow>
         \<lparr>spec_name = name, spec_id = chain_id,
          spec_genesis = seeded_genesis cr wasm_binary [''Alice''] dev_accounts,
          spec_boot_nodes = [], spec_telemetry_endpoints = None, spec_protocol_id = None,
          spec_properties = Some properties\<rparr>
     | LocalTestnet \<Rightarrow>
         \<lparr>spec_name = name, spec_id = chain_id,
          spec_genesis = seeded_genesis cr wasm_binary [''Alice'', ''Bob''] testnet_accounts,
          spec_boot_nodes = [], spec_telemetry_endpoints = None, spec_protocol_id = None,
          spec_properties = Some properties\<rparr>
     | Testnet \<Rightarrow>
         \<lparr>spec_name = name, spec_id = chain_id,
          spec_genesis = seeded_genesis cr wasm_binary [''Alice'', ''Bob''] testnet_accounts,
          spec_boot_nodes = [''/ip4/47.52.149.251/tcp/30101/p2p/QmRpheLN4JWdAnY7HGJfWFNbfkQCb6tFf4vvA6hgjMZKrR''],
          spec_telemetry_endpoints = Some [(''https://stats.staging.riodefi.com'', 0)],
          spec_protocol_id = Some ''alpha'', spec_properties = Some properties\<rparr>
     | Beta \<Rightarrow>
         \<lparr>spec_name = name, spec_id = chain_id,
          spec_genesis = beta_genesis wasm_binary beta_authorities
            0x20cd1afa4f95b59b7f61a97360e8bc74a26a6fc13712e6f2eef3a1e020bbcd68
            [0x167056fa07ae7bc1d36da5520dd8c4c06cb5a5db557986f0c6ae2af0030d4c44,
             0xb4f179ee3e5e2498eb6d59d1d899bcb0157a917f9cfd8523101e4f78c8a52050] True,
          spec_boot_nodes = [''/ip4/47.244.206.150/tcp/30333/p2p/QmNh3WxHeGATKcEjRSv97HTT6UpmjFdzYSFpn2UeR2DFok''],
          spec_telemetry_endpoints = Some [(''https://stats.riochain.io'', 0)],
          spec_protocol_id = Some ''beta'', spec_properties = Some properties\<rparr>)))"

section \<open>The command line\<close>

record node =
  default_ss58_version :: u8

definition set_address_type ::
  "(Alternative \<times> string \<times> string) list \<Rightarrow> (string \<Rightarrow> string + string) \<Rightarrow> (string \<Rightarrow> u8 option) \<Rightarrow> string \<Rightarrow>
   (node, unit) op" where
  "set_address_type entries json_file_id ss58_try_from chain_key =
     and_then
       (case alternative_from chain_key of
          Some spec \<Rightarrow> return spec
        | None \<Rightarrow> (case json_file_id chain_key of
              Inl e \<Rightarrow> throw (Msg e)
            | Inr chain_id \<Rightarrow> get_alternative_from_id entries chain_id)) (\<lambda>alternative.
     and_then (case alternative of Beta \<Rightarrow> unwrap (ss58_try_from ''42'') | _ \<Rightarrow> unwrap (ss58_try_from ''42'')) (\<lambda>v.
     modify (\<lambda>n. n\<lparr>default_ss58_version := v\<rparr>)))"

definition load_spec ::
  "crypto \<Rightarrow> u8 list \<Rightarrow> (string \<Rightarrow> 'j option) \<Rightarrow> (Alternative \<times> string \<times> string) list \<Rightarrow> (string \<Rightarrow> string + string) \<Rightarrow>
   (string \<Rightarrow> u8 option) \<Rightarrow> string \<Rightarrow> (node, ('s, 'j) ChainSpec option) op" where
  "load_spec cr wasm_binary json_from_str entries json_file_id ss58_try_from chain_id =
     and_then (set_address_type entries json_file_id ss58_try_from chain_id) (\<lambda>_.
     case alternative_from chain_id of
       Some spec \<Rightarrow> and_then (load cr wasm_binary json_from_str spec) (\<lambda>loaded. return (Some loaded))
     | None \<Rightarrow> return None)"

section \<open>The storage at genesis\<close>

text \<open>
  What the framework makes of a configuration: the storage of every pallet starts with its
  defaults and the configured items, then the assets pallet builds the assets.
\<close>

definition genesis_pallets :: "GenesisConfig \<Rightarrow> bridge_store" where
  "genesis_pallets cfg =
     (let b = rio_bridge cfg in
      bridge_genesis (bridge_asset_id b) (bridge_threshold b) (bridge_admins b) (bridge_pending_withdraw_vault b)
        \<lparr>FeeAccountId = rio_fee_account_id cfg, FeeEvents = [], NextFeeMultiplier = 0, Oracles = [],
         WitnessReport = \<lambda>_. 0, CurrentPrice = 0, PriceReports = [], PriceEvents = [], BridgeAssetId = 0,
         Paused = False, BwList = \<lambda>_. None, Threshold = 0, Admins = \<lambda>_. None, PendingDepositList = \<lambda>_. [],
         DepositHistory = \<lambda>_. None, PendingWithdraws = \<lambda>_. None, PendingWithdrawVault = 0, BridgeEvents = []\<rparr>)"

definition genesis_storage :: "GenesisConfig \<Rightarrow> (bridge_store world, unit) res" where
  "genesis_storage cfg =
     build (assets_root (rio_assets cfg)) (assets_symbols (rio_assets cfg))
       (genesis_world (sudo_key cfg) (genesis_pallets cfg))"

section \<open>What the configurations give\<close>

text \<open>The assets of a fresh chain: nothing is issued, and only the locked fee asset is restricted.\<close>

lemma build_symbol_unfunded:
  assumes "Symbols w i = None" and "TotalIssuance w = (\<lambda>_. 0)" and "FreeBalance w = (\<lambda>_ _. 0)"
  shows "\<exists>w'. build_symbol root (i, symb, rs, []) w = Ok () w' \<and> pallet w' = pallet w \<and> RootKey w' = RootKey w \<and>
    TotalIssuance w' = (\<lambda>_. 0) \<and> FreeBalance w' = (\<lambda>_ _. 0) \<and> Symbols w' = (Symbols w)(i \<mapsto> symb) \<and>
    Restrictions w' = (Restrictions w)(i := (\<lambda>r. if r \<in> set rs then Some () else Restrictions w i r))"
proof -
  have restrict: "for_each rs (\<lambda>forbidden. expect (update_restriction Root i forbidden True)) v
      = Ok () (v\<lparr>Restrictions := (Restrictions v)(i := (\<lambda>r. if r \<in> set rs then Some () else Restrictions v i r))\<rparr>)"
    for v :: "'a world"
    by (induction rs arbitrary: v) (auto simp: update_restriction_def op_defs intro!: world.equality, auto simp: fun_eq_iff)
  have upd: "(\<lambda>_ _. 0)(i := (\<lambda>_. 0)(0 := 0)) = (\<lambda>_ _. 0 :: balance)" "(\<lambda>_. 0)(i := 0) = (\<lambda>_. 0 :: balance)"
    by auto
  from assms show ?thesis
    by (simp add: build_symbol_def expect_apply create_asset_apply set_total_issuance_apply restrict upd cong: if_cong)
qed

lemma build_unfunded:
  assumes "distinct (map fst symbols)" and "\<And>c. c \<in> set symbols \<Longrightarrow> Symbols w (fst c) = None \<and> snd (snd (snd c)) = []"
    and "TotalIssuance w = (\<lambda>_. 0)" and "FreeBalance w = (\<lambda>_ _. 0)"
  shows "\<exists>w'. build root symbols w = Ok () w' \<and> pallet w' = pallet w \<and> RootKey w' = RootKey w \<and>
    TotalIssuance w' = (\<lambda>_. 0) \<and> FreeBalance w' = (\<lambda>_ _. 0) \<and> dom (Symbols w') = dom (Symbols w) \<union> fst ` set symbols \<and>
    (\<forall>i r. Restrictions w' i r \<noteq> None \<longleftrightarrow> Restrictions w i r \<noteq> None \<or> (\<exists>c\<in>set symbols. fst c = i \<and> r \<in> set (fst (snd (snd c)))))"
  using assms
proof (induction symbols arbitrary: w)
  case (Cons c cs)
  obtain i symb rs where c: "c = (i, symb, rs, [])" using Cons.prems(2) [of c] by (cases c) auto
  from Cons.prems(2) [of c] have "Symbols w i = None" by (simp add: c)
  from build_symbol_unfunded [OF this Cons.prems(3,4), of root symb rs] obtain w1 where
    w1: "build_symbol root c w = Ok () w1" "pallet w1 = pallet w" "RootKey w1 = RootKey w"
      "TotalIssuance w1 = (\<lambda>_. 0)" "FreeBalance w1 = (\<lambda>_ _. 0)" "Symbols w1 = (Symbols w)(i \<mapsto> symb)"
      "Restrictions w1 = (Restrictions w)(i := (\<lambda>r. if r \<in> set rs then Some () else Restrictions w i r))"
    by (auto simp: c)
  have new: "Symbols w1 (fst d) = None \<and> snd (snd (snd d)) = []" if "d \<in> set cs" for d
    using Cons.prems(1) Cons.prems(2) [of d] that by (auto simp: w1(6) c)
  have "distinct (map fst cs)" using Cons.prems(1) by simp
  from Cons.IH [OF this new w1(4,5)] obtain w' where
    w': "build root cs w1 = Ok () w'" "pallet w' = pallet w" "RootKey w' = RootKey w"
      "TotalIssuance w' = (\<lambda>_. 0)" "FreeBalance w' = (\<lambda>_ _. 0)" "dom (Symbols w') = dom (Symbols w1) \<union> fst ` set cs"
      "\<forall>i r. Restrictions w' i r \<noteq> None \<longleftrightarrow> Restrictions w1 i r \<noteq> None \<or> (\<exists>c\<in>set cs. fst c = i \<and> r \<in> set (fst (snd (snd c))))"
    by (auto simp: w1(2,3))
  have "build root (c # cs) w = Ok () w'" using w1(1) w'(1) by (simp add: build_def)
  moreover have "dom (Symbols w') = dom (Symbols w) \<union> fst ` set (c # cs)" by (auto simp: w'(6) w1(6) c)
  ultimately show ?case using w'(2-5,7) by (auto simp: w1(7) c)
qed (simp add: build_def)

lemma genesis_ids: "distinct (map fst genesis_symbols)" "\<And>c. c \<in> set genesis_symbols \<Longrightarrow> snd (snd (snd c)) = []"
  by (auto simp: genesis_symbols_def RFUEL_def LOCKED_RFUEL_def SBTC_def SUSDT_def)

lemma genesis_build:
  "\<exists>w0. build root genesis_symbols (genesis_world key p) = Ok () w0 \<and> pallet w0 = p \<and> RootKey w0 = key \<and>
     TotalIssuance w0 = (\<lambda>_. 0) \<and> FreeBalance w0 = (\<lambda>_ _. 0) \<and>
     dom (Symbols w0) = {RFUEL, LOCKED_RFUEL, SBTC, SUSDT, 101, 102, 103, 104, 105, 106} \<and>
     (\<forall>i r. Restrictions w0 i r \<noteq> None \<longleftrightarrow> i = LOCKED_RFUEL \<and> r = Transferable)"
proof -
  have "\<exists>w'. build root genesis_symbols (genesis_world key p) = Ok () w' \<and> pallet w' = p \<and> RootKey w' = key \<and>
    TotalIssuance w' = (\<lambda>_. 0) \<and> FreeBalance w' = (\<lambda>_ _. 0) \<and> dom (Symbols w') = fst ` set genesis_symbols \<and>
    (\<forall>i r. Restrictions w' i r \<noteq> None \<longleftrightarrow> (\<exists>c\<in>set genesis_symbols. fst c = i \<and> r \<in> set (fst (snd (snd c)))))"
    using build_unfunded [OF genesis_ids(1), of "genesis_world key p" root] genesis_ids(2) by (simp add: genesis_world_def)
  moreover have "fst ` set genesis_symbols = {RFUEL, LOCKED_RFUEL, SBTC, SUSDT, 101, 102, 103, 104, 105, 106}"
    by (simp add: genesis_symbols_def insert_commute)
  moreover have "(\<exists>c\<in>set genesis_symbols. fst c = i \<and> r \<in> set (fst (snd (snd c)))) \<longleftrightarrow> i = LOCKED_RFUEL \<and> r = Transferable" for i r
    by (auto simp: genesis_symbols_def)
  ultimately show ?thesis by simp
qed

text \<open>The root account of the genesis may update, mint and burn every asset that exists.\<close>

definition owned_by :: "account_id \<Rightarrow> 'p world \<Rightarrow> bool" where
  "owned_by root w \<longleftrightarrow> (\<forall>i what. Symbols w i \<noteq> None \<longrightarrow> check_permission w i root what)"

interpretation owned: effect_order "\<lambda>w w'. owned_by root w \<longrightarrow> owned_by root w'" for root
  by unfold_locales auto

lemma build_owned: "effects (\<lambda>w w'. owned_by root w \<longrightarrow> owned_by root w') (build root symbols)"
proof -
  let ?R = "\<lambda>w w' :: 'a world. owned_by root w \<longrightarrow> owned_by root w'"
  have "effects ?R (create_asset i symb None \<lparr>initial_issuance = 0,
      permissions = \<lparr>perm_update = Address root, perm_mint = Address root, perm_burn = Address root\<rparr>\<rparr>)" for i symb
  proof -
    have "permission_owner what (into_latest (into_versions \<lparr>perm_update = Address root, perm_mint = Address root,
        perm_burn = Address root\<rparr>)) = Address root" for what
      by (cases what) (simp_all add: into_versions_def)
    then show ?thesis
      by (auto intro!: effectsI simp: create_asset_apply owned_by_def check_permission_def Let_def split: if_splits)
  qed
  moreover have "effects ?R (update_restriction Root i r b)" "effects ?R (set_free_balance i who x)"
    "effects ?R (set_total_issuance i x)" for i r b who x
    by (auto intro!: effectsI simp: update_restriction_def assets_eqs owned_by_def check_permission_def and_then_apply)
  ultimately show ?thesis
    unfolding build_def build_symbol_def by (intro owned.effects_intros)
qed

lemma build_keeps_pallet: "effects keeps_pallet (build root symbols)"
proof -
  have "effects keeps_pallet (create_asset i symb None options)" "effects keeps_pallet (update_restriction Root i r b)"
    "effects keeps_pallet (set_free_balance i who x)" "effects keeps_pallet (set_total_issuance i x)" for i symb options r b who x
    by (auto intro!: effectsI simp: create_asset_apply update_restriction_def assets_eqs and_then_apply Let_def split: if_splits)
  then show ?thesis
    unfolding build_def build_symbol_def by (intro framed.effects_intros)
qed

text \<open>
  The seeds a chain derives its keys from: the accounts need a key of one kind, the authorities keys
  of both kinds, and the chain whose keys are written in the source needs none. A chain's
  configuration can be computed when the derivation accepts these seeds.
\<close>

fun authority_seeds :: "Alternative \<Rightarrow> string list" where
  "authority_seeds Development = [''Alice'']"
| "authority_seeds LocalTestnet = [''Alice'', ''Bob'']"
| "authority_seeds Testnet = [''Alice'', ''Bob'']"
| "authority_seeds Beta = []"

fun account_seeds :: "Alternative \<Rightarrow> string list" where
  "account_seeds Development = [''withdraw vault'', ''Eve''] @ dev_accounts"
| "account_seeds LocalTestnet = ''withdraw vault'' # testnet_accounts"
| "account_seeds Testnet = ''withdraw vault'' # testnet_accounts"
| "account_seeds Beta = []"

definition derives :: "crypto \<Rightarrow> Alternative \<Rightarrow> bool" where
  "derives cr alt \<longleftrightarrow>
     (\<forall>seed \<in> set (account_seeds alt @ authority_seeds alt). sr25519_from_string cr (''//'' @ seed) \<noteq> None) \<and>
     (\<forall>seed \<in> set (authority_seeds alt). ed25519_from_string cr (''//'' @ seed) \<noteq> None)"

lemma collect_run: "(\<And>x. x \<in> set xs \<Longrightarrow> \<exists>a. f x s = Ok a s) \<Longrightarrow> \<exists>as. collect f xs s = Ok as s"
proof (induction xs)
  case (Cons x xs)
  from Cons.prems [of x] obtain a where "f x s = Ok a s" by auto
  moreover from Cons obtain as where "collect f xs s = Ok as s" by auto
  ultimately show ?case by simp
qed simp

lemma account_seed_run:
  "sr25519_from_string cr (''//'' @ seed) \<noteq> None \<Longrightarrow> \<exists>a. get_account_id_from_seed cr seed s = Ok a s"
  by (auto simp: get_account_id_from_seed_def get_from_seed_def)

lemma authority_seed_run:
  "sr25519_from_string cr (''//'' @ seed) \<noteq> None \<Longrightarrow> ed25519_from_string cr (''//'' @ seed) \<noteq> None \<Longrightarrow>
   \<exists>k. get_authority_keys_from_seed cr seed s = Ok k s"
  by (auto simp: get_authority_keys_from_seed_def get_from_seed_def)

text \<open>What the configurations of all chains have in common.\<close>

definition shipped :: "GenesisConfig \<Rightarrow> bool" where
  "shipped cfg \<longleftrightarrow> rio_assets cfg = \<lparr>assets_root = sudo_key cfg, assets_symbols = genesis_symbols\<rparr> \<and>
     (\<exists>admin vault. rio_bridge cfg = \<lparr>bridge_asset_id = SBTC, bridge_threshold = 3000000000,
        bridge_admins = [(admin, AuthAll)], bridge_pending_withdraw_vault = vault\<rparr>)"

lemma seeded_genesis_run:
  assumes "\<forall>seed \<in> set ([''withdraw vault'', ''Eve'', ''Alice''] @ accounts @ authorities).
      sr25519_from_string cr (''//'' @ seed) \<noteq> None"
    and "\<forall>seed \<in> set authorities. ed25519_from_string cr (''//'' @ seed) \<noteq> None"
  shows "\<exists>cfg. seeded_genesis cr wasm authorities accounts s = Ok cfg s"
proof -
  obtain au where au: "collect (get_authority_keys_from_seed cr) authorities s = Ok au s"
    using collect_run [of authorities "get_authority_keys_from_seed cr" s, OF authority_seed_run] assms by auto
  obtain accs where accs: "collect (get_account_id_from_seed cr) accounts s = Ok accs s"
    using collect_run [of accounts "get_account_id_from_seed cr" s, OF account_seed_run] assms(1) by auto
  obtain al where al: "get_account_id_from_seed cr ''Alice'' s = Ok al s"
    using account_seed_run [of cr "''Alice''" s] assms(1) by auto
  obtain va where va: "get_account_id_from_seed cr ''withdraw vault'' s = Ok va s"
    using account_seed_run [of cr "''withdraw vault''" s] assms(1) by auto
  obtain ev where ev: "get_account_id_from_seed cr ''Eve'' s = Ok ev s"
    using account_seed_run [of cr "''Eve''" s] assms(1) by auto
  from au accs al va ev show ?thesis by (simp add: seeded_genesis_def testnet_genesis_def)
qed

lemma load_run:
  assumes "json default_properties = Some props"
  shows "\<exists>spec. load cr wasm json alt n = Ok spec n \<and> map_of CHAIN_TYPE alt = Some (spec_name spec, spec_id spec) \<and>
    (derives cr alt \<longrightarrow> (\<exists>cfg. spec_genesis spec s = Ok cfg s))"
  using assms
  by (cases alt)
    (auto simp: load_def CHAIN_TYPE_def beta_genesis_def derives_def dev_accounts_def testnet_accounts_def
      intro!: seeded_genesis_run)

text \<open>Whatever the keys are: a configuration that is computed has the common form.\<close>

lemma seeded_genesis_shipped: "seeded_genesis cr wasm authorities accounts s = Ok cfg t \<Longrightarrow> shipped cfg"
  by (auto simp: seeded_genesis_def testnet_genesis_def and_then_eq_Ok shipped_def)

lemma beta_genesis_shipped: "beta_genesis wasm au key accs b s = Ok cfg t \<Longrightarrow> shipped cfg"
  by (auto simp: beta_genesis_def shipped_def)

lemma load_shipped:
  assumes "load cr wasm json alt n = Ok spec n'" and "spec_genesis spec s = Ok cfg t"
  shows "shipped cfg"
  using assms
  by (cases alt)
    (auto simp: load_def CHAIN_TYPE_def and_then_eq_Ok dest: seeded_genesis_shipped beta_genesis_shipped)

lemma chain_ids: "map_of CHAIN_TYPE alt = Some (name, chain_id) \<Longrightarrow> set entries = set CHAIN_TYPE \<Longrightarrow>
  get_alternative_from_id entries chain_id s = Ok alt s"
proof -
  assume "map_of CHAIN_TYPE alt = Some (name, chain_id)" and entries: "set entries = set CHAIN_TYPE"
  then have mem: "(alt, name, chain_id) \<in> set entries" by (auto dest: map_of_SomeD)
  have uniq: "k = alt" if "(k, n, chain_id) \<in> set entries" for k n
    using mem that unfolding entries CHAIN_TYPE_def by auto
  from mem obtain k v where found: "find (\<lambda>(k, v). snd v = chain_id) entries = Some (k, v)"
    by (cases "find (\<lambda>(k, v). snd v = chain_id) entries") (auto simp: find_None_iff)
  then have "(k, v) \<in> set entries" and "snd v = chain_id" by (auto simp: find_Some_iff in_set_conv_nth)
  with uniq have "k = alt" by (cases v) auto
  with found show ?thesis by (simp add: get_alternative_from_id_def)
qed

lemma unknown_id:
  assumes "set entries = set CHAIN_TYPE" and "\<And>alt name. map_of CHAIN_TYPE alt \<noteq> Some (name, chain_id)"
  shows "get_alternative_from_id entries chain_id s = Err (Msg (''no support id in current `Alternative`:'' @ chain_id)) s"
proof -
  have "distinct (map fst CHAIN_TYPE)" by (simp add: CHAIN_TYPE_def)
  then have "(k, n, chain_id) \<notin> set entries" for k n
    using assms(2) [of k n] unfolding assms(1) by (simp add: map_of_eq_Some_iff)
  then have "find (\<lambda>(k, v). snd v = chain_id) entries = None" by (auto simp: find_None_iff)
  then show ?thesis by (simp add: get_alternative_from_id_def)
qed

lemma set_address_type_run:
  assumes "(case alternative_from key of Some a \<Rightarrow> return a
      | None \<Rightarrow> (case json_file key of Inl e \<Rightarrow> throw (Msg e) | Inr chain_id \<Rightarrow> get_alternative_from_id entries chain_id)) n = Ok alt n"
    and "fmt ''42'' = Some v"
  shows "set_address_type entries json_file fmt key n = Ok () (n\<lparr>default_ss58_version := v\<rparr>)"
  using assms by (cases alt) (simp_all add: set_address_type_def)

lemma shipped_storage:
  assumes "shipped cfg"
  shows "\<exists>w0. genesis_storage cfg = Ok () w0 \<and> supply_ok w0 \<and> pallet w0 = genesis_pallets cfg \<and> RootKey w0 = sudo_key cfg \<and>
    TotalIssuance w0 = (\<lambda>_. 0) \<and> FreeBalance w0 = (\<lambda>_ _. 0) \<and>
    dom (Symbols w0) = {RFUEL, LOCKED_RFUEL, SBTC, SUSDT, 101, 102, 103, 104, 105, 106} \<and>
    (\<forall>i r. Restrictions w0 i r \<noteq> None \<longleftrightarrow> i = LOCKED_RFUEL \<and> r = Transferable) \<and> owned_by (sudo_key cfg) w0"
proof -
  let ?w = "genesis_world (sudo_key cfg) (genesis_pallets cfg)"
  have own: "owned_by (sudo_key cfg) w0" if "build (sudo_key cfg) genesis_symbols ?w = Ok () w0" for w0
    using effects_Ok [OF build_owned that] by (simp add: owned_by_def genesis_world_def)
  have "\<exists>w'. build (sudo_key cfg) genesis_symbols ?w = Ok () w' \<and> supply_ok w'"
    by (rule build_run) (auto simp: supply_ok_genesis genesis_ids, simp add: genesis_world_def)
  moreover have "genesis_storage cfg = build (sudo_key cfg) genesis_symbols ?w"
    using assms by (simp add: genesis_storage_def shipped_def)
  ultimately show ?thesis
    using genesis_build [of "sudo_key cfg" "sudo_key cfg" "genesis_pallets cfg"] own by auto
qed

lemma loaded_storage:
  assumes "load cr wasm json alt n = Ok spec n'" and "spec_genesis spec s = Ok cfg t" and "genesis_storage cfg = Ok () w0"
  shows "supply_ok w0" and "pallet w0 = genesis_pallets cfg" and "FreeBalance w0 = (\<lambda>_ _. 0)"
    and "dom (Symbols w0) = {RFUEL, LOCKED_RFUEL, SBTC, SUSDT, 101, 102, 103, 104, 105, 106}"
    and "TotalIssuance w0 = (\<lambda>_. 0)" and "BridgeAssetId (pallet w0) = SBTC"
proof -
  note ship = load_shipped [OF assms(1,2)]
  from shipped_storage [OF this] assms(3)
  show "supply_ok w0" and p: "pallet w0 = genesis_pallets cfg" and "FreeBalance w0 = (\<lambda>_ _. 0)" "TotalIssuance w0 = (\<lambda>_. 0)"
    "dom (Symbols w0) = {RFUEL, LOCKED_RFUEL, SBTC, SUSDT, 101, 102, 103, 104, 105, 106}" by auto
  from ship show "BridgeAssetId (pallet w0) = SBTC"
    by (auto simp: p shipped_def genesis_pallets_def bridge_genesis_def)
qed

section \<open>Properties\<close>

text \<open>C37: the chain a name selects is the chain that starts. A supported name loads the specification
  whose identifier is read back as the same chain, in whatever order the table is iterated; any
  other name must be a file whose identifier is supported, or the selection fails, and the
  address format is set exactly when it succeeds.\<close>

theorem load_spec_decides:
  fixes json :: "string \<Rightarrow> 'j option"
  assumes "set entries = set CHAIN_TYPE" and "json default_properties = Some props" and "fmt ''42'' = Some v"
  shows "case alternative_from key of
      Some alt \<Rightarrow> (\<exists>spec :: ('s, 'j) ChainSpec. load_spec cr wasm json entries json_file fmt key n = Ok (Some spec) (n\<lparr>default_ss58_version := v\<rparr>) \<and>
        get_alternative_from_id entries (spec_id spec) n = Ok alt n)
    | None \<Rightarrow> (case json_file key of
        Inl e \<Rightarrow> (load_spec cr wasm json entries json_file fmt key n :: (node, ('s, 'j) ChainSpec option) res) = Err (Msg e) n
      | Inr chain_id \<Rightarrow> if \<exists>alt name. map_of CHAIN_TYPE alt = Some (name, chain_id)
          then (load_spec cr wasm json entries json_file fmt key n :: (node, ('s, 'j) ChainSpec option) res) = Ok None (n\<lparr>default_ss58_version := v\<rparr>)
          else \<exists>e. (load_spec cr wasm json entries json_file fmt key n :: (node, ('s, 'j) ChainSpec option) res) = Err e n)"
proof (cases "alternative_from key")
  case None
  show ?thesis
  proof (cases "json_file key")
    case (Inr chain_id)
    show ?thesis
    proof (cases "\<exists>alt name. map_of CHAIN_TYPE alt = Some (name, chain_id)")
      case True
      then obtain alt name where "map_of CHAIN_TYPE alt = Some (name, chain_id)" by blast
      from chain_ids [OF this assms(1), of n] have "set_address_type entries json_file fmt key n = Ok () (n\<lparr>default_ss58_version := v\<rparr>)"
        by (intro set_address_type_run [where fmt = fmt and alt = alt, OF _ assms(3)]) (simp add: None Inr)
      with True show ?thesis by (simp add: None Inr load_spec_def)
    next
      case False
      then have "set_address_type entries json_file fmt key n
          = Err (Msg (''no support id in current `Alternative`:'' @ chain_id)) n"
        using unknown_id [OF assms(1), of chain_id n] by (simp add: None Inr set_address_type_def)
      with False show ?thesis by (simp add: None Inr load_spec_def)
    qed
  qed (simp add: None load_spec_def set_address_type_def)
next
  case (Some alt)
  have addr: "set_address_type entries json_file fmt key n = Ok () (n\<lparr>default_ss58_version := v\<rparr>)"
    by (rule set_address_type_run [where fmt = fmt and alt = alt, OF _ assms(3)]) (simp add: Some)
  have "\<exists>spec :: ('s, 'j) ChainSpec. load cr wasm json alt (n\<lparr>default_ss58_version := v\<rparr>)
      = Ok spec (n\<lparr>default_ss58_version := v\<rparr>) \<and> map_of CHAIN_TYPE alt = Some (spec_name spec, spec_id spec)"
    by (rule ex_forward [OF load_run [where json = json, OF assms(2)]]) blast
  then obtain spec :: "('s, 'j) ChainSpec" where
    spec: "load cr wasm json alt (n\<lparr>default_ss58_version := v\<rparr>) = Ok spec (n\<lparr>default_ss58_version := v\<rparr>)"
      "map_of CHAIN_TYPE alt = Some (spec_name spec, spec_id spec)" by blast
  with addr
  have "load_spec cr wasm json entries json_file fmt key n = Ok (Some spec) (n\<lparr>default_ss58_version := v\<rparr>)"
    by (simp add: load_spec_def Some)
  with chain_ids [OF spec(2) assms(1)] show ?thesis by (simp add: Some)
qed

theorem load_spec_decides_witness:
  "\<exists>spec :: (unit, string) ChainSpec.
     load_spec \<lparr>sr25519_from_string = \<lambda>p. Some (of_nat (length p)), ed25519_from_string = \<lambda>_. None, into_account = \<lambda>k. k\<rparr> [] Some
       CHAIN_TYPE Inl (\<lambda>_. Some 42) ''beta'' \<lparr>default_ss58_version = 0\<rparr>
     = Ok (Some spec) \<lparr>default_ss58_version = 42\<rparr> \<and>
     get_alternative_from_id CHAIN_TYPE (spec_id spec) \<lparr>default_ss58_version = 0\<rparr> = Ok Beta \<lparr>default_ss58_version = 0\<rparr>"
proof -
  let ?cr = "\<lparr>sr25519_from_string = \<lambda>p. Some (of_nat (length p)), ed25519_from_string = \<lambda>_. None, into_account = \<lambda>k. k\<rparr>"
  have "alternative_from ''beta'' = Some Beta" by (simp add: alternative_from_def)
  with load_spec_decides [where entries = CHAIN_TYPE and v = 42 and props = default_properties and json = Some and fmt = "\<lambda>_. Some 42" and key = "''beta''"
      and cr = ?cr and wasm = "[]"
      and json_file = Inl and n = "\<lparr>default_ss58_version = 0\<rparr>"]
  show ?thesis by simp
qed

text \<open>C11: every chain starts. When key derivation accepts the seeds that the chain derives its keys
  from (none for the chain whose keys are written in the source), the specification of each supported chain
  loads, its genesis configuration is computed and the storage is built from it: the ten assets
  exist and nothing is issued, the issuance equals the holdings, the locked fee asset alone
  cannot be transferred, the root key may update, mint and burn every asset, and the bridge serves its asset with one administrator and nothing seen
  or pending.\<close>

theorem every_chain_starts:
  assumes "json default_properties = Some props" and "derives cr alt"
  shows "\<exists>spec cfg w0. load cr wasm json alt n = Ok spec n \<and> spec_genesis spec s = Ok cfg s \<and> genesis_storage cfg = Ok () w0 \<and>
    supply_ok w0 \<and> RootKey w0 = sudo_key cfg \<and> (\<forall>i. TotalIssuance w0 i = 0) \<and>
    dom (Symbols w0) = {RFUEL, LOCKED_RFUEL, SBTC, SUSDT, 101, 102, 103, 104, 105, 106} \<and>
    (\<forall>i r. Restrictions w0 i r \<noteq> None \<longleftrightarrow> i = LOCKED_RFUEL \<and> r = Transferable) \<and> owned_by (sudo_key cfg) w0 \<and>
    BridgeAssetId (pallet w0) = SBTC \<and> (\<exists>admin. Admins (pallet w0) = [admin \<mapsto> AuthAll]) \<and>
    (\<forall>h. \<not> is_tx_seen w0 h) \<and> (\<forall>a. PendingWithdraws (pallet w0) a = None)"
proof -
  from load_run [where json = json, OF assms(1), of cr wasm alt n s] assms(2) obtain spec cfg where
    run: "load cr wasm json alt n = Ok spec n" "spec_genesis spec s = Ok cfg s" by blast
  note ship = load_shipped [OF this]
  then obtain admin vault where "rio_bridge cfg = \<lparr>bridge_asset_id = SBTC, bridge_threshold = 3000000000,
      bridge_admins = [(admin, AuthAll)], bridge_pending_withdraw_vault = vault\<rparr>" by (auto simp: shipped_def)
  with shipped_storage [OF ship] run show ?thesis
    by (auto simp: genesis_pallets_def bridge_genesis_def is_tx_seen_def)
qed

theorem every_chain_starts_witness:
  "\<exists>(spec :: (unit, string) ChainSpec) cfg w0.
     load \<lparr>sr25519_from_string = \<lambda>p. Some (of_nat (length p)), ed25519_from_string = \<lambda>p. if p = ''//Eve'' then None else Some 7, into_account = \<lambda>k. k\<rparr> [] Some
       LocalTestnet () = Ok spec () \<and>
     spec_genesis spec () = Ok cfg () \<and> genesis_storage cfg = Ok () w0 \<and> supply_ok w0 \<and> BridgeAssetId (pallet w0) = SBTC"
proof -
  let ?cr = "\<lparr>sr25519_from_string = \<lambda>p. Some (of_nat (length p)), ed25519_from_string = \<lambda>p. if p = ''//Eve'' then None else Some 7, into_account = \<lambda>k. k\<rparr>"
  have "derives ?cr LocalTestnet" by (simp add: derives_def)
  from every_chain_starts [where json = Some, OF refl this, of "[]" "()" "()"] show ?thesis by blast
qed

text \<open>C38: a fresh chain takes no paid transaction. In the storage built from the configuration of any
  supported chain nobody holds the fee asset, not even the accounts the configuration calls
  endowed: every transaction that pays a fee is rejected, and only calls that are free of charge,
  such as those of the root key, are accepted.\<close>

theorem fresh_chain_rejects_fees:
  assumes "load cr wasm json alt n = Ok spec n'" and "spec_genesis spec s = Ok cfg t" and "genesis_storage cfg = Ok () w0"
  shows "(pays_fee info \<longrightarrow> (\<exists>w'. validate (runtime_tx_config accumulate) on_unb tip who info len w0 = Err (Invalid Payment) w')) \<and>
    (\<not> pays_fee info \<longrightarrow> validate (runtime_tx_config accumulate) on_unb 0 who info len w0 = Ok 0 w0)"
proof -
  note w0 = loaded_storage(3,4) [OF assms]
  have "LOCKED_RFUEL \<in> dom (Symbols w0)" "RFUEL \<in> dom (Symbols w0)" by (simp_all add: w0(2))
  then have ex: "Symbols w0 LOCKED_RFUEL \<noteq> None" "Symbols w0 RFUEL \<noteq> None" by auto
  let ?fee = "compute_fee (runtime_tx_config accumulate) (NextFeeMultiplier (pallet w0)) (ucast len) info tip"
  have "\<exists>w'. validate (runtime_tx_config accumulate) on_unb tip who info len w0 = Err (Invalid Payment) w'" if "pays_fee info"
  proof -
    have "10 * CENTS \<le> ?fee" using compute_fee_bounds(2) [OF that, of "runtime_tx_config accumulate"] by (simp add: runtime_tx_config_def)
    then have "0 < ?fee" by (rule less_le_trans [rotated]) (simp add: CENTS_def)
    then show ?thesis
      using validate_rejects [OF ex refl refl, of who "runtime_tx_config accumulate" len info tip on_unb] by (auto simp: w0(1))
  qed
  then show ?thesis by (auto simp: validate_def compute_fee_unpaid saturated_into_u64_def try_into_u64_def)
qed

theorem fresh_chain_rejects_fees_witness:
  "\<exists>(spec :: (unit, string) ChainSpec) cfg w0 w'.
     load \<lparr>sr25519_from_string = \<lambda>_. None, ed25519_from_string = \<lambda>_. None, into_account = \<lambda>k. k\<rparr> [] Some
       Beta () = Ok spec () \<and>
     spec_genesis spec () = Ok cfg () \<and> genesis_storage cfg = Ok () w0 \<and>
     validate (runtime_tx_config (\<lambda>_ b. b)) on_nonzero_unbalanced 0 0x167056fa07ae7bc1d36da5520dd8c4c06cb5a5db557986f0c6ae2af0030d4c44
       \<lparr>info_weight = 10, info_class = Normal, pays_fee = True\<rparr> 100 w0 = Err (Invalid Payment) w'"
proof -
  let ?cr = "\<lparr>sr25519_from_string = \<lambda>_. None, ed25519_from_string = \<lambda>_. None, into_account = \<lambda>k. k\<rparr>"
  have der: "derives ?cr Beta" by (simp add: derives_def)
  have "\<exists>spec :: (unit, string) ChainSpec. load ?cr [] Some Beta () = Ok spec () \<and> (\<exists>cfg. spec_genesis spec () = Ok cfg ())"
    by (rule ex_forward [OF load_run [where json = Some, OF refl]]) (use der in blast)
  then obtain spec :: "(unit, string) ChainSpec" and cfg where
    run: "load ?cr [] Some Beta () = Ok spec ()" "spec_genesis spec () = Ok cfg ()" by blast
  from shipped_storage [OF load_shipped [OF run]] obtain w0 where w0: "genesis_storage cfg = Ok () w0" by blast
  from fresh_chain_rejects_fees [OF run w0, of "\<lparr>info_weight = 10, info_class = Normal, pays_fee = True\<rparr>"
      "\<lambda>_ b. b" on_nonzero_unbalanced 0 "0x167056fa07ae7bc1d36da5520dd8c4c06cb5a5db557986f0c6ae2af0030d4c44" 100]
  obtain w' where "validate (runtime_tx_config (\<lambda>_ b. b)) on_nonzero_unbalanced 0 0x167056fa07ae7bc1d36da5520dd8c4c06cb5a5db557986f0c6ae2af0030d4c44
       \<lparr>info_weight = 10, info_class = Normal, pays_fee = True\<rparr> 100 w0 = Err (Invalid Payment) w'" by auto
  with run w0 show ?thesis by blast
qed

end
