(* ===== verification/Runtime.thy ===== *)
theory Runtime
  imports Chain_Spec
begin

text \<open>
  The wiring of \<^verbatim>\<open>runtime/src/lib.rs\<close>: the pallets that \<open>construct_runtime!\<close> puts together, their
  calls as one type, what runs at the end of a block, and the chain as a state machine. The
  runtime installs no listener of the assets pallet and leaves the loan and saving pallets out.
  The membership test of the oracle collective, the fixed-point multiplication of the fee and the
  wrapper that hands a withdrawn fee to the fee pallet belong to the framework and are parameters.
\<close>

section \<open>The pallets put together\<close>

definition runtime_hooks :: "'p hooks" where
  "runtime_hooks =
     \<lparr>before_asset_create = \<lambda>_. return (), on_asset_create = \<lambda>_. return (),
      before_asset_transfer = \<lambda>_ _ _ _. return (), on_asset_transfer = \<lambda>_ _ _ _. return (),
      before_asset_mint = \<lambda>_ _ _. return (), on_asset_mint = \<lambda>_ _ _. return (),
      before_asset_burn = \<lambda>_ _ _. return (), on_asset_burn = \<lambda>_ _ _. return ()\<rparr>"

datatype RuntimeCall =
    RioAssetsCall AssetsCall
  | RioFeeCall account_id
  | RioPriceCall price
  | RioBridgeCall BridgeCall

fun dispatch_runtime ::
  "(origin \<Rightarrow> account_id option) \<Rightarrow> origin \<Rightarrow> RuntimeCall \<Rightarrow> ('z bridge_store_scheme world, unit) op" where
  "dispatch_runtime member og (RioAssetsCall c) = dispatch_assets runtime_hooks og c"
| "dispatch_runtime member og (RioFeeCall who) = set_account og who"
| "dispatch_runtime member og (RioPriceCall p) = report member (RioOracle ReportInteval) og p"
| "dispatch_runtime member og (RioBridgeCall c) = dispatch_bridge runtime_hooks og c"

definition all_modules_on_finalize ::
  "(multiplier \<Rightarrow> balance \<Rightarrow> balance) \<Rightarrow> weight \<Rightarrow> ('z bridge_store_scheme world, unit) op" where
  "all_modules_on_finalize accumulate weight = steps
     [tx_on_finalize (runtime_tx_config accumulate) weight,
      price_on_finalize (RioOracle ReportInteval) (\<lambda>_. return ())]"

lemma runtime_hooks_unit [simp]: "runtime_hooks = unit_hooks"
  by (simp add: runtime_hooks_def unit_hooks_def)

section \<open>The chain as a state machine\<close>

text \<open>
  One step of the chain as far as the pallets see it: a call of a pallet, successful or not, the
  payment check of a transaction, the end of a block, or the framework moving time on.
\<close>

inductive runtime_reach ::
  "(multiplier \<Rightarrow> balance \<Rightarrow> balance) \<Rightarrow> (NegativeImbalance \<Rightarrow> ('z bridge_store_scheme world, unit) op) \<Rightarrow>
   (origin \<Rightarrow> account_id option) \<Rightarrow> 'z bridge_store_scheme world \<Rightarrow> 'z bridge_store_scheme world \<Rightarrow> bool"
  for accumulate on_unb member w0 where
  genesis: "runtime_reach accumulate on_unb member w0 w0"
| call: "runtime_reach accumulate on_unb member w0 w \<Longrightarrow>
    final (dispatch_runtime member og c w) = Some w' \<Longrightarrow> runtime_reach accumulate on_unb member w0 w'"
| block_end: "runtime_reach accumulate on_unb member w0 w \<Longrightarrow>
    final (all_modules_on_finalize accumulate weight w) = Some w' \<Longrightarrow>
    runtime_reach accumulate on_unb member w0 w'"
| payment: "runtime_reach accumulate on_unb member w0 w \<Longrightarrow>
    final (validate (runtime_tx_config accumulate) on_unb tip who info len w) = Some w' \<Longrightarrow>
    runtime_reach accumulate on_unb member w0 w'"
| framework: "runtime_reach accumulate on_unb member w0 w \<Longrightarrow>
    runtime_reach accumulate on_unb member w0
      (w\<lparr>BlockNumber := n, Timestamp := now, ExtrinsicIndex := x, RootKey := key\<rparr>)"

section \<open>The order at the end of a block\<close>

text \<open>
  The framework decides in which order the modules finish a block. The multiplier of the fee and
  the price are kept apart, so the order makes no difference.
\<close>

lemma finish_price_frame:
  "\<exists>t. price_on_finalize (RioOracle d) (\<lambda>_. return ()) w = Ok () t \<and>
     price_on_finalize (RioOracle d) (\<lambda>_. return ()) (w\<lparr>pallet := (pallet w)\<lparr>NextFeeMultiplier := m\<rparr>\<rparr>) =
       Ok () (t\<lparr>pallet := (pallet t)\<lparr>NextFeeMultiplier := m\<rparr>\<rparr>) \<and> NextFeeMultiplier (pallet t) = NextFeeMultiplier (pallet w)"
proof (cases "PriceReports (pallet w) = []")
  case True
  then show ?thesis by (simp add: price_on_finalize_def)
next
  case False
  then obtain c where "\<And>s :: 'a price_store_scheme world. median (map report_price (PriceReports (pallet w))) s = Ok c s"
    using median_pure [of "map report_price (PriceReports (pallet w))"] by auto
  with False show ?thesis
    by (cases "CurrentPrice (pallet w) = c") (simp_all add: price_on_finalize_def RioOracle_def is_valid_def)
qed

lemma finalize_order:
  "all_modules_on_finalize accumulate weight = steps
     [price_on_finalize (RioOracle ReportInteval) (\<lambda>_. return ()),
      tx_on_finalize (runtime_tx_config accumulate) weight]"
proof
  fix w :: "'a bridge_store_scheme world"
  let ?m = "FeeMultiplierUpdate (runtime_tx_config accumulate) (weight, NextFeeMultiplier (pallet w))"
  obtain t where "price_on_finalize (RioOracle ReportInteval) (\<lambda>_. return ()) w = Ok () t"
    "price_on_finalize (RioOracle ReportInteval) (\<lambda>_. return ()) (w\<lparr>pallet := (pallet w)\<lparr>NextFeeMultiplier := ?m\<rparr>\<rparr>) =
       Ok () (t\<lparr>pallet := (pallet t)\<lparr>NextFeeMultiplier := ?m\<rparr>\<rparr>)"
    "NextFeeMultiplier (pallet t) = NextFeeMultiplier (pallet w)"
    using finish_price_frame [of ReportInteval w ?m] by blast
  then show "all_modules_on_finalize accumulate weight w = steps
     [price_on_finalize (RioOracle ReportInteval) (\<lambda>_. return ()),
      tx_on_finalize (runtime_tx_config accumulate) weight] w"
    by (simp add: all_modules_on_finalize_def tx_on_finalize_def)
qed

section \<open>Supply\<close>

lemma price_calls_keep_supply:
  "effects keeps_supply (report member (RioOracle t) og p)"
  "effects keeps_supply (price_on_finalize (RioOracle t) (\<lambda>_. return ()))"
  "effects keeps_supply (tx_on_finalize cfg weight)"
  "effects keeps_supply (set_account og who)"
  unfolding report_def add_price_def price_on_finalize_def price_event_def tx_on_finalize_def set_account_def
    fee_event_def RioOracle_simps on_witnessed_def median_def mean_def index_def
  by (intro kept.effects_intros mutate_keeps_supply)+

lemma dispatch_runtime_supply: "effects keeps_supply (dispatch_runtime member og c)"
  by (cases c) (simp_all add: dispatch_assets_supply unit_supply.dispatch_bridge_supply price_calls_keep_supply)

lemma finalize_supply: "effects keeps_supply (all_modules_on_finalize accumulate weight)"
  unfolding all_modules_on_finalize_def by (intro kept.effects_intros price_calls_keep_supply)

section \<open>Every run of the chain is a run of the bridge\<close>

interpretation deposits: effect_order "same_deposits :: 'z bridge_store_scheme world \<Rightarrow> _"
  by unfold_locales (simp_all add: same_deposits_def)

lemma framed_keeps_deposits: "effects keeps_pallet m \<Longrightarrow> effects same_deposits m"
  by (simp add: effects_def same_deposits_def)

lemma mutate_keeps_deposits:
  assumes "\<And>p. BridgeEvents (f p) = BridgeEvents p" and "\<And>p. DepositHistory (f p) = DepositHistory p"
    and "\<And>p. PendingDepositList (f p) = PendingDepositList p"
  shows "effects same_deposits (mutate f)"
  using assms by (auto intro!: effectsI simp: same_deposits_def)

lemma other_pallets_keep_deposits:
  "effects same_deposits (report member (RioOracle t) og p)"
  "effects same_deposits (price_on_finalize (RioOracle t) (\<lambda>_. return ()))"
  "effects same_deposits (tx_on_finalize cfg weight)"
  "effects same_deposits (set_account og who)"
  unfolding report_def add_price_def price_on_finalize_def price_event_def tx_on_finalize_def set_account_def
    fee_event_def RioOracle_simps on_witnessed_def median_def mean_def index_def
  by (intro deposits.effects_intros mutate_keeps_deposits; simp)+

lemma other_calls_keep_deposits:
  "\<nexists>b. c = RioBridgeCall b \<Longrightarrow> effects same_deposits (dispatch_runtime member og c)"
  by (cases c) (simp_all add: other_pallets_keep_deposits framed_keeps_deposits dispatch_assets_keeps_pallet)

lemma validate_keeps_deposits: "effects same_deposits (validate cfg on_nonzero_unbalanced tip who info len)"
  unfolding validate_def on_nonzero_unbalanced_def fee_event_def buy_fee_asset_def
  by (intro deposits.effects_intros currency_keeps_pallet [THEN framed_keeps_deposits] mutate_keeps_deposits; simp)

lemma runtime_refines_bridge:
  assumes "runtime_reach accumulate on_unb member w0 w"
    and "\<And>n. neg_peek n \<noteq> 0 \<Longrightarrow> on_unb n = on_nonzero_unbalanced n"
  shows "bridge_reach unit_hooks w0 w"
  using assms
proof (induction rule: runtime_reach.induct)
  case (call w og c w')
  show ?case
  proof (cases "\<exists>b. c = RioBridgeCall b")
    case True
    with call show ?thesis by (auto intro: bridge_reach.call)
  next
    case False
    from bridge_reach.other [OF call.IH [OF call.prems] effectsD [OF other_calls_keep_deposits [OF False] call.hyps(2)]]
    show ?thesis .
  qed
next
  case (block_end w weight w')
  have "effects same_deposits (all_modules_on_finalize accumulate weight)"
    unfolding all_modules_on_finalize_def by (intro deposits.effects_intros other_pallets_keep_deposits)
  from bridge_reach.other [OF block_end.IH [OF block_end.prems] effectsD [OF this block_end.hyps(2)]] show ?case .
next
  case (payment w tip who info len w')
  from payment.hyps(2) have "final (validate (runtime_tx_config accumulate) on_nonzero_unbalanced tip who info len w) = Some w'"
    by (simp add: validate_handler [OF payment.prems])
  from bridge_reach.other [OF payment.IH [OF payment.prems] effectsD [OF validate_keeps_deposits this]] show ?case .
qed (auto intro: bridge_reach.start bridge_reach.other simp: same_deposits_def)

section \<open>The first deposit\<close>

text \<open>A chain starts in working order: its administrator can credit a deposit below the threshold.\<close>

lemma shipped_deposit:
  assumes "shipped cfg" and "x < 3000000000"
  shows "\<exists>w0 w admin. genesis_storage cfg = Ok () w0 \<and> deposit unit_hooks (Signed admin) who x h w0 = Ok () w \<and>
    credited (BridgeEvents (pallet w)) = [h] \<and> TotalIssuance w SBTC = x"
proof -
  from assms(1) obtain admin vault where b: "rio_bridge cfg = \<lparr>bridge_asset_id = SBTC, bridge_threshold = 3000000000,
      bridge_admins = [(admin, AuthAll)], bridge_pending_withdraw_vault = vault\<rparr>" by (auto simp: shipped_def)
  from shipped_storage [OF assms(1)] obtain w0 where w0: "genesis_storage cfg = Ok () w0" "supply_ok w0"
    "pallet w0 = genesis_pallets cfg" "RootKey w0 = sudo_key cfg" "TotalIssuance w0 = (\<lambda>_. 0)" "SBTC \<in> dom (Symbols w0)"
    "owned_by (sudo_key cfg) w0" by auto
  have p: "BridgeAssetId (pallet w0) = SBTC" "Threshold (pallet w0) = 3000000000" "Admins (pallet w0) = [admin \<mapsto> AuthAll]"
    "DepositHistory (pallet w0) = (\<lambda>_. None)" "BridgeEvents (pallet w0) = []"
    by (simp_all add: w0(3) genesis_pallets_def b bridge_genesis_def)
  from w0(6) have sym: "Symbols w0 SBTC \<noteq> None" by auto
  with w0(7) have "check_permission w0 SBTC (RootKey w0) Mint" by (simp add: owned_by_def w0(4))
  moreover have "unat x < 2 ^ 128" using unat_bound [of x] by simp
  ultimately obtain w where "simple_deposit_with_event unit_hooks who x h w0 = Ok () w"
      "credited (BridgeEvents (pallet w)) = [h]" "TotalIssuance w SBTC = x"
    using simple_deposit_run [of w0 x who h] sym w0(2,5) by (auto simp: p)
  moreover have "\<not> 3000000000 \<le> x" using assms(2) by simp
  ultimately have "deposit unit_hooks (Signed admin) who x h w0 = Ok () w"
    by (simp add: deposit_def is_tx_seen_def has_auth_def p)
  with w0(1) \<open>credited _ = _\<close> \<open>TotalIssuance w SBTC = x\<close> show ?thesis by blast
qed

end
