(* ===== verification/Chain_Run.thy ===== *)
theory Chain_Run
  imports Runtime
begin

text \<open>
  The chain as a function: a run is a list of steps, and \<open>chain_run\<close> computes the storage it ends
  in. Its runs are exactly what \<open>runtime_reach\<close> reaches. With the steps at hand one can say which
  of them touch the vault of the bridge: as long as none does, whatever else happens on the chain
  leaves the pending withdrawals covered. In the same way, as long as the root origin does not
  issue the bridged asset itself, its issuance is exactly what the bridge has credited.

  Settling a fee saturates when the issuance of the fee assets is near the end of its range, and a
  saturated issuance no longer matches the holdings. Only the root origin can issue a fee asset,
  so the bound of these theorems is on what it issues over the whole run: \<open>fee_issued\<close>.
\<close>

section \<open>Runs as lists of steps\<close>

datatype ChainStep =
    StepCall origin RuntimeCall
  | StepPayment balance account_id DispatchInfo u64
  | StepBlockEnd weight
  | StepFramework block_number moment "u32 option" account_id

fun chain_step ::
  "(multiplier \<Rightarrow> balance \<Rightarrow> balance) \<Rightarrow> (NegativeImbalance \<Rightarrow> ('z bridge_store_scheme world, unit) op) \<Rightarrow>
   (origin \<Rightarrow> account_id option) \<Rightarrow> ChainStep \<Rightarrow> 'z bridge_store_scheme world \<Rightarrow> 'z bridge_store_scheme world option" where
  "chain_step accumulate on_unb member (StepCall og c) w = final (dispatch_runtime member og c w)"
| "chain_step accumulate on_unb member (StepPayment tip who info len) w =
     final (validate (runtime_tx_config accumulate) on_unb tip who info len w)"
| "chain_step accumulate on_unb member (StepBlockEnd weight) w = final (all_modules_on_finalize accumulate weight w)"
| "chain_step accumulate on_unb member (StepFramework n now x key) w =
     Some (w\<lparr>BlockNumber := n, Timestamp := now, ExtrinsicIndex := x, RootKey := key\<rparr>)"

fun chain_run ::
  "(multiplier \<Rightarrow> balance \<Rightarrow> balance) \<Rightarrow> (NegativeImbalance \<Rightarrow> ('z bridge_store_scheme world, unit) op) \<Rightarrow>
   (origin \<Rightarrow> account_id option) \<Rightarrow> ChainStep list \<Rightarrow> 'z bridge_store_scheme world \<Rightarrow> 'z bridge_store_scheme world option" where
  "chain_run accumulate on_unb member [] w = Some w"
| "chain_run accumulate on_unb member (s # ss) w =
     Option.bind (chain_step accumulate on_unb member s w) (chain_run accumulate on_unb member ss)"

text \<open>The steps that act on the vault's own account: they may take what withdrawers are owed.\<close>

fun spends_vault :: "account_id \<Rightarrow> asset_id \<Rightarrow> ChainStep \<Rightarrow> bool" where
  "spends_vault v i (StepCall og (RioAssetsCall c)) \<longleftrightarrow> takes_from v i og c"
| "spends_vault v i (StepCall og (RioBridgeCall (CallWithdraw who x))) \<longleftrightarrow> who = v"
| "spends_vault v i _ \<longleftrightarrow> False"

lemma chain_run_append:
  "chain_run accumulate on_unb member (ss @ ts) w =
     Option.bind (chain_run accumulate on_unb member ss w) (chain_run accumulate on_unb member ts)"
  by (induction ss arbitrary: w) (auto split: Option.bind_splits)

lemma chain_step_reach:
  assumes "runtime_reach accumulate on_unb member w0 w" and "chain_step accumulate on_unb member s w = Some w'"
  shows "runtime_reach accumulate on_unb member w0 w'"
  using assms by (cases s) (auto intro: runtime_reach.intros split: if_splits)

lemma chain_run_reach_from:
  assumes "chain_run accumulate on_unb member ss w = Some w'" and "runtime_reach accumulate on_unb member w0 w"
  shows "runtime_reach accumulate on_unb member w0 w'"
  using assms
  by (induction ss arbitrary: w) (auto intro: chain_step_reach split: Option.bind_splits)

lemma reach_extend:
  assumes "\<exists>ss. chain_run accumulate on_unb member ss w0 = Some w" and "chain_step accumulate on_unb member s w = Some w'"
  shows "\<exists>ss. chain_run accumulate on_unb member ss w0 = Some w'"
proof -
  from assms(1) obtain ss where "chain_run accumulate on_unb member ss w0 = Some w" by blast
  with assms(2) have "chain_run accumulate on_unb member (ss @ [s]) w0 = Some w'"
    by (simp add: chain_run_append)
  then show ?thesis by blast
qed

lemma chain_run_iff_reach:
  "(\<exists>ss. chain_run accumulate on_unb member ss w0 = Some w) \<longleftrightarrow> runtime_reach accumulate on_unb member w0 w"
proof
  assume "runtime_reach accumulate on_unb member w0 w"
  then show "\<exists>ss. chain_run accumulate on_unb member ss w0 = Some w"
  proof induction
    case genesis
    have "chain_run accumulate on_unb member [] w0 = Some w0" by simp
    then show ?case by blast
  next
    case (call w og c w')
    then show ?case by (auto intro: reach_extend [where s = "StepCall og c"])
  next
    case (block_end w weight w')
    then show ?case by (auto intro: reach_extend [where s = "StepBlockEnd weight"])
  next
    case (payment w tip who info len w')
    then show ?case by (auto intro: reach_extend [where s = "StepPayment tip who info len"])
  next
    case (framework w key x now n)
    then show ?case by (auto intro: reach_extend [where s = "StepFramework n now x key"])
  qed
qed (auto intro: chain_run_reach_from runtime_reach.genesis)

section \<open>The issuance of the fee assets\<close>

lemma SBTC_pays_no_fees [simp]: "SBTC \<noteq> RFUEL" "SBTC \<noteq> LOCKED_RFUEL"
  by (simp_all add: SBTC_def RFUEL_def LOCKED_RFUEL_def)

text \<open>
  What a step can add to the issuance of the two fee assets: only the root origin's calls that mint
  or create one of them. A payment check keeps the sum of the two.
\<close>

fun fee_issued :: "ChainStep \<Rightarrow> nat" where
  "fee_issued (StepCall og (RioAssetsCall (CallMint i to x))) =
     (if og = Root \<and> (i = RFUEL \<or> i = LOCKED_RFUEL) then unat x else 0)"
| "fee_issued (StepCall og (RioAssetsCall (CallCreate b i symb))) =
     (if og = Root \<and> (i = RFUEL \<or> i = LOCKED_RFUEL) then unat b else 0)"
| "fee_issued _ = 0"

text \<open>The other pallets issue nothing but the bridged asset.\<close>

definition issues_none :: "'z bridge_store_scheme world \<Rightarrow> 'z bridge_store_scheme world \<Rightarrow> bool" where
  "issues_none w w' \<longleftrightarrow> BridgeAssetId (pallet w') = BridgeAssetId (pallet w) \<and>
     (\<forall>i. i \<noteq> BridgeAssetId (pallet w) \<longrightarrow> TotalIssuance w' i = TotalIssuance w i)"

interpretation none: effect_order issues_none
  by unfold_locales (auto simp: issues_none_def)

lemma issues_none_fees:
  "issues_none w w' \<Longrightarrow> BridgeAssetId (pallet w) \<notin> {RFUEL, LOCKED_RFUEL} \<Longrightarrow> fee_issuance w' = fee_issuance w"
  unfolding issues_none_def fee_issuance_def by (metis insertCI)

lemma mutate_issues_none:
  assumes "\<And>p. BridgeAssetId (f p) = BridgeAssetId p"
  shows "effects issues_none (mutate f)"
  using assms by (auto intro!: effectsI simp: issues_none_def)

lemma bridge_event_issues_none: "effects issues_none (bridge_event e)"
  unfolding bridge_event_def by (intro mutate_issues_none) simp

lemma transfer_issues_none: "effects issues_none (make_transfer_with_event j from to x)"
  by (rule effectsI) (auto simp: make_transfer_with_event_sent issues_none_def split: if_splits)

lemma simple_deposit_issues_none: "effects issues_none (simple_deposit_with_event unit_hooks a x h)"
  by (rule effectsI)
    (auto simp: simple_deposit_with_event_def Let_def mint_def unit_hooks_def mint_free_apply deposit_event_apply
      unwrap_or_default_apply bridge_event_def and_then_apply issues_none_def split: if_splits)

lemma release_pendings_issues_none: "effects issues_none (release_pendings unit_hooks acc ds)"
proof (induction ds)
  case Nil
  show ?case by (simp only: release_pendings.simps none.effects_return)
next
  case (Cons d ds)
  show ?case
    unfolding release_pendings.simps
    by (intro none.effects_intros simple_deposit_issues_none mutate_issues_none Cons.IH) simp_all
qed

lemma bridge_issues_none: "effects issues_none (dispatch_bridge unit_hooks og c)"
  by (cases c; simp only: dispatch_bridge.simps pause_def resume_def delete_admin_def update_admin_def deposit_def
      hold_deposit_with_event_def refund_def withdraw_finish_def withdraw_def mark_black_def mark_white_def mark_with_event_def
      mark_def remove_from_pending_withdraws_def;
      intro none.effects_intros simple_deposit_issues_none release_pendings_issues_none transfer_issues_none
        bridge_event_issues_none mutate_issues_none;
      simp)

lemma other_pallets_issue_none:
  "effects issues_none (report member (RioOracle t) og p)"
  "effects issues_none (price_on_finalize (RioOracle t) (\<lambda>_. return ()))"
  "effects issues_none (tx_on_finalize cfg weight)"
  "effects issues_none (set_account og who)"
  unfolding report_def add_price_def price_on_finalize_def price_event_def tx_on_finalize_def set_account_def
    fee_event_def RioOracle_simps on_witnessed_def median_def mean_def index_def
  by (intro none.effects_intros mutate_issues_none; simp)+

lemma finalize_issues_none: "effects issues_none (all_modules_on_finalize accumulate weight)"
  unfolding all_modules_on_finalize_def by (intro none.effects_intros other_pallets_issue_none)

lemma other_calls_issue_none:
  "\<nexists>a. c = RioAssetsCall a \<Longrightarrow> effects issues_none (dispatch_runtime member og c)"
  by (cases c) (simp_all add: bridge_issues_none other_pallets_issue_none)

lemma assets_fee_issuance:
  assumes run: "final (dispatch_assets unit_hooks og c w) = Some w'"
  shows "fee_issuance w' \<le> fee_issuance w + fee_issued (StepCall og (RioAssetsCall c))"
proof (cases c)
  case (CallMint i to x)
  with run have "TotalIssuance w' = TotalIssuance w \<or> og = Root \<and> unat (TotalIssuance w i) + unat x < 2 ^ 128 \<and>
      TotalIssuance w' = (TotalIssuance w)(i := TotalIssuance w i + x)"
    by (auto simp: mint_def unit_hooks_def mint_free_apply deposit_event_apply checked_add_def
        unwrap_or_default_apply and_then_apply split: origin.splits if_splits)
  then show ?thesis by (auto simp: CallMint fee_issuance_def unat_plus)
next
  case (CallCreate b i symb)
  with run have "TotalIssuance w' = TotalIssuance w \<or> og = Root \<and> TotalIssuance w' = (TotalIssuance w)(i := b)"
    by (auto simp: create_def create_asset_apply and_then_apply Let_def split: origin.splits if_splits)
  then show ?thesis by (auto simp: CallCreate fee_issuance_def)
next
  case (CallBurn i who x)
  with run have "TotalIssuance w' = TotalIssuance w \<or> x \<le> TotalIssuance w i \<and>
      TotalIssuance w' = (TotalIssuance w)(i := TotalIssuance w i - x)"
    by (auto simp: burn_def unit_hooks_def burn_free_apply deposit_event_apply not_less
        unwrap_or_default_apply and_then_apply split: origin.splits if_splits)
  then show ?thesis by (auto simp: CallBurn fee_issuance_def unat_minus word_le_nat_alt)
qed (use run in \<open>auto simp: transfer_def unit_hooks_def set_reserve_def set_unreserve_def fee_issuance_def
      update_permission_def update_restriction_def assets_eqs make_transfer_with_event_sent unwrap_or_default_apply
      and_then_apply Let_def split: origin.splits if_splits\<close>)

lemma chain_step_fees:
  assumes handler: "\<And>n. neg_peek n \<noteq> 0 \<Longrightarrow> on_unb n = on_nonzero_unbalanced n"
    and ok: "supply_ok w" and other: "BridgeAssetId (pallet w) \<notin> {RFUEL, LOCKED_RFUEL}" and room: "fee_issuance w < 2 ^ 127"
    and run: "chain_step accumulate on_unb member s w = Some w'"
  shows "supply_ok w' \<and> BridgeAssetId (pallet w') = BridgeAssetId (pallet w) \<and> fee_issuance w' \<le> fee_issuance w + fee_issued s"
proof (cases s)
  case (StepCall og c)
  with run have run': "final (dispatch_runtime member og c w) = Some w'" by simp
  have "supply_ok w'" using effectsD [OF dispatch_runtime_supply run'] ok by blast
  moreover have "BridgeAssetId (pallet w') = BridgeAssetId (pallet w) \<and> fee_issuance w' \<le> fee_issuance w + fee_issued s"
  proof (cases "\<exists>a. c = RioAssetsCall a")
    case True
    then obtain a where a: "c = RioAssetsCall a" by blast
    with run' have run_a: "final (dispatch_assets unit_hooks og a w) = Some w'" by simp
    from effectsD [OF dispatch_assets_keeps_pallet run_a] assets_fee_issuance [OF run_a] show ?thesis
      by (simp add: a StepCall)
  next
    case False
    then have "effects issues_none (dispatch_runtime member og c :: ('a bridge_store_scheme world, unit) op)"
      by (rule other_calls_issue_none)
    from effectsD [OF this run'] other issues_none_fees [of w w'] show ?thesis by (simp add: issues_none_def)
  qed
  ultimately show ?thesis by simp
next
  case (StepBlockEnd weight)
  with run have run': "final (all_modules_on_finalize accumulate weight w) = Some w'" by simp
  from effectsD [OF finalize_issues_none run'] issues_none_fees [of w w'] effectsD [OF finalize_supply run'] ok other
  show ?thesis by (simp add: issues_none_def)
next
  case (StepPayment tip who info len)
  with run have pay: "final (validate (runtime_tx_config accumulate) on_unb tip who info len w) = Some w'" by simp
  obtain i :: asset_id where "i \<noteq> RFUEL" "i \<noteq> LOCKED_RFUEL" using SBTC_pays_no_fees by blast
  from validate_keeps_supply [OF ok handler room pay] validate_spares [OF ok handler room pay this] show ?thesis
    by auto
next
  case (StepFramework n now x key)
  with run ok show ?thesis by (auto simp: fee_issuance_def)
qed

text \<open>
  Induction over a run whose fee assets stay within the bound: the supply is kept, and with it every
  property that each step of the run keeps.
\<close>

lemma chain_run_invariant:
  assumes handler: "\<And>n. neg_peek n \<noteq> 0 \<Longrightarrow> on_unb n = on_nonzero_unbalanced n"
    and step: "\<And>s w w'. s \<in> set ss \<Longrightarrow> supply_ok w \<Longrightarrow> fee_issuance w < 2 ^ 127 \<Longrightarrow> P w \<Longrightarrow>
      chain_step accumulate on_unb member s w = Some w' \<Longrightarrow> P w'"
    and "chain_run accumulate on_unb member ss w = Some w'"
    and "supply_ok w" and "BridgeAssetId (pallet w) \<notin> {RFUEL, LOCKED_RFUEL}"
    and "fee_issuance w + sum_list (map fee_issued ss) < 2 ^ 127" and "P w"
  shows "supply_ok w' \<and> P w'"
  using assms(2-)
proof (induction ss arbitrary: w)
  case (Cons s ss)
  from Cons.prems(2) obtain t where t: "chain_step accumulate on_unb member s w = Some t" "chain_run accumulate on_unb member ss t = Some w'"
    by (auto split: Option.bind_splits)
  have room: "fee_issuance w < 2 ^ 127" using Cons.prems(5) by simp
  note fees = chain_step_fees [OF handler Cons.prems(3,4) room t(1)]
  have P: "P t" by (rule Cons.prems(1) [OF _ Cons.prems(3) room Cons.prems(6) t(1)]) simp
  have room': "fee_issuance t + sum_list (map fee_issued ss) < 2 ^ 127" using fees Cons.prems(5) by simp
  show ?case
    by (rule Cons.IH [OF Cons.prems(1) [OF list.set_intros(2)] t(2) _ _ room' P]) (use fees Cons.prems(4) in auto)
qed simp

lemmas chain_run_supply = chain_run_invariant [where P = "\<lambda>_. True", OF _ _ _ _ _ _ TrueI, THEN conjunct1]

section \<open>The vault\<close>

text \<open>What a step keeps: the holdings, the configuration of the bridge and the cover of the vault.\<close>

definition vault_safe :: "account_id \<Rightarrow> asset_id \<Rightarrow> 'z bridge_store_scheme world \<Rightarrow> bool" where
  "vault_safe v i w \<longleftrightarrow> supply_ok w \<and> vault_covers w \<and> BridgeAssetId (pallet w) = i \<and> PendingWithdrawVault (pallet w) = v"

lemma vault_safe_grows:
  "vault_safe v i w \<Longrightarrow> supply_ok w' \<Longrightarrow> vault_grows w w' \<Longrightarrow> vault_safe v i w'"
  using vault_covers_grows [of w w'] by (simp add: vault_safe_def vault_grows_def)

lemma mutate_grows:
  assumes "\<And>p. PendingWithdraws (f p) = PendingWithdraws p" and "\<And>p. BridgeAssetId (f p) = BridgeAssetId p"
    and "\<And>p. PendingWithdrawVault (f p) = PendingWithdrawVault p"
  shows "effects vault_grows (mutate f)"
  using assms by (auto intro!: effectsI simp: vault_grows_def vault_balance_def)

lemma other_pallets_grow:
  "effects vault_grows (report member (RioOracle t) og p)"
  "effects vault_grows (price_on_finalize (RioOracle t) (\<lambda>_. return ()))"
  "effects vault_grows (tx_on_finalize cfg weight)"
  "effects vault_grows (set_account og who)"
  unfolding report_def add_price_def price_on_finalize_def price_event_def tx_on_finalize_def set_account_def
    fee_event_def RioOracle_simps on_witnessed_def median_def mean_def index_def
  by (intro grows.effects_intros mutate_grows; simp)+

lemma finalize_grows: "effects vault_grows (all_modules_on_finalize accumulate weight)"
  unfolding all_modules_on_finalize_def by (intro grows.effects_intros other_pallets_grow)

lemma bridge_config_kept:
  assumes "final (dispatch_bridge unit_hooks og c w) = Some w'"
  shows "BridgeAssetId (pallet w') = BridgeAssetId (pallet w) \<and> PendingWithdrawVault (pallet w') = PendingWithdrawVault (pallet w)"
proof (cases c)
  case (CallRefund who x)
  with assms show ?thesis
    by (auto simp: refund_apply make_transfer_with_event_sent remove_from_pending_withdraws_def and_then_apply
        split: origin.splits if_splits option.splits)
next
  case (CallWithdraw who x)
  with assms show ?thesis
    by (auto simp: withdraw_apply make_transfer_with_event_sent split: origin.splits if_splits)
next
  case (CallWithdrawFinish who x)
  with assms show ?thesis
    by (auto simp: withdraw_finish_def remove_from_pending_withdraws_def and_then_apply
        split: origin.splits if_splits option.splits)
qed (use assms in \<open>auto simp: vault_grows_def dest!: other_calls_grow [THEN effectsD]\<close>)

lemma call_vault_safe:
  assumes safe: "vault_safe v i w" and run: "final (dispatch_runtime member og c w) = Some w'"
    and spared: "\<not> spends_vault v i (StepCall og c)"
  shows "vault_safe v i w'"
proof -
  have ok: "supply_ok w" and ok': "supply_ok w'"
    using safe effectsD [OF dispatch_runtime_supply run] by (auto simp: vault_safe_def)
  show ?thesis
  proof (cases c)
    case (RioAssetsCall a)
    with run spared have "final (dispatch_assets unit_hooks og a w) = Some w'" and "\<not> takes_from v i og a" by simp_all
    then have "FreeBalance w i v \<le> FreeBalance w' i v" and "pallet w' = pallet w"
      using dispatch_assets_spares [OF ok] effectsD [OF dispatch_assets_keeps_pallet] by blast+
    with safe have "vault_grows w w'" by (simp add: vault_grows_def vault_balance_def vault_safe_def)
    with safe ok' show ?thesis by (rule vault_safe_grows)
  next
    case (RioBridgeCall b)
    with run have run': "final (dispatch_bridge unit_hooks og b w) = Some w'" by simp
    have "\<And>x. b \<noteq> CallWithdraw (PendingWithdrawVault (pallet w)) x"
      using spared safe by (auto simp: RioBridgeCall vault_safe_def)
    then have "vault_covers w'"
      using safe by (intro dispatch_bridge_vault [OF ok _ _ run']) (simp_all add: vault_safe_def)
    with bridge_config_kept [OF run'] safe ok' show ?thesis by (simp add: vault_safe_def)
  next
    case (RioFeeCall who)
    with run have "vault_grows w w'" using effectsD [OF other_pallets_grow(4)] by simp
    with safe ok' show ?thesis by (rule vault_safe_grows)
  next
    case (RioPriceCall p)
    with run have "vault_grows w w'" using effectsD [OF other_pallets_grow(1)] by simp
    with safe ok' show ?thesis by (rule vault_safe_grows)
  qed
qed

lemma chain_step_vault_safe:
  assumes handler: "\<And>n. neg_peek n \<noteq> 0 \<Longrightarrow> on_unb n = on_nonzero_unbalanced n"
    and asset: "i \<noteq> RFUEL" "i \<noteq> LOCKED_RFUEL" and room: "fee_issuance w < 2 ^ 127"
    and safe: "vault_safe v i w" and spared: "\<not> spends_vault v i s"
    and run: "chain_step accumulate on_unb member s w = Some w'"
  shows "vault_safe v i w'"
proof (cases s)
  case (StepCall og c)
  with run call_vault_safe [OF safe _ spared [unfolded StepCall]] show ?thesis by simp
next
  case (StepBlockEnd weight)
  with run have "final (all_modules_on_finalize accumulate weight w) = Some w'" by simp
  with effectsD [OF finalize_grows this] effectsD [OF finalize_supply this] safe show ?thesis
    by (intro vault_safe_grows [OF safe]) (simp_all add: vault_safe_def)
next
  case (StepPayment tip who info len)
  have ok: "supply_ok w" using safe by (simp add: vault_safe_def)
  from run StepPayment have pay: "final (validate (runtime_tx_config accumulate) on_unb tip who info len w) = Some w'" by simp
  have "vault_grows w w'"
    using validate_spares [OF ok handler room pay asset] safe by (auto simp: vault_grows_def vault_balance_def vault_safe_def)
  with safe validate_keeps_supply [OF ok handler room pay] show ?thesis by (intro vault_safe_grows [OF safe]) simp_all
next
  case (StepFramework n now x key)
  with run have w': "w' = w\<lparr>BlockNumber := n, Timestamp := now, ExtrinsicIndex := x, RootKey := key\<rparr>" by simp
  with safe show ?thesis
    by (intro vault_safe_grows [OF safe]) (simp_all add: vault_safe_def vault_grows_def vault_balance_def)
qed

lemma chain_run_vault_safe:
  assumes handler: "\<And>n. neg_peek n \<noteq> 0 \<Longrightarrow> on_unb n = on_nonzero_unbalanced n"
    and asset: "i \<noteq> RFUEL" "i \<noteq> LOCKED_RFUEL" and safe: "vault_safe v i w" and spared: "\<forall>s \<in> set ss. \<not> spends_vault v i s"
    and room: "fee_issuance w + sum_list (map fee_issued ss) < 2 ^ 127"
    and run: "chain_run accumulate on_unb member ss w = Some w'"
  shows "vault_safe v i w'"
proof -
  have step: "vault_safe v i u'" if "s \<in> set ss" "fee_issuance u < 2 ^ 127" "vault_safe v i u"
    "chain_step accumulate on_unb member s u = Some u'" for s u u'
    by (rule chain_step_vault_safe [OF handler asset that(2,3) _ that(4)]) (use spared that(1) in blast)+
  have start: "supply_ok w" "BridgeAssetId (pallet w) \<notin> {RFUEL, LOCKED_RFUEL}"
    using safe asset by (simp_all add: vault_safe_def)
  have "supply_ok w' \<and> vault_safe v i w'"
    by (rule chain_run_invariant [where P = "vault_safe v i", OF _ _ run start room safe]) (erule handler, rule step)
  then show ?thesis ..
qed

section \<open>What the bridged asset stands for\<close>

text \<open>
  The amount of all deposits ever credited, and the steps of the root origin that create or destroy
  an asset by themselves. Without such a step the issuance of the bridged asset changes only with
  a credited deposit: a finished withdrawal leaves what it paid out in the vault.
\<close>

fun deposited :: "BridgeEvent list \<Rightarrow> nat" where
  "deposited [] = 0"
| "deposited (Deposited _ x _ # es) = unat x + deposited es"
| "deposited (_ # es) = deposited es"

fun issues :: "asset_id \<Rightarrow> ChainStep \<Rightarrow> bool" where
  "issues i (StepCall og (RioAssetsCall (CallCreate b j symb))) \<longleftrightarrow> og = Root \<and> j = i"
| "issues i (StepCall og (RioAssetsCall (CallMint j to x))) \<longleftrightarrow> og = Root \<and> j = i"
| "issues i (StepCall og (RioAssetsCall (CallBurn j who x))) \<longleftrightarrow> og = Root \<and> j = i"
| "issues i _ \<longleftrightarrow> False"

definition backed :: "asset_id \<Rightarrow> 'z bridge_store_scheme world \<Rightarrow> bool" where
  "backed i w \<longleftrightarrow> BridgeAssetId (pallet w) = i \<and> unat (TotalIssuance w i) = deposited (BridgeEvents (pallet w))"

abbreviation keeps_backed :: "asset_id \<Rightarrow> 'z bridge_store_scheme world \<Rightarrow> 'z bridge_store_scheme world \<Rightarrow> bool" where
  "keeps_backed i w w' \<equiv> backed i w \<longrightarrow> backed i w'"

interpretation backing: effect_order "keeps_backed i :: 'z bridge_store_scheme world \<Rightarrow> _" for i
  by unfold_locales auto

lemma deposited_append [simp]: "deposited (es @ fs) = deposited es + deposited fs"
  by (induction es rule: deposited.induct) simp_all

lemma backed_other:
  assumes "BridgeAssetId (pallet w') = BridgeAssetId (pallet w)" and "TotalIssuance w' i = TotalIssuance w i"
    and "deposited (BridgeEvents (pallet w')) = deposited (BridgeEvents (pallet w))"
  shows "keeps_backed i w w'"
  using assms by (simp add: backed_def)

lemma mutate_backed:
  assumes "\<And>p. BridgeAssetId (f p) = BridgeAssetId p" and "\<And>p. deposited (BridgeEvents (f p)) = deposited (BridgeEvents p)"
  shows "effects (keeps_backed i) (mutate f)"
  using assms by (auto intro!: effectsI simp: backed_def)

lemma bridge_event_backed: "deposited [e] = 0 \<Longrightarrow> effects (keeps_backed i) (bridge_event e)"
  unfolding bridge_event_def by (intro mutate_backed) simp_all

lemma transfer_backed: "effects (keeps_backed i) (make_transfer_with_event j from to x)"
  by (rule effectsI, rule backed_other) (auto simp: make_transfer_with_event_sent split: if_splits)

lemma simple_deposit_backed:
  fixes i :: asset_id and h :: tx_hash
  shows "effects (keeps_backed i :: 'z bridge_store_scheme world \<Rightarrow> _) (simple_deposit_with_event unit_hooks a x h)"
proof (rule effectsI, rule impI)
  fix w w' :: "'z bridge_store_scheme world"
  assume run: "final (simple_deposit_with_event unit_hooks a x h w) = Some w'" and w: "backed i w"
  have eq: "BridgeAssetId (pallet w) = i" using w by (simp add: backed_def)
  from run have "BridgeAssetId (pallet w') = i \<and> (TotalIssuance w' = TotalIssuance w \<and> BridgeEvents (pallet w') = BridgeEvents (pallet w) \<or>
      unat (TotalIssuance w i) + unat x < 2 ^ 128 \<and> TotalIssuance w' i = TotalIssuance w i + x \<and>
      BridgeEvents (pallet w') = BridgeEvents (pallet w) @ [Deposited a x h])"
    by (auto simp: simple_deposit_with_event_def Let_def mint_def unit_hooks_def mint_free_apply deposit_event_apply eq
        unwrap_or_default_apply bridge_event_def and_then_apply checked_add_def split: if_splits)
  with w show "backed i w'" by (auto simp: backed_def unat_plus)
qed

lemma release_pendings_backed: "effects (keeps_backed i) (release_pendings unit_hooks acc ds)"
proof (induction ds)
  case Nil
  show ?case by (simp only: release_pendings.simps backing.effects_return)
next
  case (Cons d ds)
  show ?case
    unfolding release_pendings.simps
    by (intro backing.effects_intros simple_deposit_backed mutate_backed Cons.IH) simp_all
qed

lemma bridge_backed: "effects (keeps_backed i) (dispatch_bridge unit_hooks og c)"
  by (cases c; simp only: dispatch_bridge.simps pause_def resume_def delete_admin_def update_admin_def deposit_def
      hold_deposit_with_event_def refund_def withdraw_finish_def withdraw_def mark_black_def mark_white_def mark_with_event_def
      mark_def remove_from_pending_withdraws_def;
      intro backing.effects_intros simple_deposit_backed release_pendings_backed transfer_backed bridge_event_backed mutate_backed;
      simp)

lemma assets_issue_none:
  assumes run: "final (dispatch_assets unit_hooks og c w) = Some w'" and "\<not> issues i (StepCall og (RioAssetsCall c))"
  shows "TotalIssuance w' i = TotalIssuance w i"
  using assms
  by (cases c) (auto simp: transfer_def mint_def burn_def unit_hooks_def create_def set_reserve_def set_unreserve_def
      update_permission_def update_restriction_def assets_eqs make_transfer_with_event_sent unwrap_or_default_apply
      and_then_apply Let_def split: origin.splits if_splits)

lemma assets_backed:
  assumes "\<not> issues i (StepCall og (RioAssetsCall c))"
  shows "effects (keeps_backed i) (dispatch_assets unit_hooks og c)"
proof (rule effectsI)
  fix w w' :: "'z bridge_store_scheme world"
  assume run: "final (dispatch_assets unit_hooks og c w) = Some w'"
  have "pallet w' = pallet w" using effectsD [OF dispatch_assets_keeps_pallet run] .
  then show "keeps_backed i w w'" using assets_issue_none [OF run assms] by (intro backed_other) simp_all
qed

lemma other_pallets_backed:
  "effects (keeps_backed i) (report member (RioOracle t) og p)"
  "effects (keeps_backed i) (price_on_finalize (RioOracle t) (\<lambda>_. return ()))"
  "effects (keeps_backed i) (tx_on_finalize cfg weight)"
  "effects (keeps_backed i) (set_account og who)"
  unfolding report_def add_price_def price_on_finalize_def price_event_def tx_on_finalize_def set_account_def
    fee_event_def RioOracle_simps on_witnessed_def median_def mean_def index_def
  by (intro backing.effects_intros mutate_backed; simp)+

lemma call_backed:
  "\<not> issues i (StepCall og c) \<Longrightarrow> effects (keeps_backed i) (dispatch_runtime member og c)"
  by (cases c) (simp_all add: assets_backed bridge_backed other_pallets_backed)

lemma finalize_backed: "effects (keeps_backed i) (all_modules_on_finalize accumulate weight)"
  unfolding all_modules_on_finalize_def by (intro backing.effects_intros other_pallets_backed)

lemma chain_step_backed:
  assumes handler: "\<And>n. neg_peek n \<noteq> 0 \<Longrightarrow> on_unb n = on_nonzero_unbalanced n"
    and asset: "i \<noteq> RFUEL" "i \<noteq> LOCKED_RFUEL" and ok: "supply_ok w" and room: "fee_issuance w < 2 ^ 127"
    and bk: "backed i w" and no: "\<not> issues i s"
    and run: "chain_step accumulate on_unb member s w = Some w'"
  shows "backed i w'"
proof (cases s)
  case (StepCall og c)
  with run no effectsD [OF call_backed] bk show ?thesis by (metis chain_step.simps(1))
next
  case (StepBlockEnd weight)
  with run effectsD [OF finalize_backed] bk show ?thesis by (metis chain_step.simps(3))
next
  case (StepPayment tip who info len)
  from run StepPayment have pay: "final (validate (runtime_tx_config accumulate) on_unb tip who info len w) = Some w'" by simp
  have "keeps_backed i w w'"
    using validate_spares [OF ok handler room pay asset] by (intro backed_other) auto
  with bk show ?thesis by blast
next
  case (StepFramework n now x key)
  with run bk show ?thesis by (auto simp: backed_def)
qed

lemma chain_run_backed:
  assumes handler: "\<And>n. neg_peek n \<noteq> 0 \<Longrightarrow> on_unb n = on_nonzero_unbalanced n"
    and asset: "i \<noteq> RFUEL" "i \<noteq> LOCKED_RFUEL" and ok: "supply_ok w" and bk: "backed i w" and no: "\<forall>s \<in> set ss. \<not> issues i s"
    and room: "fee_issuance w + sum_list (map fee_issued ss) < 2 ^ 127"
    and run: "chain_run accumulate on_unb member ss w = Some w'"
  shows "backed i w'"
proof -
  have step: "backed i u'" if "s \<in> set ss" "supply_ok u" "fee_issuance u < 2 ^ 127" "backed i u"
    "chain_step accumulate on_unb member s u = Some u'" for s u u'
    by (rule chain_step_backed [OF handler asset that(2-4) _ that(5)]) (use no that(1) in blast)+
  have "BridgeAssetId (pallet w) \<notin> {RFUEL, LOCKED_RFUEL}" using bk asset by (simp add: backed_def)
  from this have "supply_ok w' \<and> backed i w'"
    by (intro chain_run_invariant [where P = "backed i", OF _ _ run ok _ room bk]) (erule handler, rule step)
  then show ?thesis ..
qed

section \<open>Who can change an issuance\<close>

text \<open>A payment check settles fees in the two fee assets and leaves every other issuance alone.\<close>

definition issues_fees_only :: "'z bridge_store_scheme world \<Rightarrow> 'z bridge_store_scheme world \<Rightarrow> bool" where
  "issues_fees_only w w' \<longleftrightarrow> BridgeAssetId (pallet w') = BridgeAssetId (pallet w) \<and>
     (\<forall>i. i \<noteq> RFUEL \<longrightarrow> i \<noteq> LOCKED_RFUEL \<longrightarrow> TotalIssuance w' i = TotalIssuance w i)"

interpretation settling: effect_order issues_fees_only
  by unfold_locales (simp_all add: issues_fees_only_def)

lemma imbalances_issue_fees_only:
  "effects issues_fees_only (drop_positive RFUELProvider p)"
  "effects issues_fees_only (drop_negative RFUELProvider n)"
  "effects issues_fees_only (withdraw_currency RFUELProvider who x rs)"
  "effects issues_fees_only (make_transfer_between_assets LOCKED_RFUEL who RFUEL who rs x)"
  by (auto intro!: effectsI simp: issues_fees_only_def drop_positive_apply [of _ _ RFUEL] drop_negative_apply [of _ _ RFUEL]
      withdraw_currency_apply [of _ _ RFUEL] make_transfer_between_assets_apply exchanged_def Let_def split: if_splits)

lemma deposit_issues_fees_only: "effects issues_fees_only (deposit_creating RFUELProvider who x)"
proof -
  have "effects issues_fees_only (free_balance_currency RFUELProvider who)" "effects issues_fees_only (make_free_balance_be RFUELProvider who b)" for b
    by (auto intro!: effectsI simp: free_balance_currency_def make_free_balance_be_def assets_eqs issues_fees_only_def Let_def)
  then show ?thesis
    unfolding deposit_creating_def
    by (intro settling.effects_intros)
      (auto simp: settling.effects_intros imbalances_issue_fees_only intro: settling.effects_and_then split: SignedImbalance.split)
qed

lemma validate_issues_fees_only: "effects issues_fees_only (validate cfg on_nonzero_unbalanced tip who info len)"
proof -
  have "effects issues_fees_only (fee_event e)" for e
    by (rule effectsI) (auto simp: issues_fees_only_def)
  then show ?thesis
    unfolding validate_def on_nonzero_unbalanced_def buy_fee_asset_def
    by (intro settling.effects_intros imbalances_issue_fees_only deposit_issues_fees_only)
qed

lemma chain_step_issuance:
  assumes handler: "\<And>n. neg_peek n \<noteq> 0 \<Longrightarrow> on_unb n = on_nonzero_unbalanced n"
    and i: "i \<noteq> BridgeAssetId (pallet w)" "i \<noteq> RFUEL" "i \<noteq> LOCKED_RFUEL" and no: "\<not> issues i s"
    and run: "chain_step accumulate on_unb member s w = Some w'"
  shows "BridgeAssetId (pallet w') = BridgeAssetId (pallet w) \<and> TotalIssuance w' i = TotalIssuance w i"
proof (cases s)
  case (StepCall og c)
  with run have run': "final (dispatch_runtime member og c w) = Some w'" by simp
  show ?thesis
  proof (cases "\<exists>a. c = RioAssetsCall a")
    case True
    then obtain a where a: "c = RioAssetsCall a" by blast
    with run' have run_a: "final (dispatch_assets unit_hooks og a w) = Some w'" by simp
    from effectsD [OF dispatch_assets_keeps_pallet run_a] assets_issue_none [OF run_a] no show ?thesis
      by (simp add: a StepCall)
  next
    case False
    from effectsD [OF other_calls_issue_none [OF False] run'] i(1) show ?thesis by (simp add: issues_none_def)
  qed
next
  case (StepBlockEnd weight)
  with run have "final (all_modules_on_finalize accumulate weight w) = Some w'" by simp
  from effectsD [OF finalize_issues_none this] i(1) show ?thesis by (simp add: issues_none_def)
next
  case (StepPayment tip who info len)
  with run have "final (validate (runtime_tx_config accumulate) on_nonzero_unbalanced tip who info len w) = Some w'"
    by (simp add: validate_handler [OF handler])
  from effectsD [OF validate_issues_fees_only this] i(2,3) show ?thesis by (simp add: issues_fees_only_def)
next
  case (StepFramework n now x key)
  with run show ?thesis by auto
qed

text \<open>A chain starts with nothing issued, nothing credited and nothing pending.\<close>

lemma loaded_start:
  assumes "load cr wasm json alt n = Ok spec n'" and "spec_genesis spec s = Ok cfg t" and "genesis_storage cfg = Ok () w0"
  shows "backed SBTC w0" and "vault_safe (PendingWithdrawVault (pallet w0)) SBTC w0" and "fee_issuance w0 = 0"
proof -
  note w0 = loaded_storage [OF assms]
  have "BridgeEvents (pallet w0) = []" "PendingWithdraws (pallet w0) = (\<lambda>_. None)"
    by (simp_all add: w0(2) genesis_pallets_def Let_def bridge_genesis_def)
  then show "backed SBTC w0" "vault_safe (PendingWithdrawVault (pallet w0)) SBTC w0" "fee_issuance w0 = 0"
    using w0(1) by (simp_all add: backed_def vault_safe_def vault_covers_def pending_total_def pending_withdraws_def
        fee_issuance_def w0(5,6))
qed

section \<open>Properties\<close>

text \<open>C7: withdrawals stay covered whatever happens on the chain. Start with holdings that add up to
  the issuance and a vault that covers the pending withdrawals, in an asset that pays no fees. After
  any run of calls of all pallets by any origins, successful or failing, payment checks and block
  ends, in which nobody acts on the vault's own account (no transfer signed by it, no burn or reserve
  that names it and no withdrawal in its name), the vault still holds at least the sum of
  everything pending for all accounts. The fee assets stay below half the range of a balance: what
  is issued of the two at the start, with everything the root origin mints or creates of them
  during the run, is less than \<open>2 ^ 127\<close>; beyond that the settlement of a fee can saturate.\<close>

theorem withdrawals_stay_covered:
  assumes "supply_ok w0" and "vault_covers w0" and "i = BridgeAssetId (pallet w0)" and "v = PendingWithdrawVault (pallet w0)"
    and "i \<noteq> RFUEL" and "i \<noteq> LOCKED_RFUEL" and "\<forall>n. neg_peek n \<noteq> 0 \<longrightarrow> on_unb n = on_nonzero_unbalanced n"
    and "\<forall>s \<in> set ss. \<not> spends_vault v i s" and "fee_issuance w0 + sum_list (map fee_issued ss) < 2 ^ 127"
    and "chain_run accumulate on_unb member ss w0 = Some w"
  shows "pending_total w \<le> unat (FreeBalance w i v)"
proof -
  have "vault_safe v i w0" using assms(1-4) by (simp add: vault_safe_def)
  from chain_run_vault_safe [OF _ assms(5,6) this assms(8-10)] assms(7) have "vault_safe v i w" by blast
  then show ?thesis by (auto simp: vault_safe_def vault_covers_def vault_balance_def)
qed

theorem withdrawals_stay_covered_witness:
  "\<exists>w. chain_run (\<lambda>_ b. b) on_nonzero_unbalanced (\<lambda>_. None)
       [StepCall (Signed 2) (RioBridgeCall (CallWithdraw 1 200)), StepCall (Signed 1) (RioAssetsCall (CallTransfer 10 3 100))]
       (demo_world [(10, 500)] demo_bridge) = Some w \<and>
     pending_withdraws w 1 = [200] \<and> FreeBalance w 10 3 = 100 \<and> pending_total w \<le> unat (FreeBalance w 10 8)"
proof -
  let ?w0 = "demo_world [(10, 500)] demo_bridge"
  let ?ss = "[StepCall (Signed 2) (RioBridgeCall (CallWithdraw 1 200)), StepCall (Signed 1) (RioAssetsCall (CallTransfer 10 3 100))]"
  obtain w where w: "chain_run (\<lambda>_ b. b) on_nonzero_unbalanced (\<lambda>_. None) ?ss ?w0 = Some w"
    "pending_withdraws w 1 = [200]" "FreeBalance w 10 3 = 100"
    by (simp add: withdraw_apply has_auth_def make_transfer_with_event_sent pending_withdraws_def transfer_def unit_hooks_def
        unwrap_or_default_apply moved_def)
  have "vault_covers ?w0"
    by (simp add: vault_covers_def pending_total_def pending_withdraws_def)
  from withdrawals_stay_covered [OF supply_ok_demo this refl refl _ _ _ _ _ w(1)] w show ?thesis
    by (auto simp: RFUEL_def LOCKED_RFUEL_def fee_issuance_def)
qed

text \<open>C34: value is issued by the root origin alone. For every asset but the two that pay fees and the
  one the bridge serves: after any run of the chain (calls of all pallets by any origins with any arguments,
  successful or failing, payment checks, block ends) in which the root origin does not create, mint or
  burn the asset, its issuance is exactly what it was, whatever users and other origins tried.\<close>

theorem issuance_needs_root:
  assumes "\<forall>n. neg_peek n \<noteq> 0 \<longrightarrow> on_unb n = on_nonzero_unbalanced n"
    and "i \<noteq> BridgeAssetId (pallet w0)" and "i \<noteq> RFUEL" and "i \<noteq> LOCKED_RFUEL" and "\<forall>s \<in> set ss. \<not> issues i s"
    and "chain_run accumulate on_unb member ss w0 = Some w"
  shows "TotalIssuance w i = TotalIssuance w0 i"
  using assms(2,5,6)
proof (induction ss arbitrary: w0)
  case (Cons s ss)
  then obtain t where t: "chain_step accumulate on_unb member s w0 = Some t" "chain_run accumulate on_unb member ss t = Some w"
    by (auto split: Option.bind_splits)
  have "BridgeAssetId (pallet t) = BridgeAssetId (pallet w0) \<and> TotalIssuance t i = TotalIssuance w0 i"
    by (rule chain_step_issuance [OF _ Cons.prems(1) assms(3,4) _ t(1)]) (use assms(1) Cons.prems(2) in simp_all)
  with Cons.IH [OF _ _ t(2)] Cons.prems(1,2) show ?case by simp
qed simp

theorem issuance_needs_root_witness:
  "\<exists>w. chain_run (\<lambda>_ b. b) on_nonzero_unbalanced (\<lambda>_. None)
       [StepCall (Signed 1) (RioAssetsCall (CallMint 30 1 1000)), StepCall (Signed 1) (RioAssetsCall (CallTransfer 30 3 100))]
       (demo_world [(30, 500)] demo_bridge) = Some w \<and>
     FreeBalance w 30 3 = 100 \<and> TotalIssuance w 30 = 500"
proof -
  let ?w0 = "demo_world [(30, 500)] demo_bridge"
  let ?ss = "[StepCall (Signed 1) (RioAssetsCall (CallMint 30 1 1000)), StepCall (Signed 1) (RioAssetsCall (CallTransfer 30 3 100))]"
  obtain w where w: "chain_run (\<lambda>_ b. b) on_nonzero_unbalanced (\<lambda>_. None) ?ss ?w0 = Some w" "FreeBalance w 30 3 = 100"
    by (simp add: make_transfer_with_event_sent transfer_def mint_def unit_hooks_def unwrap_or_default_apply moved_def)
  from issuance_needs_root [OF _ _ _ _ _ w(1), of 30] w show ?thesis
    by (auto simp: RFUEL_def LOCKED_RFUEL_def)
qed

end
