(* ===== verification/Spec2Isabelle.thy ===== *)
theory Spec2Isabelle
  imports Loan_Calls Saving_Exact Chain_Run
begin

text \<open>
  Riochain is a Substrate chain. Its own logic is in the pallets under \<^verbatim>\<open>src/modules/\<close>, which
  \<^verbatim>\<open>src/runtime/src/lib.rs\<close> wires into a runtime and \<^verbatim>\<open>src/src/chain_spec.rs\<close> configures.

  \<^bold>\<open>The parts and how they interact.\<close> The assets pallet keeps, for every asset, the issuance, the
  free and the reserved balances, and runs hooks of other pallets around transfers, mints and
  burns. Its currency view gives one asset the interface the framework expects, with imbalances
  whose drop changes the issuance. The fee pallet collects fees and turns the locked fee asset
  into the fee asset; the payment pallet computes the fee of a transaction and charges it through
  both. The oracle pallet records who reported, the price pallet collects the reports and sets the
  price to their median at the end of a block. The bridge mints deposits reported from another
  chain and escrows withdrawals in a vault. The loan pallet lends against collateral at the
  reported price; the saving pallet takes savings in phases, issues and locks shares and pays a
  bonus. Loans and savings call the assets and the price pallet; the saving pallet is also called
  back by the assets pallet.

  \<^bold>\<open>Theories.\<close>
  \<^item> \<open>Rio_Prelude\<close>: checked and saturating arithmetic on words; runs against the storage as
    \<open>('s, 'a) op\<close>, ending with a value, an error that keeps the writes made before it, or a panic;
    the locale \<open>effect_order\<close> for relations that every step of a run respects.
  \<^item> \<open>Assets\<close> (\<^verbatim>\<open>rio-assets/src/lib.rs\<close>, \<^verbatim>\<open>permissions.rs\<close>, \<^verbatim>\<open>attributes.rs\<close>, \<^verbatim>\<open>traits.rs\<close>): the record
    \<open>world\<close> is the storage of the pallet, the block context and, as \<open>pallet\<close>, the storage of its
    clients; \<open>hooks\<close> holds the listeners and the locale \<open>hooked\<close> what is asked of them. The
    invariant \<open>supply_ok\<close> (holdings add up to the issuance) is kept by every call.
  \<^item> \<open>Currency\<close> (\<^verbatim>\<open>currency.rs\<close>, \<^verbatim>\<open>imbalances.rs\<close>, \<^verbatim>\<open>protocol.rs\<close>), \<open>Fee\<close> (\<^verbatim>\<open>rio-fee\<close>), \<open>Tx_Payment\<close>
    (\<^verbatim>\<open>rio-transaction-payment\<close>): what a payment moves, to the last unit, and when it is rejected; the
    table of error codes.
  \<^item> \<open>Oracle\<close> (\<^verbatim>\<open>rio-oracle\<close>) with the locale \<open>oracle_mixed_in\<close>, \<open>Price\<close> (\<^verbatim>\<open>rio-price\<close>): the price stays
    within the reports of an honest majority; a report is used within its window.
  \<^item> \<open>Bridge\<close> (\<^verbatim>\<open>rio-bridge\<close>): a deposit is credited once, the calls keep the vault at the pending withdrawals,
    large or blacklisted deposits wait and are credited when the account is marked white.
  \<^item> \<open>Loan\<close>, \<open>Loan_Book\<close>, \<open>Loan_Calls\<close> (\<^verbatim>\<open>rio-loan\<close>): the operations; the book of debts and its
    invariant (the pallet's total of loans is the sum over the loans that run, and the debt of the
    loans that were liquidated, which the pallet never takes off); the calls and their exact effects.
  \<^item> \<open>Release_Pack\<close>, \<open>Saving\<close>, \<open>Saving_Calls\<close>, \<open>Saving_Shares\<close>, \<open>Saving_Exact\<close> (\<^verbatim>\<open>rio-saving\<close>): the
    payout schedule of locked shares; the operations, calls and hooks of the pallet; supply, quota
    and termination of staking; the table of shares as a refinement of the balances, and the bonus;
    the storage a staking and a redemption end in, to the last unit.
  \<^item> \<open>Chain_Spec\<close> (\<^verbatim>\<open>src/src/chain_spec.rs\<close>, \<^verbatim>\<open>src/src/cli.rs\<close>): the supported chains, their genesis
    configurations and the storage built from them.
  \<^item> \<open>Runtime\<close> (\<^verbatim>\<open>src/runtime/src/lib.rs\<close>): the pallets of \<open>construct_runtime!\<close>, their calls as one
    type, the end of a block and the chain as one step relation \<open>runtime_reach\<close>, which refines the
    state machine of the bridge. The runtime wires no listener (\<open>runtime_hooks\<close>) and leaves the loan
    and saving pallets out; their properties are about the pallets with the wiring their tests use.
  \<^item> \<open>Chain_Run\<close>: the runs of \<open>runtime_reach\<close> as a function on lists of steps, and the bridge on the
    whole chain: the vault covers the pending withdrawals as long as no step acts on its account, and
    the issuance of the bridged asset is what was credited as long as root does not issue it; the issuance
    of the assets that are neither bridged nor pay fees changes by the root origin's calls alone.
  \<^item> This theory: the properties that span the pallets, for any genesis of the assets and for the
    chains the node ships.

  \<^bold>\<open>Numbers.\<close> Balances, prices and identifiers are words of the width the runtime gives them.
  Unchecked operators wrap, as in a release build; \<open>checked_\<close> operators return \<open>None\<close>; division
  by zero, \<open>unwrap\<close>, \<open>expect\<close> and indexing out of range panic.

  \<^bold>\<open>Fuel.\<close> One function of the code recurses without a structural measure: a staking that
  fills a phase continues in the next one. \<open>create_staking_upto\<close> takes a bound on the depth and what to run in
  place of a call beyond it; \<open>create_staking\<close> uses the number of phase identifiers after the
  current one. Every recursive call is in a later phase, so \<open>Saving_Calls\<close> proves that
  no call is beyond the bound, whatever the storage, and that \<open>create_staking\<close> satisfies the recursive
  equation of the code. \<open>payouts\<close> is a specification that releases a pack a given number of times.

  \<^bold>\<open>Bounds.\<close> The imbalances of the currency saturate, as in the code: with the fee assets issued up to the
  end of the balance type, settling a fee would no longer match the holdings. The theorems about runs of the
  chain with payment checks say so: what the genesis and the root origin issue of the two fee
  assets is less than half the range, \<open>2 ^ 127\<close>. Nothing else in a step is restricted.

  \<^bold>\<open>Parameters.\<close> The hooks an operation runs; the order in which the storage enumerates a linked
  map, a function of the storage; the membership test of the oracle collective; the fixed-point
  multiplication of the fee and the wrapper that hands a withdrawn fee on; key derivation, the
  JSON and address format parsers and the compiled runtime of a chain specification; the byte
  encodings that the codec derives for the version number and the payload of the permissions.

  \<^bold>\<open>Not modelled.\<close> The node service, networking and consensus, the framework's own pallets
  (system, sudo, timestamp, collective, indices, utility), weights of calls, the generated runtime
  interface, logging (\<^verbatim>\<open>rio-support\<close>), and the mocks of the tests other than the wiring of the saving pallet's
  hooks: they implement the configuration of the assets pallet twice and fill a genesis of an
  earlier version of it, with fields the pallet no longer has.
\<close>

section \<open>Properties\<close>

text \<open>C1: the chain never creates or loses value unnoticed. From a genesis configuration with
  distinct assets and endowments that fit, and a bridge whose asset is not one of the two fee
  assets, after any sequence of calls of the assets, fee, price and bridge pallets by any origins,
  payment checks and block ends, the free and reserved balances of every asset add up to its
  total issuance, so that no balance exceeds the issuance. The two fee assets stay below half the range
  of a balance: what the genesis issues of them, with everything the root origin mints or creates
  of them during the run, is less than \<open>2 ^ 127\<close>; beyond that the settlement of a fee can saturate.\<close>

theorem runtime_conserves_supply:
  assumes "distinct (map fst symbols)"
    and "\<forall>(i, symb, rs, endowed) \<in> set symbols. distinct (map fst endowed) \<and>
      sum_list (map (unat \<circ> snd) endowed) < 2 ^ 128"
    and "build root symbols (genesis_world root p) = Ok () w0"
    and "\<forall>n. neg_peek n \<noteq> 0 \<longrightarrow> on_unb n = on_nonzero_unbalanced n"
    and "BridgeAssetId p \<notin> {RFUEL, LOCKED_RFUEL}"
    and "fee_issuance w0 + sum_list (map fee_issued ss) < 2 ^ 127"
    and "chain_run accumulate on_unb member ss w0 = Some w"
  shows "(\<forall>i. total_held w i = unat (TotalIssuance w i)) \<and> (\<forall>i a. FreeBalance w i a \<le> TotalIssuance w i)"
proof -
  have "\<exists>w'. build root symbols (genesis_world root p) = Ok () w' \<and> supply_ok w'"
    by (rule build_run) (use assms(1,2) in \<open>auto simp: supply_ok_genesis, simp add: genesis_world_def\<close>)
  then have ok0: "supply_ok w0" using assms(3) by simp
  have "pallet w0 = p" using build_keeps_pallet [THEN effects_Ok, OF assms(3)] by (simp add: genesis_world_def)
  then have other: "BridgeAssetId (pallet w0) \<notin> {RFUEL, LOCKED_RFUEL}" using assms(5) by simp
  have "supply_ok w"
    by (rule chain_run_supply [OF _ _ assms(7) ok0 other assms(6)]) (use assms(4) in simp_all)
  then show ?thesis by (simp add: supply_okD free_le_issuance)
qed

theorem runtime_conserves_supply_witness:
  "\<exists>w0 w. build 7 [(10, [83], [], [(1, 500)])] (genesis_world 7 demo_bridge) = Ok () w0 \<and>
     chain_run (\<lambda>_ b. b) on_nonzero_unbalanced (\<lambda>_. None)
       [StepCall (Signed 1) (RioAssetsCall (CallTransfer 10 2 100)), StepPayment 0 1 \<lparr>info_weight = 10, info_class = Normal, pays_fee = True\<rparr> 9] w0 = Some w \<and>
     w \<noteq> w0 \<and> (\<forall>i. total_held w i = unat (TotalIssuance w i)) \<and> (\<forall>i a. FreeBalance w i a \<le> TotalIssuance w i)"
proof -
  let ?info = "\<lparr>info_weight = 10, info_class = Normal, pays_fee = True\<rparr>"
  let ?ss = "[StepCall (Signed 1) (RioAssetsCall (CallTransfer 10 2 100)), StepPayment 0 1 ?info 9]"
  obtain w0 where w0: "build 7 [(10, [83], [], [(1, 500)])] (genesis_world 7 demo_bridge) = Ok () w0"
    "Symbols w0 10 \<noteq> None" "FreeBalance w0 10 1 = 500" "Restrictions w0 10 Transferable = None"
    "TotalIssuance w0 RFUEL = 0" "TotalIssuance w0 LOCKED_RFUEL = 0" "Symbols w0 RFUEL = None"
    by (simp add: build_def build_symbol_def expect_apply assets_eqs genesis_world_def Let_def RFUEL_def LOCKED_RFUEL_def)
  obtain w where w: "transfer unit_hooks (Signed 1) 10 2 100 w0 = Ok () w" "FreeBalance w 10 1 = 400" "Symbols w RFUEL = None"
    using w0 by (simp add: transfer_def unit_hooks_def make_transfer_with_event_sent unwrap_or_default_apply moved_def)
  have "final (validate (runtime_tx_config (\<lambda>_ b. b)) on_nonzero_unbalanced 0 1 ?info 9 w) = Some w"
    by (simp add: validate_def compute_fee_def runtime_tx_config_def CENTS_def Let_def saturating_mul_def saturating_add_def
        checked_mul_def checked_add_def map_err_apply buy_fee_asset_def make_transfer_between_assets_apply and_then_apply w(3))
  with w(1) have run: "chain_run (\<lambda>_ b. b) on_nonzero_unbalanced (\<lambda>_. None) ?ss w0 = Some w" by simp
  have "w \<noteq> w0" using w(2) w0(3) by auto
  with runtime_conserves_supply [OF _ _ w0(1) _ _ _ run] run w0(1,5,6) show ?thesis
    by (auto simp: fee_issuance_def RFUEL_def LOCKED_RFUEL_def)
qed

text \<open>C2: every chain the node ships is safe. From the storage built for any of the supported chains,
  after any run of calls by any origin, payment checks and block ends in which the root origin
  mints and creates less than \<open>2 ^ 127\<close> of the two fee assets together (beyond that the settlement of a
  fee can saturate): the holdings of every
  asset add up to its issuance; no deposit from the other chain has been credited twice, and every
  credited deposit is still in the history that rejects it when it is submitted again; as long as
  the root origin does not create, mint or burn the bridged asset itself, its issuance is exactly
  what was ever credited (finished withdrawals included); and as long as no step acts on the
  account of the vault, it holds at least all pending withdrawals.\<close>

theorem shipped_chains_safe:
  assumes "load cr wasm json alt n = Ok spec n'" and "spec_genesis spec s = Ok cfg t" and "genesis_storage cfg = Ok () w0"
    and "\<forall>n. neg_peek n \<noteq> 0 \<longrightarrow> on_unb n = on_nonzero_unbalanced n"
    and "sum_list (map fee_issued ss) < 2 ^ 127"
    and "chain_run accumulate on_unb member ss w0 = Some w" and "vault = PendingWithdrawVault (pallet w0)"
  shows "(\<forall>i. total_held w i = unat (TotalIssuance w i)) \<and> distinct (credited (BridgeEvents (pallet w))) \<and>
    (\<forall>h \<in> set (credited (BridgeEvents (pallet w))). is_tx_seen w h) \<and>
    ((\<forall>st \<in> set ss. \<not> issues SBTC st) \<longrightarrow> unat (TotalIssuance w SBTC) = deposited (BridgeEvents (pallet w))) \<and>
    ((\<forall>st \<in> set ss. \<not> spends_vault vault SBTC st) \<longrightarrow> pending_total w \<le> unat (FreeBalance w SBTC vault))"
proof -
  note w0 = loaded_storage(1,2) [OF assms(1-3)] and start = loaded_start [OF assms(1-3), folded assms(7)]
  note reach = chain_run_reach_from [OF assms(6) runtime_reach.genesis]
  have room: "fee_issuance w0 + sum_list (map fee_issued ss) < 2 ^ 127" using assms(5) start(3) by simp
  have "BridgeAssetId (pallet w0) \<notin> {RFUEL, LOCKED_RFUEL}" using start(1) by (simp add: backed_def)
  then have "supply_ok w"
    by (intro chain_run_supply [OF _ _ assms(6) w0(1) _ room]) (use assms(4) in simp_all)
  moreover have "bridge_inv (bridge_part w0)"
    by (simp add: bridge_part_def w0(2) genesis_pallets_def Let_def bridge_inv_genesis)
  then have "bridge_inv (bridge_part w)"
    using unit_listener.bridge_reach_inv [OF runtime_refines_bridge [OF reach]] assms(4) by blast
  moreover have "backed SBTC w" if "\<forall>st \<in> set ss. \<not> issues SBTC st"
    using chain_run_backed [OF _ SBTC_pays_no_fees w0(1) start(1) that room assms(6)] assms(4) by blast
  moreover have "vault_safe vault SBTC w" if "\<forall>st \<in> set ss. \<not> spends_vault vault SBTC st"
    using chain_run_vault_safe [OF _ SBTC_pays_no_fees start(2) that room assms(6)] assms(4) by blast
  ultimately show ?thesis
    using bridge_invD(1,2) [of "bridge_part w"]
    by (auto simp: supply_okD is_tx_seen_def backed_def vault_safe_def vault_covers_def vault_balance_def)
qed

theorem shipped_chains_safe_witness:
  "\<exists>(spec :: (unit, string) ChainSpec) cfg w0 w admin.
     load \<lparr>sr25519_from_string = \<lambda>p. Some (of_nat (length p)), ed25519_from_string = \<lambda>_. None, into_account = \<lambda>k. k\<rparr> [] Some
       Beta () = Ok spec () \<and>
     spec_genesis spec () = Ok cfg () \<and> genesis_storage cfg = Ok () w0 \<and>
     chain_run (\<lambda>_ b. b) on_nonzero_unbalanced (\<lambda>_. None) [StepCall (Signed admin) (RioBridgeCall (CallDeposit 3 100 42))] w0 = Some w \<and>
     credited (BridgeEvents (pallet w)) = [42] \<and> (\<forall>i. total_held w i = unat (TotalIssuance w i)) \<and>
     unat (TotalIssuance w SBTC) = deposited (BridgeEvents (pallet w)) \<and>
     pending_total w \<le> unat (FreeBalance w SBTC (PendingWithdrawVault (pallet w0)))"
proof -
  let ?cr = "\<lparr>sr25519_from_string = \<lambda>p. Some (of_nat (length p)), ed25519_from_string = \<lambda>_. None, into_account = \<lambda>k. k\<rparr>"
  have der: "derives ?cr Beta" by (simp add: derives_def)
  have "\<exists>spec :: (unit, string) ChainSpec. load ?cr [] Some Beta () = Ok spec () \<and> (\<exists>cfg. spec_genesis spec () = Ok cfg ())"
    by (rule ex_forward [OF load_run [where json = Some, OF refl]]) (use der in blast)
  then obtain spec :: "(unit, string) ChainSpec" and cfg where
    run: "load ?cr [] Some Beta () = Ok spec ()" "spec_genesis spec () = Ok cfg ()" by blast
  from shipped_deposit [OF load_shipped [OF run], of 100 3 42] obtain w0 w admin where
    w: "genesis_storage cfg = Ok () w0" "deposit unit_hooks (Signed admin) 3 100 42 w0 = Ok () w"
      "credited (BridgeEvents (pallet w)) = [42]" by auto
  let ?ss = "[StepCall (Signed admin) (RioBridgeCall (CallDeposit 3 100 42))]"
  have step: "chain_run (\<lambda>_ b. b) on_nonzero_unbalanced (\<lambda>_. None) ?ss w0 = Some w" by (simp add: w(2))
  from shipped_chains_safe [OF run w(1) _ _ this refl]
  have "(\<forall>i. total_held w i = unat (TotalIssuance w i)) \<and> unat (TotalIssuance w SBTC) = deposited (BridgeEvents (pallet w)) \<and>
    pending_total w \<le> unat (FreeBalance w SBTC (PendingWithdrawVault (pallet w0)))" by simp
  with run w(1,3) step show ?thesis by blast
qed

end
